(* ===== verification/Go_Prelude.thy ===== *)
theory Go_Prelude
  imports Complex_Main "HOL-Library.Word"
begin

text \<open>
  The vocabulary the component theories share.  It holds what the modelled Go code takes from the
  language and its standard library: error values, strings as lists of characters, 64-bit
  wrap-around, hexadecimal and decimal formatting, \<open>strings.Join\<close>, and the generic contract of a
  value/text codec.  It also declares the fact collections the components extend and the list
  lemmas their proofs use.

  Conventions.  A Go call returning \<open>error\<close> returns a value of type \<open>goerror option\<close> (\<open>None\<close> is
  nil); a call returning a value and an error returns \<open>goerror + 'a\<close> (\<open>Inl\<close> is the error).
\<close>

named_theorems frame "operations that leave the tables of the database alone"

named_theorems keeps "the same, as rules on the result of a call"

named_theorems sql_effect "what a statement does to each table"

named_theorems step_intro "rules that build a transition of the abstract will registry"

named_theorems row_simps "how a row update changes the columns of a row"

section \<open>Error values\<close>

text \<open>
  The sentinel errors of the repository and service packages, the errors of the database driver
  (its no-rows sentinel and any other failure, by message) and errors built with
  \<open>fmt.Errorf\<close>: \<open>Errorf\<close> without and \<open>Wrap\<close> with a wrapped cause (the verb \<open>%w\<close>).
\<close>

datatype goerror =
    ErrForbidden
  | ErrInvalidState
  | ErrWillNotFound
  | ErrNoAuditEntries
  | ErrEncryptionInvalid
  | ErrNoRows
  | DbError string
  | Errorf string
  | Wrap string goerror

text \<open>\<open>errors.Is\<close>: the error itself or one it wraps.\<close>

fun errors_Is :: "goerror \<Rightarrow> goerror \<Rightarrow> bool" where
  "errors_Is (Wrap m e) target = (Wrap m e = target \<or> errors_Is e target)"
| "errors_Is e target = (e = target)"

text \<open>The text of an error (\<open>err.Error()\<close>), with the messages the source gives its sentinels.\<close>

fun error_text :: "goerror \<Rightarrow> string" where
  "error_text ErrForbidden = ''forbidden''"
| "error_text ErrInvalidState = ''invalid state''"
| "error_text ErrWillNotFound = ''will not found''"
| "error_text ErrNoAuditEntries = ''no audit entries''"
| "error_text ErrEncryptionInvalid = ''invalid encryption payload''"
| "error_text ErrNoRows = ''no rows in result set''"
| "error_text (DbError m) = m"
| "error_text (Errorf m) = m"
| "error_text (Wrap m e) = m @ error_text e"

section \<open>Machine integers\<close>

text \<open>The value of an \<open>int64\<close> after arithmetic that may overflow.\<close>

definition wrap64 :: "int \<Rightarrow> int" where
  "wrap64 x = (x + 2 ^ 63) mod 2 ^ 64 - 2 ^ 63"

definition in_int64 :: "int \<Rightarrow> bool" where
  "in_int64 x \<longleftrightarrow> - (2 ^ 63) \<le> x \<and> x < 2 ^ 63"

definition in_int32 :: "int \<Rightarrow> bool" where
  "in_int32 x \<longleftrightarrow> - (2 ^ 31) \<le> x \<and> x < 2 ^ 31"

lemma wrap64_in_range [simp, intro]: "in_int64 (wrap64 x)"
proof -
  have "0 \<le> (x + 2 ^ 63) mod 2 ^ 64" "(x + 2 ^ 63) mod 2 ^ 64 < (2 :: int) ^ 64"
    by simp_all
  then show ?thesis by (simp add: wrap64_def in_int64_def)
qed

lemma wrap64_id [simp]: "in_int64 x \<Longrightarrow> wrap64 x = x"
  by (simp add: wrap64_def in_int64_def)

lemma wrap64_cong: "wrap64 x = wrap64 y \<longleftrightarrow> x mod 2 ^ 64 = y mod 2 ^ 64"
proof -
  have "wrap64 x = wrap64 y \<longleftrightarrow> (x + 2 ^ 63) mod 2 ^ 64 = (y + 2 ^ 63) mod 2 ^ 64"
    by (simp add: wrap64_def)
  also have "\<dots> \<longleftrightarrow> x mod 2 ^ 64 = y mod 2 ^ 64"
    by (simp add: mod_eq_dvd_iff)
  finally show ?thesis .
qed

text \<open>Go's integer division and remainder truncate towards zero.\<close>

definition go_div :: "int \<Rightarrow> int \<Rightarrow> int" where
  "go_div a b = sgn a * sgn b * (\<bar>a\<bar> div \<bar>b\<bar>)"

definition go_mod :: "int \<Rightarrow> int \<Rightarrow> int" where
  "go_mod a b = a - b * go_div a b"

section \<open>Text\<close>

text \<open>\<open>strings.Join\<close>.\<close>

fun strings_Join :: "string list \<Rightarrow> string \<Rightarrow> string" where
  "strings_Join [] sep = []"
| "strings_Join [x] sep = x"
| "strings_Join (x # y # xs) sep = x @ sep @ strings_Join (y # xs) sep"

text \<open>The digit character of a value below sixteen, in lower case as the verb \<open>%x\<close> prints it.\<close>

definition hex_digit :: "nat \<Rightarrow> char" where
  "hex_digit n = char_of (if n < 10 then 48 + n else 87 + n)"

definition dec_digit :: "nat \<Rightarrow> char" where
  "dec_digit n = char_of (48 + n)"

text \<open>The verb \<open>%x\<close> on a byte slice, which is also \<open>hex.EncodeToString\<close>.\<close>

definition hex_byte :: "8 word \<Rightarrow> string" where
  "hex_byte b = [hex_digit (unat b div 16), hex_digit (unat b mod 16)]"

definition hex_bytes :: "8 word list \<Rightarrow> string" where
  "hex_bytes bs = concat (map hex_byte bs)"

text \<open>The verb \<open>%d\<close>.\<close>

function dec_pos :: "int \<Rightarrow> string" where
  "dec_pos n = (if n < 10 then [dec_digit (nat n)]
     else dec_pos (n div 10) @ [dec_digit (nat (n mod 10))])"
  by pat_completeness auto
termination
  by (relation "measure nat") auto

declare dec_pos.simps [simp del]

definition dec_int :: "int \<Rightarrow> string" where
  "dec_int i = (if i < 0 then ''-'' @ dec_pos (- i) else dec_pos i)"

text \<open>A number of known width, zero padded on the left.\<close>

fun pad_dec :: "nat \<Rightarrow> int \<Rightarrow> string" where
  "pad_dec 0 n = []"
| "pad_dec (Suc w) n = pad_dec w (n div 10) @ [dec_digit (nat (n mod 10))]"

text \<open>Reading decimal digits.\<close>

definition is_digit :: "char \<Rightarrow> bool" where
  "is_digit c \<longleftrightarrow> 48 \<le> (of_char c :: nat) \<and> (of_char c :: nat) \<le> 57"

definition digit_value :: "char \<Rightarrow> int" where
  "digit_value c = int (of_char c) - 48"

fun number_value :: "string \<Rightarrow> int" where
  "number_value s = foldl (\<lambda>n c. n * 10 + digit_value c) 0 s"

lemma length_pad_dec [simp]: "length (pad_dec w n) = w"
  by (induction w arbitrary: n) auto

lemma char_of_small_inj: "m < 256 \<Longrightarrow> n < 256 \<Longrightarrow> char_of m = (char_of n :: char) \<longleftrightarrow> m = (n :: nat)"
  by (simp add: char_of_eq_iff take_bit_eq_mod)

lemma dec_digit_inj: "m < 10 \<Longrightarrow> n < 10 \<Longrightarrow> dec_digit m = dec_digit n \<longleftrightarrow> m = n"
  by (simp add: dec_digit_def char_of_small_inj)

lemma hex_digit_inj: "m < 16 \<Longrightarrow> n < 16 \<Longrightarrow> hex_digit m = hex_digit n \<longleftrightarrow> m = n"
  by (auto simp: hex_digit_def char_of_small_inj)

lemma pad_dec_inj:
  "0 \<le> m \<Longrightarrow> m < 10 ^ w \<Longrightarrow> 0 \<le> n \<Longrightarrow> n < 10 ^ w \<Longrightarrow> pad_dec w m = pad_dec w n \<longleftrightarrow> m = n"
proof (induction w arbitrary: m n)
  case 0
  then show ?case by simp
next
  case (Suc w)
  have bound: "k div 10 < 10 ^ w" if "k < 10 ^ Suc w" for k :: int
    using that by (simp add: div_less_iff_less_mult mult.commute)
  have div: "pad_dec w (m div 10) = pad_dec w (n div 10) \<longleftrightarrow> m div 10 = n div 10"
    by (rule Suc.IH) (simp_all add: bound Suc.prems pos_imp_zdiv_nonneg_iff del: power_Suc)
  have mod: "dec_digit (nat (m mod 10)) = dec_digit (nat (n mod 10)) \<longleftrightarrow> m mod 10 = n mod 10"
    by (subst dec_digit_inj) (simp_all add: nat_less_iff eq_nat_nat_iff)
  have "pad_dec (Suc w) m = pad_dec (Suc w) n \<longleftrightarrow> m div 10 = n div 10 \<and> m mod 10 = n mod 10"
    by (simp only: pad_dec.simps append1_eq_conv div mod)
  also have "\<dots> \<longleftrightarrow> m = n"
    by (metis div_mult_mod_eq)
  finally show ?case .
qed

lemma number_value_Nil [simp]: "number_value [] = 0"
  by simp

lemma number_value_snoc: "number_value (s @ [c]) = number_value s * 10 + digit_value c"
  by simp

declare number_value.simps [simp del]

lemma digit_of_dec_digit:
  assumes "n < 10"
  shows "is_digit (dec_digit n)" "digit_value (dec_digit n) = int n"
  using assms by (auto simp: is_digit_def digit_value_def dec_digit_def)

lemma dec_pos_reads: "0 \<le> n \<Longrightarrow> number_value (dec_pos n) = n \<and> list_all is_digit (dec_pos n) \<and> dec_pos n \<noteq> []"
proof (induction n rule: dec_pos.induct)
  case (1 n)
  show ?case
  proof (cases "n < 10")
    case True
    then have d: "nat n < 10" using 1(2) by simp
    show ?thesis using True 1(2) number_value_snoc [of "[]" "dec_digit (nat n)"] digit_of_dec_digit [OF d]
      by (simp add: dec_pos.simps [of n])
  next
    case False
    have d: "nat (n mod 10) < 10" by (simp add: nat_less_iff)
    show ?thesis using False 1 digit_of_dec_digit [OF d]
      by (simp add: dec_pos.simps [of n] number_value_snoc)
  qed
qed

lemma dec_pos_inj: "0 \<le> m \<Longrightarrow> 0 \<le> n \<Longrightarrow> dec_pos m = dec_pos n \<longleftrightarrow> m = n"
  by (metis dec_pos_reads)

lemma pad_dec_reads:
  "0 \<le> n \<Longrightarrow> n < 10 ^ w \<Longrightarrow> number_value (pad_dec w n) = n \<and> list_all is_digit (pad_dec w n)"
proof (induction w arbitrary: n)
  case (Suc w)
  have d: "nat (n mod 10) < 10" by (simp add: nat_less_iff)
  have "n div 10 < 10 ^ w" using Suc.prems by (simp add: div_less_iff_less_mult mult.commute)
  then show ?case using Suc digit_of_dec_digit [OF d] by (simp add: number_value_snoc pos_imp_zdiv_nonneg_iff)
qed simp

lemma hex_byte_inj [simp]: "hex_byte a = hex_byte b \<longleftrightarrow> a = b"
proof -
  have "unat a < 256" "unat b < 256"
    using unsigned_less [of a] unsigned_less [of b] by simp_all
  then have "unat a div 16 < 16" "unat b div 16 < 16" by simp_all
  then have "hex_byte a = hex_byte b \<longleftrightarrow> unat a div 16 = unat b div 16 \<and> unat a mod 16 = unat b mod 16"
    by (simp add: hex_byte_def hex_digit_inj)
  also have "\<dots> \<longleftrightarrow> unat a = unat b"
    by (metis div_mult_mod_eq)
  finally show ?thesis by (simp only: word_unat_eq_iff)
qed

lemma length_hex_byte [simp]: "length (hex_byte b) = 2"
  by (simp add: hex_byte_def)

lemma length_hex_bytes [simp]: "length (hex_bytes bs) = 2 * length bs"
  by (induction bs) (simp_all add: hex_bytes_def)

lemma hex_bytes_Nil [simp]: "hex_bytes [] = []"
  by (simp add: hex_bytes_def)

lemma hex_bytes_Cons [simp]: "hex_bytes (b # bs) = hex_byte b @ hex_bytes bs"
  by (simp add: hex_bytes_def)

lemma hex_bytes_inj [simp]: "length as = length bs \<Longrightarrow> hex_bytes as = hex_bytes bs \<longleftrightarrow> as = bs"
  by (induction as bs rule: list_induct2) simp_all

section \<open>Contracts shared by several components\<close>

text \<open>
  A codec writes a value as text and reads it back.  What its clients rely on is that reading
  undoes writing; then writing is injective, and a text compared after writing compares values.
\<close>

locale codec =
  fixes enc :: "'a \<Rightarrow> 'b" and dec :: "'b \<Rightarrow> 'a" and dom_ok :: "'a \<Rightarrow> bool"
  assumes dec_enc: "dom_ok x \<Longrightarrow> dec (enc x) = x"
begin

lemma enc_eq_iff: "dom_ok x \<Longrightarrow> dom_ok y \<Longrightarrow> enc x = enc y \<longleftrightarrow> x = y"
  by (metis dec_enc)

lemma enc_inj_on: "inj_on enc {x. dom_ok x}"
  by (auto intro: inj_onI simp: enc_eq_iff)

lemma dec_list: "list_all dom_ok xs \<Longrightarrow> map dec (map enc xs) = xs"
  by (induction xs) (auto simp: dec_enc)

end

text \<open>
  A step relation with an invariant: the start state satisfies it and every step keeps it.  Then
  it holds in every state a run can reach.
\<close>

locale step_invariant =
  fixes step :: "'s \<Rightarrow> 's \<Rightarrow> bool" and inv :: "'s \<Rightarrow> bool"
  assumes inv_step: "step s t \<Longrightarrow> inv s \<Longrightarrow> inv t"
begin

lemma inv_steps: "step\<^sup>*\<^sup>* s t \<Longrightarrow> inv s \<Longrightarrow> inv t"
  by (induction rule: rtranclp_induct) (auto intro: inv_step)

end

end
