(* ===== verification/Go_Time.thy ===== *)
theory Go_Time
  imports Go_Prelude
begin

text \<open>
  Go's \<open>time.Time\<close> as the program uses it: wall-clock instants in UTC (every instant the program
  creates is \<open>time.Now().UTC()\<close>, which drops the monotonic reading), their order (\<open>Before\<close>),
  \<open>AddDate(0, 0, n)\<close>, the saturating \<open>Sub\<close>, the layouts \<open>time.RFC3339Nano\<close> and the one of the
  witness-signature key, and the microsecond resolution of the \<open>TIMESTAMPTZ\<close> columns.

  An instant is its second count since 0001-01-01T00:00:00Z, the 64-bit count \<open>Time\<close> keeps, and its
  nanosecond within the second.
\<close>

datatype gotime = GoTime (wsec: int) (wnsec: int)

definition valid_time :: "gotime \<Rightarrow> bool" where
  "valid_time t \<longleftrightarrow> in_int64 (wsec t) \<and> 0 \<le> wnsec t \<and> wnsec t < 1000000000"

section \<open>Order\<close>

instantiation gotime :: linorder
begin

definition less_eq_gotime :: "gotime \<Rightarrow> gotime \<Rightarrow> bool" where
  "less_eq_gotime t u \<longleftrightarrow> wsec t < wsec u \<or> wsec t = wsec u \<and> wnsec t \<le> wnsec u"

definition less_gotime :: "gotime \<Rightarrow> gotime \<Rightarrow> bool" where
  "less_gotime t u \<longleftrightarrow> wsec t < wsec u \<or> wsec t = wsec u \<and> wnsec t < wnsec u"

instance
  by standard (auto simp: less_eq_gotime_def less_gotime_def intro: gotime.expand)

end

definition time_Before :: "gotime \<Rightarrow> gotime \<Rightarrow> bool" where
  "time_Before t u \<longleftrightarrow> t < u"

lemma time_Before_iff: "time_Before t u \<longleftrightarrow> t < u"
  by (simp add: time_Before_def)

section \<open>Arithmetic\<close>

text \<open>
  \<open>AddDate(0, 0, n)\<close> rebuilds the instant from its civil date with the day moved by \<open>n\<close>; in UTC
  every day has 86400 seconds and the second count is computed modulo \<open>2 ^ 64\<close>.
\<close>

definition time_AddDays :: "gotime \<Rightarrow> int \<Rightarrow> gotime" where
  "time_AddDays t n = GoTime (wrap64 (wsec t + n * 86400)) (wnsec t)"

definition nanos_between :: "gotime \<Rightarrow> gotime \<Rightarrow> int" where
  "nanos_between u t = (wsec t - wsec u) * 1000000000 + (wnsec t - wnsec u)"

text \<open>\<open>t.Sub(u)\<close>: a \<open>Duration\<close> is an \<open>int64\<close> of nanoseconds, and \<open>Sub\<close> saturates.\<close>

definition time_Sub :: "gotime \<Rightarrow> gotime \<Rightarrow> int" where
  "time_Sub t u = max (- (2 ^ 63)) (min (2 ^ 63 - 1) (nanos_between u t))"

definition hours24 :: int where
  "hours24 = 24 * 3600 * 1000000000"

lemma time_AddDays_0 [simp]: "valid_time t \<Longrightarrow> time_AddDays t 0 = t"
  by (cases t) (simp add: time_AddDays_def valid_time_def)

lemma time_AddDays_less:
  assumes "valid_time t" and "0 < n" and "in_int64 (wsec t + n * 86400)"
  shows "t < time_AddDays t n"
  using assms by (simp add: time_AddDays_def less_gotime_def)

lemma nanos_between_pos: "valid_time t \<Longrightarrow> valid_time u \<Longrightarrow> u \<le> t \<longleftrightarrow> 0 \<le> nanos_between u t"
  by (auto simp: nanos_between_def less_eq_gotime_def valid_time_def)

section \<open>The resolution of a timestamp column\<close>

text \<open>A \<open>TIMESTAMPTZ\<close> column keeps whole microseconds; the rest of the nanosecond part is cut.\<close>

definition timestamptz :: "gotime \<Rightarrow> gotime" where
  "timestamptz t = GoTime (wsec t) (wnsec t div 1000 * 1000)"

definition whole_micros :: "gotime \<Rightarrow> bool" where
  "whole_micros t \<longleftrightarrow> wnsec t mod 1000 = 0"

lemma timestamptz_idem [simp]: "timestamptz (timestamptz t) = timestamptz t"
  by (simp add: timestamptz_def)

lemma timestamptz_le: "timestamptz t \<le> t"
  by (simp add: timestamptz_def less_eq_gotime_def minus_mod_eq_div_mult [symmetric])

lemma timestamptz_id_iff: "timestamptz t = t \<longleftrightarrow> whole_micros t"
  by (cases t) (auto simp: timestamptz_def whole_micros_def minus_mod_eq_div_mult [symmetric])

lemma timestamptz_valid [simp]: "valid_time t \<Longrightarrow> valid_time (timestamptz t)"
  by (simp add: timestamptz_def valid_time_def) linarith

lemma timestamptz_mono: "t \<le> u \<Longrightarrow> timestamptz t \<le> timestamptz u"
  by (auto simp: timestamptz_def less_eq_gotime_def intro: zdiv_mono1)

section \<open>Civil dates\<close>

text \<open>
  The conversion \<open>Time.absDate\<close> performs: days since 0001-01-01 to year and day of year by cutting
  off 400-, 100-, 4- and 1-year cycles, then to month and day.
\<close>

definition year_yday :: "int \<Rightarrow> int \<times> nat" where
  "year_yday d =
     (let n400 = d div 146097; r = d mod 146097;
          n100 = min 3 (r div 36524); r = r - 36524 * n100;
          n4 = r div 1461; r = r mod 1461;
          n1 = min 3 (r div 365); r = r - 365 * n1
      in (400 * n400 + 100 * n100 + 4 * n4 + n1 + 1, nat r))"

definition is_leap :: "int \<Rightarrow> bool" where
  "is_leap y \<longleftrightarrow> y mod 4 = 0 \<and> (y mod 100 \<noteq> 0 \<or> y mod 400 = 0)"

definition month_lengths :: "int \<Rightarrow> nat list" where
  "month_lengths y = [31, if is_leap y then 29 else 28, 31, 30, 31, 30, 31, 31, 30, 31, 30, 31]"

fun month_day :: "nat list \<Rightarrow> nat \<Rightarrow> nat \<Rightarrow> nat \<times> nat" where
  "month_day [] m k = (m, k + 1)"
| "month_day (l # ls) m k = (if k < l then (m, k + 1) else month_day ls (m + 1) (k - l))"

definition date_of :: "gotime \<Rightarrow> int \<times> nat \<times> nat" where
  "date_of t =
     (let (y, k) = year_yday (wsec t div 86400); (m, d) = month_day (month_lengths y) 1 k
      in (y, m, d))"

definition clock_of :: "gotime \<Rightarrow> int \<times> int \<times> int" where
  "clock_of t = (let s = wsec t mod 86400 in (s div 3600, s mod 3600 div 60, s mod 60))"

section \<open>Layouts\<close>

definition year_text :: "int \<Rightarrow> string" where
  "year_text y =
     (let n = \<bar>y\<bar>; digits = (if n < 10000 then pad_dec 4 n else dec_pos n)
      in (if y < 0 then ''-'' @ digits else digits))"

definition strip_zeros :: "string \<Rightarrow> string" where
  "strip_zeros s = rev (dropWhile (\<lambda>c. c = CHR ''0'') (rev s))"

definition frac_text :: "int \<Rightarrow> string" where
  "frac_text ns = (if ns = 0 then [] else ''.'' @ strip_zeros (pad_dec 9 ns))"

text \<open>\<open>t.UTC().Format(time.RFC3339Nano)\<close>.\<close>

definition RFC3339Nano :: "gotime \<Rightarrow> string" where
  "RFC3339Nano t =
     (case (date_of t, clock_of t) of ((y, m, d), (hh, mm, ss)) \<Rightarrow>
        year_text y @ ''-'' @ pad_dec 2 (int m) @ ''-'' @ pad_dec 2 (int d) @ ''T'' @
        pad_dec 2 hh @ '':'' @ pad_dec 2 mm @ '':'' @ pad_dec 2 ss @
        frac_text (wnsec t) @ ''Z'')"

text \<open>\<open>t.UTC().Format("20060102T150405.999999999Z")\<close>, the layout of witness-signature keys.\<close>

definition compact_stamp :: "gotime \<Rightarrow> string" where
  "compact_stamp t =
     (case (date_of t, clock_of t) of ((y, m, d), (hh, mm, ss)) \<Rightarrow>
        year_text y @ pad_dec 2 (int m) @ pad_dec 2 (int d) @ ''T'' @
        pad_dec 2 hh @ pad_dec 2 mm @ pad_dec 2 ss @ frac_text (wnsec t) @ ''Z'')"

text \<open>The instants with a four-digit year, the ones both layouts write at fixed width.\<close>

definition four_digit_year :: "gotime \<Rightarrow> bool" where
  "four_digit_year t \<longleftrightarrow> 0 \<le> wnsec t \<and> wnsec t < 1000000000 \<and>
     0 \<le> fst (date_of t) \<and> fst (date_of t) < 10000"

section \<open>The layouts are injective\<close>

lemma year_yday_parts:
  assumes "year_yday d = (y, k)"
  obtains a b c e :: int where
    "d = 146097 * a + 36524 * b + 1461 * c + 365 * e + int k"
    "y = 400 * a + 100 * b + 4 * c + e + 1"
    "0 \<le> b" "b \<le> 3" "0 \<le> c" "c \<le> 24" "0 \<le> e" "e \<le> 3" "k \<le> 365"
proof -
  define r1 where "r1 = d mod 146097"
  define b where "b = min 3 (r1 div 36524)"
  define r2 where "r2 = r1 - 36524 * b"
  define r3 where "r3 = r2 mod 1461"
  define e where "e = min 3 (r3 div 365)"
  define r4 where "r4 = r3 - 365 * e"
  have r1: "0 \<le> r1" "r1 < 146097" "d = 146097 * (d div 146097) + r1"
    by (simp_all add: r1_def)
  have "r1 = 36524 * (r1 div 36524) + r1 mod 36524" "0 \<le> r1 mod 36524" "r1 mod 36524 < 36524"
    by simp_all
  then have b: "0 \<le> b" "b \<le> 3" and r2: "0 \<le> r2" "r2 \<le> 36524"
    using r1(1,2) by (auto simp: b_def r2_def min_def pos_imp_zdiv_nonneg_iff)
  have r3: "0 \<le> r3" "r3 \<le> 1460" "r2 = 1461 * (r2 div 1461) + r3"
    by (simp_all add: r3_def)
  then have c: "0 \<le> r2 div 1461" "r2 div 1461 \<le> 24"
    using r2 by linarith+
  have "r3 = 365 * (r3 div 365) + r3 mod 365" "0 \<le> r3 mod 365" "r3 mod 365 < 365"
    by simp_all
  then have e: "0 \<le> e" "e \<le> 3" and r4: "0 \<le> r4" "r4 \<le> 365"
    using r3(1,2) by (auto simp: e_def r4_def min_def pos_imp_zdiv_nonneg_iff)
  have "year_yday d = (400 * (d div 146097) + 100 * b + 4 * (r2 div 1461) + e + 1, nat r4)"
    by (simp only: year_yday_def Let_def r1_def b_def r2_def r3_def e_def r4_def)
  then have y: "y = 400 * (d div 146097) + 100 * b + 4 * (r2 div 1461) + e + 1" and k: "int k = r4"
    using assms r4 by simp_all
  from r1 r3 have "d = 146097 * (d div 146097) + 36524 * b + 1461 * (r2 div 1461) + 365 * e + int k"
    by (simp add: r2_def r4_def k)
  from that [OF this y b c e] r4 k show thesis by simp
qed

lemma year_yday_inj:
  assumes "year_yday d = year_yday d'"
  shows "d = d'"
proof -
  obtain y k where yk: "year_yday d = (y, k)" by fastforce
  obtain a b c e where d: "d = 146097 * a + 36524 * b + 1461 * c + 365 * e + int k"
      "y = 400 * a + 100 * b + 4 * c + e + 1"
      "0 \<le> b" "b \<le> 3" "0 \<le> c" "c \<le> 24" "0 \<le> e" "e \<le> 3"
    using year_yday_parts [OF yk] by metis
  obtain a' b' c' e' where d': "d' = 146097 * a' + 36524 * b' + 1461 * c' + 365 * e' + int k"
      "y = 400 * a' + 100 * b' + 4 * c' + e' + 1"
      "0 \<le> b'" "b' \<le> 3" "0 \<le> c'" "c' \<le> 24" "0 \<le> e'" "e' \<le> 3"
    using year_yday_parts [OF yk [unfolded assms]] by metis
  have "a = a'" using d d' by linarith
  moreover from this have "b = b'" using d d' by linarith
  moreover from calculation have "c = c'" using d d' by linarith
  moreover from calculation have "e = e'" using d d' by linarith
  ultimately show ?thesis by (simp add: d d')
qed

lemma year_yday_bound: "year_yday d = (y, k) \<Longrightarrow> k \<le> 365"
  by (rule year_yday_parts) auto

lemma month_day_parts:
  "month_day ls m k = (m', d) \<Longrightarrow>
     m \<le> m' \<and> m' \<le> m + length ls \<and> 1 \<le> d \<and> k + 1 = sum_list (take (m' - m) ls) + d"
proof (induction ls m k rule: month_day.induct)
  case (2 l ls m k)
  show ?case
  proof (cases "k < l")
    case True
    with "2.prems" show ?thesis by auto
  next
    case False
    with "2.prems" have "month_day ls (m + 1) (k - l) = (m', d)" by simp
    from "2.IH" [OF False this] have ih: "m + 1 \<le> m'" "m' \<le> m + length (l # ls)" "1 \<le> d"
      "k - l + 1 = sum_list (take (m' - (m + 1)) ls) + d" by simp_all
    from ih(1) have "m' - m = Suc (m' - (m + 1))" by simp
    with ih False show ?thesis by simp
  qed
qed auto

lemma month_day_inj: "month_day ls m k = month_day ls m k' \<Longrightarrow> k = k'"
  by (cases "month_day ls m k") (metis month_day_parts add_right_cancel)

lemma month_day_day_bound:
  "month_day ls m k = (m', d) \<Longrightarrow> list_all (\<lambda>l. l \<le> 31) ls \<Longrightarrow> k < sum_list ls + 31 \<Longrightarrow> d \<le> 31"
  by (induction ls m k rule: month_day.induct) (auto split: if_splits)

lemma date_of_bounds:
  assumes "date_of t = (y, m, d)"
  shows "1 \<le> m" and "m \<le> 13" and "1 \<le> d" and "d \<le> 31"
proof -
  obtain k where k: "year_yday (wsec t div 86400) = (y, k)"
    and md: "month_day (month_lengths y) 1 k = (m, d)"
    using assms by (auto simp: date_of_def Let_def split: prod.splits)
  have "k < sum_list (month_lengths y) + 31" "list_all (\<lambda>l. l \<le> 31) (month_lengths y)"
    using year_yday_bound [OF k] by (simp_all add: month_lengths_def)
  with month_day_parts [OF md] month_day_day_bound [OF md]
  show "1 \<le> m" "m \<le> 13" "1 \<le> d" "d \<le> 31"
    by (auto simp: month_lengths_def)
qed

lemma date_of_inj:
  assumes "date_of t = date_of u"
  shows "wsec t div 86400 = wsec u div 86400"
proof (rule year_yday_inj)
  obtain y k where k: "year_yday (wsec t div 86400) = (y, k)" by fastforce
  obtain y' k' where k': "year_yday (wsec u div 86400) = (y', k')" by fastforce
  from assms k k' have "y = y'" and "month_day (month_lengths y) 1 k = month_day (month_lengths y) 1 k'"
    by (auto simp: date_of_def Let_def split: prod.splits)
  with k k' show "year_yday (wsec t div 86400) = year_yday (wsec u div 86400)"
    using month_day_inj by metis
qed

lemma clock_of_bounds:
  assumes "clock_of t = (hh, mm, ss)"
  shows "0 \<le> hh" and "hh < 24" and "0 \<le> mm" and "mm < 60" and "0 \<le> ss" and "ss < 60"
proof -
  define s where "s = wsec t mod 86400"
  have s: "0 \<le> s" "s < 86400" by (simp_all add: s_def)
  define r where "r = s mod 3600"
  have r: "0 \<le> r" "r < 3600" by (simp_all add: r_def)
  have "hh = s div 3600" "mm = r div 60" "ss = s mod 60"
    using assms by (simp_all add: clock_of_def Let_def s_def r_def)
  with s r show "0 \<le> hh" "hh < 24" "0 \<le> mm" "mm < 60" "0 \<le> ss" "ss < 60"
    by (simp_all add: pos_imp_zdiv_nonneg_iff div_less_iff_less_mult)
qed

lemma clock_of_inj:
  assumes "clock_of t = clock_of u"
  shows "wsec t mod 86400 = wsec u mod 86400"
proof -
  have *: "s = s div 3600 * 3600 + s mod 3600 div 60 * 60 + s mod 60" for s :: int
    using div_mult_mod_eq [of s 3600] div_mult_mod_eq [of "s mod 3600" 60]
    by (simp add: mod_mod_cancel add.assoc)
  show ?thesis
    using assms * [of "wsec t mod 86400"] * [of "wsec u mod 86400"]
    by (simp add: clock_of_def Let_def)
qed

lemma wsec_inj:
  assumes "date_of t = date_of u" and "clock_of t = clock_of u"
  shows "wsec t = wsec u"
  using date_of_inj [OF assms(1)] clock_of_inj [OF assms(2)] by (metis div_mult_mod_eq)

lemma strip_zeros_append: "\<exists>n. s = strip_zeros s @ replicate n (CHR ''0'')"
proof -
  have "rev s = takeWhile (\<lambda>c. c = CHR ''0'') (rev s) @ dropWhile (\<lambda>c. c = CHR ''0'') (rev s)"
    by simp
  moreover have "takeWhile (\<lambda>c. c = CHR ''0'') (rev s)
      = replicate (length (takeWhile (\<lambda>c. c = CHR ''0'') (rev s))) (CHR ''0'')"
    by (rule replicate_eqI) (auto dest: set_takeWhileD)
  ultimately have "rev s = replicate (length (takeWhile (\<lambda>c. c = CHR ''0'') (rev s))) (CHR ''0'')
      @ dropWhile (\<lambda>c. c = CHR ''0'') (rev s)"
    by metis
  then have "s = strip_zeros s
      @ replicate (length (takeWhile (\<lambda>c. c = CHR ''0'') (rev s))) (CHR ''0'')"
    unfolding strip_zeros_def by (metis rev_append rev_replicate rev_rev_ident)
  then show ?thesis ..
qed

lemma strip_zeros_inj:
  assumes "strip_zeros s = strip_zeros s'" and "length s = length s'"
  shows "s = s'"
proof -
  obtain n n' where "s = strip_zeros s @ replicate n (CHR ''0'')"
    "s' = strip_zeros s' @ replicate n' (CHR ''0'')"
    using strip_zeros_append by metis
  with assms show ?thesis
    by (metis append_same_eq length_append add_left_cancel length_replicate)
qed

lemma one_billion: "(10 :: int) ^ 9 = 1000000000"
  by simp

lemma frac_text_inj:
  assumes "0 \<le> m" "m < 1000000000" "0 \<le> n" "n < 1000000000"
  shows "frac_text m = frac_text n \<longleftrightarrow> m = n"
proof -
  have "strip_zeros (pad_dec 9 m) = strip_zeros (pad_dec 9 n) \<longleftrightarrow> m = n"
    using assms by (metis strip_zeros_inj length_pad_dec pad_dec_inj one_billion)
  with assms show ?thesis by (auto simp: frac_text_def)
qed

text \<open>Two instants with four-digit years are written alike only if they are the same instant.\<close>

lemma RFC3339Nano_inj:
  assumes t: "four_digit_year t" and u: "four_digit_year u"
  shows "RFC3339Nano t = RFC3339Nano u \<longleftrightarrow> t = u"
proof
  assume eq: "RFC3339Nano t = RFC3339Nano u"
  obtain y m d hh mm ss where dt: "date_of t = (y, m, d)" "clock_of t = (hh, mm, ss)"
    using prod_cases3 by metis
  obtain y' m' d' hh' mm' ss' where du: "date_of u = (y', m', d')" "clock_of u = (hh', mm', ss')"
    using prod_cases3 by metis
  note bounds = date_of_bounds [OF dt(1)] date_of_bounds [OF du(1)]
    clock_of_bounds [OF dt(2)] clock_of_bounds [OF du(2)]
  have y: "0 \<le> y" "y < 10000" "0 \<le> y'" "y' < 10000"
    using t u by (simp_all add: four_digit_year_def dt du)
  have "pad_dec 4 y = pad_dec 4 y'" "pad_dec 2 (int m) = pad_dec 2 (int m')"
    "pad_dec 2 (int d) = pad_dec 2 (int d')" "pad_dec 2 hh = pad_dec 2 hh'" "pad_dec 2 mm = pad_dec 2 mm'"
    "pad_dec 2 ss = pad_dec 2 ss'" "frac_text (wnsec t) = frac_text (wnsec u)"
    using eq y by (auto simp: RFC3339Nano_def dt du year_text_def Let_def nat_less_iff)
  then have "y = y'" "m = m'" "d = d'" "hh = hh'" "mm = mm'" "ss = ss'"
      "wnsec t = wnsec u"
    using bounds y t u by (simp_all add: pad_dec_inj frac_text_inj four_digit_year_def nat_less_iff)
  then show "t = u"
    using y wsec_inj [of t u] by (intro gotime.expand) (simp_all add: dt du)
qed simp

text \<open>An instant finer than a microsecond is written differently from its stored value.\<close>

lemma RFC3339Nano_stored:
  assumes "valid_time t" and "\<not> whole_micros t"
  shows "RFC3339Nano (timestamptz t) \<noteq> RFC3339Nano t"
proof -
  have ns: "0 \<le> wnsec t" "wnsec t < 1000000000" "wnsec (timestamptz t) \<noteq> wnsec t"
    and sec: "wsec (timestamptz t) = wsec t"
    using assms timestamptz_id_iff [of t] by (auto simp: valid_time_def timestamptz_def intro: gotime.expand)
  have "0 \<le> wnsec (timestamptz t)" "wnsec (timestamptz t) < 1000000000"
    using timestamptz_valid [OF assms(1)] by (simp_all add: valid_time_def)
  then have "frac_text (wnsec (timestamptz t)) \<noteq> frac_text (wnsec t)"
    using ns by (simp add: frac_text_inj)
  moreover have "date_of (timestamptz t) = date_of t" "clock_of (timestamptz t) = clock_of t"
    by (simp_all add: date_of_def clock_of_def sec)
  ultimately show ?thesis
    by (auto simp: RFC3339Nano_def split: prod.splits)
qed

end
