(* ===== verification/Will_Models.thy ===== *)
theory Will_Models
  imports Go_Time
begin

text \<open>
  The domain types of \<open>internal/models/will.go\<close>: one record per struct, one datatype per string
  enumeration with the text of every constant.  Fields keep their Go names; a name several structs
  share takes the struct's name in front.  A \<open>*T\<close> field is an \<open>option\<close>.  \<open>float64\<close> values are copied
  and compared with zero only, and decoded JSON numbers are finite, so they are rationals.
\<close>

type_synonym WillID = string

section \<open>Lifecycle states\<close>

text \<open>
  \<open>WillStatus\<close> is a string type with five constants.  \<open>WillStatusText\<close> stands for a column value
  that is none of them.
\<close>

datatype WillStatus =
    WillStatusDraft
  | WillStatusLocked
  | WillStatusDeathNotified
  | WillStatusUnlockedDead
  | WillStatusSuperseded
  | WillStatusText string

fun status_text :: "WillStatus \<Rightarrow> string" where
  "status_text WillStatusDraft = ''draft''"
| "status_text WillStatusLocked = ''locked''"
| "status_text WillStatusDeathNotified = ''death_notified''"
| "status_text WillStatusUnlockedDead = ''unlocked_at_death''"
| "status_text WillStatusSuperseded = ''superseded''"
| "status_text (WillStatusText s) = s"

definition status_of_text :: "string \<Rightarrow> WillStatus" where
  "status_of_text s =
     (if s = ''draft'' then WillStatusDraft
      else if s = ''locked'' then WillStatusLocked
      else if s = ''death_notified'' then WillStatusDeathNotified
      else if s = ''unlocked_at_death'' then WillStatusUnlockedDead
      else if s = ''superseded'' then WillStatusSuperseded
      else WillStatusText s)"

definition known_status :: "WillStatus \<Rightarrow> bool" where
  "known_status s \<longleftrightarrow> (case s of WillStatusText _ \<Rightarrow> False | _ \<Rightarrow> True)"

section \<open>People\<close>

record IdentityClaims =
  RealMeFLT :: string
  FullName :: string
  AssuranceLevel :: string
  IsVerified :: bool

record Clause =
  Clause_ID :: string
  Clause_Text :: string
  Clause_Index :: int

record Beneficiary =
  Beneficiary_ID :: string
  Beneficiary_Name :: string
  Beneficiary_Email :: string
  Relation :: string

record Executor =
  Executor_ID :: string
  Executor_Name :: string
  Executor_Email :: string
  FLT :: string

record WitnessSignature =
  Witness :: IdentityClaims
  SignedAt :: gotime
  WS_PayloadHash :: string

section \<open>Clauses on assets\<close>

datatype DigitalAssetType =
    DigitalAssetCryptoWallet
  | DigitalAssetSocialMedia
  | DigitalAssetEmail
  | DigitalAssetPasswordManager
  | DigitalAssetCloudStorage
  | DigitalAssetOther
  | DigitalAssetText string

fun asset_text :: "DigitalAssetType \<Rightarrow> string" where
  "asset_text DigitalAssetCryptoWallet = ''crypto_wallet''"
| "asset_text DigitalAssetSocialMedia = ''social_media''"
| "asset_text DigitalAssetEmail = ''email''"
| "asset_text DigitalAssetPasswordManager = ''password_manager''"
| "asset_text DigitalAssetCloudStorage = ''cloud_storage''"
| "asset_text DigitalAssetOther = ''other''"
| "asset_text (DigitalAssetText s) = s"

definition asset_of_text :: "string \<Rightarrow> DigitalAssetType" where
  "asset_of_text s =
     (if s = ''crypto_wallet'' then DigitalAssetCryptoWallet
      else if s = ''social_media'' then DigitalAssetSocialMedia
      else if s = ''email'' then DigitalAssetEmail
      else if s = ''password_manager'' then DigitalAssetPasswordManager
      else if s = ''cloud_storage'' then DigitalAssetCloudStorage
      else if s = ''other'' then DigitalAssetOther
      else DigitalAssetText s)"

definition known_asset :: "DigitalAssetType \<Rightarrow> bool" where
  "known_asset s \<longleftrightarrow> (case s of DigitalAssetText _ \<Rightarrow> False | _ \<Rightarrow> True)"

record DigitalAssetClause =
  DA_ID :: string
  DA_WillID :: WillID
  DA_ClauseIndex :: int
  AssetType :: DigitalAssetType
  Platform :: string
  DA_Identifier :: string
  Instruction :: string
  DA_BeneficiaryID :: string

record PropertyClause =
  PC_ID :: string
  PC_WillID :: WillID
  PC_ClauseIndex :: int
  TitleReference :: string
  LINZVerifiedAt :: "gotime option"
  LINZLandAreaM2 :: rat
  LegalDescription :: string
  PC_BeneficiaryID :: string

section \<open>The will\<close>

record Will =
  Will_ID :: WillID
  Testator :: IdentityClaims
  Clauses :: "Clause list"
  TestatorSignedAt :: "gotime option"
  TestatorPayloadHash :: "string option"
  WitnessSignatures :: "WitnessSignature list"
  Beneficiaries :: "Beneficiary list"
  Executors :: "Executor list"
  DigitalAssetClauses :: "DigitalAssetClause list"
  PropertyClauses :: "PropertyClause list"
  Status :: WillStatus
  LockedAt :: "gotime option"
  SupersededBy :: "WillID option"
  ParentWillID :: "WillID option"
  IsCodicil :: bool
  DeathNotifiedAt :: "gotime option"
  VaultUnlockDelayDays :: int
  UnlockAfter :: "gotime option"
  UnlockedAt :: "gotime option"
  LastConfirmedAt :: "gotime option"
  LivenessNotifiedAt :: "gotime option"
  VaultCiphertext :: string
  VaultNonce :: string
  VaultAlg :: string
  AuditNote :: string

section \<open>The audit log\<close>

datatype AuditEvent =
    AuditEventCreated
  | AuditEventCodicilCreated
  | AuditEventCodicilAppended
  | AuditEventTestatorSigned
  | AuditEventWitnessSigned
  | AuditEventLocked
  | AuditEventSuperseded
  | AuditEventDeathNotified
  | AuditEventVaultUnlocked
  | AuditEventLivenessConfirmed
  | AuditEventLivenessReminder
  | AuditEventText string

fun event_text :: "AuditEvent \<Rightarrow> string" where
  "event_text AuditEventCreated = ''will_created''"
| "event_text AuditEventCodicilCreated = ''codicil_created''"
| "event_text AuditEventCodicilAppended = ''codicil_appended''"
| "event_text AuditEventTestatorSigned = ''testator_signed''"
| "event_text AuditEventWitnessSigned = ''witness_signed''"
| "event_text AuditEventLocked = ''locked''"
| "event_text AuditEventSuperseded = ''superseded''"
| "event_text AuditEventDeathNotified = ''death_notified''"
| "event_text AuditEventVaultUnlocked = ''vault_unlocked''"
| "event_text AuditEventLivenessConfirmed = ''liveness_confirmed''"
| "event_text AuditEventLivenessReminder = ''liveness_reminder_sent''"
| "event_text (AuditEventText s) = s"

definition event_of_text :: "string \<Rightarrow> AuditEvent" where
  "event_of_text s =
     (if s = ''will_created'' then AuditEventCreated
      else if s = ''codicil_created'' then AuditEventCodicilCreated
      else if s = ''codicil_appended'' then AuditEventCodicilAppended
      else if s = ''testator_signed'' then AuditEventTestatorSigned
      else if s = ''witness_signed'' then AuditEventWitnessSigned
      else if s = ''locked'' then AuditEventLocked
      else if s = ''superseded'' then AuditEventSuperseded
      else if s = ''death_notified'' then AuditEventDeathNotified
      else if s = ''vault_unlocked'' then AuditEventVaultUnlocked
      else if s = ''liveness_confirmed'' then AuditEventLivenessConfirmed
      else if s = ''liveness_reminder_sent'' then AuditEventLivenessReminder
      else AuditEventText s)"

definition known_event :: "AuditEvent \<Rightarrow> bool" where
  "known_event s \<longleftrightarrow> (case s of AuditEventText _ \<Rightarrow> False | _ \<Rightarrow> True)"

record AuditEntry =
  Entry_ID :: string
  Entry_WillID :: WillID
  PreviousEntryID :: string
  Event :: AuditEvent
  ActorFLT :: string
  PayloadHash :: string
  CreatedAt :: gotime

section \<open>The string enumerations are codecs\<close>

interpretation status_codec: codec status_text status_of_text known_status
  by unfold_locales (auto simp: status_of_text_def known_status_def split: WillStatus.splits)

interpretation asset_codec: codec asset_text asset_of_text known_asset
  by unfold_locales (auto simp: asset_of_text_def known_asset_def split: DigitalAssetType.splits)

interpretation event_codec: codec event_text event_of_text known_event
  by unfold_locales (auto simp: event_of_text_def known_event_def split: AuditEvent.splits)

text \<open>Reading a column never yields the catch-all constructor for a constant's text.\<close>

lemma status_text_of_text [simp]: "status_text (status_of_text s) = s"
  by (simp add: status_of_text_def)

lemma asset_text_of_text [simp]: "asset_text (asset_of_text s) = s"
  by (simp add: asset_of_text_def)

lemma event_text_of_text [simp]: "event_text (event_of_text s) = s"
  by (simp add: event_of_text_def)

lemma status_of_text_eq_iff: "known_status s \<Longrightarrow> status_of_text t = s \<longleftrightarrow> t = status_text s"
  by (metis status_codec.dec_enc status_text_of_text)

lemma known_status_simps [simp]:
  "known_status WillStatusDraft" "known_status WillStatusLocked"
  "known_status WillStatusDeathNotified" "known_status WillStatusUnlockedDead"
  "known_status WillStatusSuperseded" "\<not> known_status (WillStatusText s)"
  by (simp_all add: known_status_def)

text \<open>No event text contains the separator the audit chain joins its fields with.\<close>

lemma event_text_no_bar: "known_event e \<Longrightarrow> CHR ''|'' \<notin> set (event_text e)"
  by (cases e) (simp_all add: known_event_def)

end
