(* ===== verification/Will_Store.thy ===== *)
theory Will_Store
  imports Will_Models
begin

text \<open>
  The relational store the repositories talk to, and the environment of the process.

  Tables are those of \<open>migrations/001_init.sql\<close> and \<open>migrations/002_features.sql\<close>: one row record
  per table, a table is the list of its rows in insertion order, and a statement either reports
  an error or yields the new tables.  \<open>INSERT\<close> refuses a duplicate primary key, a dangling
  \<open>REFERENCES\<close> and an integer outside an \<open>INT\<close> column.  Columns no Go code reads
  (\<open>created_at\<close>, \<open>updated_at\<close> of \<open>will\<close>) are left out.  A \<open>SELECT\<close> without \<open>ORDER BY\<close> returns
  rows in table order, and rows that tie under \<open>ORDER BY\<close> keep it; no property rests on that.

  The server, the driver and the network can fail any call.  How they behave is part of the
  environment: a stream of outcomes, one taken by each round trip, over which every theorem is
  universally quantified unless it says otherwise.
\<close>

section \<open>Rows\<close>

record will_row =
  wr_id :: string
  wr_status :: string
  wr_testator_flt :: string
  wr_testator_full_name :: string
  wr_testator_assurance_level :: string
  wr_testator_signed_at :: "gotime option"
  wr_testator_payload_hash :: "string option"
  wr_locked_at :: "gotime option"
  wr_unlocked_at :: "gotime option"
  wr_vault_ciphertext :: string
  wr_vault_nonce :: string
  wr_vault_alg :: string
  wr_audit_note :: string
  wr_is_codicil :: bool
  wr_parent_will_id :: "string option"
  wr_superseded_by :: "string option"
  wr_death_notified_at :: "gotime option"
  wr_vault_unlock_delay_days :: int
  wr_unlock_after :: "gotime option"
  wr_last_confirmed_at :: "gotime option"
  wr_liveness_notified_at :: "gotime option"

record clause_row =
  cr_id :: string
  cr_will_id :: string
  cr_index :: int
  cr_text :: string

record beneficiary_row =
  br_id :: string
  br_will_id :: string
  br_name :: string
  br_email :: string
  br_relation :: string

record executor_row =
  er_id :: string
  er_will_id :: string
  er_name :: string
  er_email :: string
  er_flt :: "string option"

record witness_row =
  wsr_id :: string
  wsr_will_id :: string
  wsr_flt :: string
  wsr_full_name :: string
  wsr_assurance_level :: string
  wsr_signed_at :: gotime
  wsr_payload_hash :: string

record audit_row =
  ar_id :: string
  ar_will_id :: string
  ar_previous_entry_id :: "string option"
  ar_event :: string
  ar_actor_flt :: string
  ar_payload_hash :: string
  ar_created_at :: gotime

record asset_row =
  dr_id :: string
  dr_will_id :: string
  dr_index :: int
  dr_asset_type :: string
  dr_platform :: string
  dr_identifier :: string
  dr_instruction :: string
  dr_beneficiary_id :: "string option"

record property_row =
  pr_id :: string
  pr_will_id :: string
  pr_index :: int
  pr_title_reference :: string
  pr_linz_verified_at :: "gotime option"
  pr_linz_land_area_m2 :: "rat option"
  pr_legal_description :: string
  pr_beneficiary_id :: "string option"

record db =
  will_t :: "will_row list"
  clause_t :: "clause_row list"
  beneficiary_t :: "beneficiary_row list"
  executor_t :: "executor_row list"
  witness_t :: "witness_row list"
  audit_t :: "audit_row list"
  asset_t :: "asset_row list"
  property_t :: "property_row list"

definition empty_db :: db where
  "empty_db = \<lparr>will_t = [], clause_t = [], beneficiary_t = [], executor_t = [], witness_t = [],
     audit_t = [], asset_t = [], property_t = []\<rparr>"

section \<open>A table with a primary key\<close>

definition sql_insert :: "('r \<Rightarrow> string) \<Rightarrow> ('r \<Rightarrow> bool) \<Rightarrow> 'r \<Rightarrow> 'r list \<Rightarrow> goerror + 'r list" where
  "sql_insert key refs_ok r t =
     (if key r \<in> set (map key t) then Inl (DbError ''unique_violation'')
      else if \<not> refs_ok r then Inl (DbError ''foreign_key_violation'')
      else Inr (t @ [r]))"

definition sql_update :: "('r \<Rightarrow> string) \<Rightarrow> string \<Rightarrow> ('r \<Rightarrow> 'r) \<Rightarrow> 'r list \<Rightarrow> 'r list" where
  "sql_update key k f t = map (\<lambda>r. if key r = k then f r else r) t"

definition sql_find :: "('r \<Rightarrow> string) \<Rightarrow> string \<Rightarrow> 'r list \<Rightarrow> 'r option" where
  "sql_find key k t = find (\<lambda>r. key r = k) t"

definition sql_where :: "('r \<Rightarrow> string) \<Rightarrow> string \<Rightarrow> 'r list \<Rightarrow> 'r list" where
  "sql_where col k t = filter (\<lambda>r. col r = k) t"

text \<open>
  What the repositories rely on: a lookup sees exactly the inserts and updates of its key, and
  keys stay unique.
\<close>

locale pk_table =
  fixes key :: "'r \<Rightarrow> string"
    and ins :: "('r \<Rightarrow> bool) \<Rightarrow> 'r \<Rightarrow> 'r list \<Rightarrow> goerror + 'r list"
    and upd :: "string \<Rightarrow> ('r \<Rightarrow> 'r) \<Rightarrow> 'r list \<Rightarrow> 'r list"
    and sel :: "string \<Rightarrow> 'r list \<Rightarrow> 'r option"
  assumes ins_fresh: "ins ok r t = Inr t' \<Longrightarrow> sel (key r) t = None"
    and ins_sel: "ins ok r t = Inr t' \<Longrightarrow> sel k t' = (if k = key r then Some r else sel k t)"
    and ins_refs: "ins ok r t = Inr t' \<Longrightarrow> ok r"
    and upd_sel: "(\<And>r. key (f r) = key r) \<Longrightarrow>
      sel k (upd k' f t) = (if k = k' then map_option f (sel k t) else sel k t)"
    and sel_key: "sel k t = Some r \<Longrightarrow> key r = k"
    and sel_mem: "sel k t = Some r \<Longrightarrow> r \<in> set t"
    and sel_unique: "distinct (map key t) \<Longrightarrow> r \<in> set t \<Longrightarrow> sel (key r) t = Some r"
begin

lemma insert_then_select: "ins ok r t = Inr t' \<Longrightarrow> sel (key r) t' = Some r"
  by (simp add: ins_sel)

lemma insert_other: "ins ok r t = Inr t' \<Longrightarrow> k \<noteq> key r \<Longrightarrow> sel k t' = sel k t"
  by (simp add: ins_sel)

lemma insert_keeps: "ins ok r t = Inr t' \<Longrightarrow> sel k t = Some s \<Longrightarrow> sel k t' = Some s"
  using ins_fresh ins_sel by fastforce

lemma update_other: "(\<And>r. key (f r) = key r) \<Longrightarrow> k \<noteq> k' \<Longrightarrow> sel k (upd k' f t) = sel k t"
  by (simp add: upd_sel)

lemma update_twice:
  "(\<And>r. key (f r) = key r) \<Longrightarrow> (\<And>r. key (g r) = key r) \<Longrightarrow>
     sel k (upd k' g (upd k' f t)) = sel k (upd k' (\<lambda>r. g (f r)) t)"
  by (simp add: upd_sel option.map_comp comp_def)

end

lemma sql_find_key: "sql_find key k t = Some r \<Longrightarrow> key r = k \<and> r \<in> set t"
  by (auto simp: sql_find_def find_Some_iff)

lemma sql_find_unique: "distinct (map key t) \<Longrightarrow> r \<in> set t \<Longrightarrow> sql_find key (key r) t = Some r"
  by (induction t) (auto simp: sql_find_def rev_image_eqI)

lemma sql_find_None: "sql_find key k t = None \<longleftrightarrow> k \<notin> key ` set t"
  by (auto simp: sql_find_def find_None_iff)

lemma sql_find_append: "sql_find key k (t @ u) =
    (case sql_find key k t of None \<Rightarrow> sql_find key k u | Some r \<Rightarrow> Some r)"
  by (induction t) (auto simp: sql_find_def)

lemma sql_find_update:
  assumes "\<And>r. key (f r) = key r"
  shows "sql_find key k (sql_update key k' f t) =
    (if k = k' then map_option f (sql_find key k t) else sql_find key k t)"
  using assms by (induction t) (auto simp: sql_find_def sql_update_def)

lemma sql_insert_Inr:
  "sql_insert key ok r t = Inr t' \<longleftrightarrow> key r \<notin> key ` set t \<and> ok r \<and> t' = t @ [r]"
  by (auto simp: sql_insert_def)

lemma sql_insert_distinct:
  "sql_insert key ok r t = Inr t' \<Longrightarrow> distinct (map key t) \<Longrightarrow> distinct (map key t')"
  by (auto simp: sql_insert_Inr)

lemma sql_update_keys:
  "(\<And>r. key (f r) = key r) \<Longrightarrow> map key (sql_update key k f t) = map key t"
  by (induction t) (auto simp: sql_update_def)

lemma sql_find_insert:
  "key r \<notin> key ` set t \<Longrightarrow> sql_find key k (t @ [r]) = (if k = key r then Some r else sql_find key k t)"
  by (induction t) (auto simp: sql_find_def)

lemma pk_table_sql:
  "pk_table key (sql_insert key) (sql_update key) (sql_find key)"
  by unfold_locales
    (auto simp: sql_insert_Inr sql_find_insert sql_find_None sql_find_update sql_find_unique
      dest: sql_find_key)

interpretation will_tab: pk_table wr_id "sql_insert wr_id" "sql_update wr_id" "sql_find wr_id"
  by (rule pk_table_sql)

interpretation audit_tab: pk_table ar_id "sql_insert ar_id" "sql_update ar_id" "sql_find ar_id"
  by (rule pk_table_sql)

interpretation property_tab: pk_table pr_id "sql_insert pr_id" "sql_update pr_id" "sql_find pr_id"
  by (rule pk_table_sql)

section \<open>Statements over the database\<close>

type_synonym stmt = "db \<Rightarrow> goerror + db"

definition will_ids :: "db \<Rightarrow> string set" where
  "will_ids d = wr_id ` set (will_t d)"

definition ref_ok :: "string option \<Rightarrow> string set \<Rightarrow> bool" where
  "ref_ok r ids = (case r of None \<Rightarrow> True | Some i \<Rightarrow> i \<in> ids)"

definition INSERT_will :: "will_row \<Rightarrow> stmt" where
  "INSERT_will r d =
     (if \<not> in_int32 (wr_vault_unlock_delay_days r) then Inl (DbError ''integer out of range'')
      else map_sum id (\<lambda>t. d\<lparr>will_t := t\<rparr>)
        (sql_insert wr_id
          (\<lambda>r. ref_ok (wr_parent_will_id r) (will_ids d) \<and> ref_ok (wr_superseded_by r) (will_ids d))
          r (will_t d)))"

definition INSERT_clause :: "clause_row \<Rightarrow> stmt" where
  "INSERT_clause r d =
     (if \<not> in_int32 (cr_index r) then Inl (DbError ''integer out of range'')
      else map_sum id (\<lambda>t. d\<lparr>clause_t := t\<rparr>)
        (sql_insert cr_id (\<lambda>r. cr_will_id r \<in> will_ids d) r (clause_t d)))"

definition INSERT_beneficiary :: "beneficiary_row \<Rightarrow> stmt" where
  "INSERT_beneficiary r d = map_sum id (\<lambda>t. d\<lparr>beneficiary_t := t\<rparr>)
     (sql_insert br_id (\<lambda>r. br_will_id r \<in> will_ids d) r (beneficiary_t d))"

definition INSERT_executor :: "executor_row \<Rightarrow> stmt" where
  "INSERT_executor r d = map_sum id (\<lambda>t. d\<lparr>executor_t := t\<rparr>)
     (sql_insert er_id (\<lambda>r. er_will_id r \<in> will_ids d) r (executor_t d))"

definition INSERT_witness :: "witness_row \<Rightarrow> stmt" where
  "INSERT_witness r d = map_sum id (\<lambda>t. d\<lparr>witness_t := t\<rparr>)
     (sql_insert wsr_id (\<lambda>r. wsr_will_id r \<in> will_ids d) r (witness_t d))"

definition INSERT_audit :: "audit_row \<Rightarrow> stmt" where
  "INSERT_audit r d = map_sum id (\<lambda>t. d\<lparr>audit_t := t\<rparr>)
     (sql_insert ar_id
       (\<lambda>r. ar_will_id r \<in> will_ids d \<and> ref_ok (ar_previous_entry_id r) (ar_id ` set (audit_t d)))
       r (audit_t d))"

definition INSERT_asset :: "asset_row \<Rightarrow> stmt" where
  "INSERT_asset r d =
     (if \<not> in_int32 (dr_index r) then Inl (DbError ''integer out of range'')
      else map_sum id (\<lambda>t. d\<lparr>asset_t := t\<rparr>)
        (sql_insert dr_id
          (\<lambda>r. dr_will_id r \<in> will_ids d \<and> ref_ok (dr_beneficiary_id r) (br_id ` set (beneficiary_t d)))
          r (asset_t d)))"

definition INSERT_property :: "property_row \<Rightarrow> stmt" where
  "INSERT_property r d =
     (if \<not> in_int32 (pr_index r) then Inl (DbError ''integer out of range'')
      else map_sum id (\<lambda>t. d\<lparr>property_t := t\<rparr>)
        (sql_insert pr_id
          (\<lambda>r. pr_will_id r \<in> will_ids d \<and> ref_ok (pr_beneficiary_id r) (br_id ` set (beneficiary_t d)))
          r (property_t d)))"

text \<open>\<open>UPDATE will SET ... WHERE id = $1\<close>; a missing row is not an error.\<close>

definition upd_will :: "string \<Rightarrow> (will_row \<Rightarrow> will_row) \<Rightarrow> db \<Rightarrow> db" where
  "upd_will k f d = d\<lparr>will_t := sql_update wr_id k f (will_t d)\<rparr>"

definition find_will :: "string \<Rightarrow> db \<Rightarrow> will_row option" where
  "find_will k d = sql_find wr_id k (will_t d)"

section \<open>The environment and the round trips\<close>

text \<open>
  How a round trip can end.  \<open>Served\<close>: the statement runs.  \<open>Refused\<close>: an error and no effect.
  \<open>Lost\<close>: the statement runs on the server but the client gets an error (the acknowledgement is
  lost).  \<open>Cut n\<close>: a result set breaks off after \<open>n\<close> rows.
\<close>

datatype outcome = Served | Refused string | Lost string | Cut nat

text \<open>
  The world of the process: the database, the wall clock (successive readings of
  \<open>time.Now().UTC()\<close>), the bytes of \<open>crypto/rand\<close>, the outcomes of the round trips, and the
  function \<open>hex(SHA-256(_))\<close>.  The hash stays a parameter: what the code relies on is that it
  does not collide, which is not provable of the real function, so the theorems that need it say
  on which texts.
\<close>

record world =
  w_db :: db
  w_clock :: "nat \<Rightarrow> gotime"
  w_rand :: "nat \<Rightarrow> 8 word"
  w_outcomes :: "nat \<Rightarrow> outcome"
  w_sha256 :: "string \<Rightarrow> string"

definition time_Now :: "world \<Rightarrow> gotime \<times> world" where
  "time_Now w = (w_clock w 0, w\<lparr>w_clock := (\<lambda>n. w_clock w (Suc n))\<rparr>)"

definition rand_Read :: "nat \<Rightarrow> world \<Rightarrow> 8 word list \<times> world" where
  "rand_Read n w = (map (w_rand w) [0..<n], w\<lparr>w_rand := (\<lambda>i. w_rand w (i + n))\<rparr>)"

definition next_outcome :: "world \<Rightarrow> outcome \<times> world" where
  "next_outcome w = (w_outcomes w 0, w\<lparr>w_outcomes := (\<lambda>n. w_outcomes w (Suc n))\<rparr>)"

text \<open>\<open>pool.Exec\<close>: the error, if any, and the world after.\<close>

definition pool_Exec :: "stmt \<Rightarrow> world \<Rightarrow> goerror option \<times> world" where
  "pool_Exec st w = (case next_outcome w of (out, w) \<Rightarrow>
     (case out of
        Refused m \<Rightarrow> (Some (DbError m), w)
      | Lost m \<Rightarrow> (Some (DbError m), case st (w_db w) of Inl _ \<Rightarrow> w | Inr d \<Rightarrow> w\<lparr>w_db := d\<rparr>)
      | _ \<Rightarrow> (case st (w_db w) of Inl e \<Rightarrow> (Some e, w) | Inr d \<Rightarrow> (None, w\<lparr>w_db := d\<rparr>))))"

text \<open>\<open>pool.QueryRow(...).Scan(...)\<close>: at most one row; no row is the driver's no-rows error.\<close>

definition pool_QueryRow :: "(db \<Rightarrow> 'r option) \<Rightarrow> world \<Rightarrow> (goerror + 'r) \<times> world" where
  "pool_QueryRow q w = (case next_outcome w of (out, w) \<Rightarrow>
     (case out of
        Refused m \<Rightarrow> (Inl (DbError m), w)
      | Lost m \<Rightarrow> (Inl (DbError m), w)
      | _ \<Rightarrow> (case q (w_db w) of None \<Rightarrow> (Inl ErrNoRows, w) | Some r \<Rightarrow> (Inr r, w))))"

text \<open>
  \<open>pool.Query\<close> with the loop over \<open>rows.Next()\<close>: either the query itself fails, or the rows that
  arrived and the error that ended the loop early (\<open>rows.Err()\<close>), if any.
\<close>

definition pool_Query :: "(db \<Rightarrow> 'r list) \<Rightarrow> world \<Rightarrow> (goerror + 'r list \<times> goerror option) \<times> world" where
  "pool_Query q w = (case next_outcome w of (out, w) \<Rightarrow>
     (case out of
        Refused m \<Rightarrow> (Inl (DbError m), w)
      | Lost m \<Rightarrow> (Inl (DbError m), w)
      | Cut n \<Rightarrow> (if n < length (q (w_db w))
          then (Inr (take n (q (w_db w)), Some (DbError ''connection lost'')), w)
          else (Inr (q (w_db w), None), w))
      | Served \<Rightarrow> (Inr (q (w_db w), None), w)))"

text \<open>
  A statement inside a transaction works on the transaction's own copy of the database; any
  failure makes the caller return, and its deferred \<open>Rollback\<close> drops the copy.
\<close>

definition tx_Exec :: "stmt \<Rightarrow> db \<Rightarrow> world \<Rightarrow> (goerror + db) \<times> world" where
  "tx_Exec st d w = (case next_outcome w of (out, w) \<Rightarrow>
     (case out of
        Refused m \<Rightarrow> (Inl (DbError m), w)
      | Lost m \<Rightarrow> (Inl (DbError m), w)
      | _ \<Rightarrow> (st d, w)))"

fun tx_each :: "('a \<Rightarrow> stmt) \<Rightarrow> 'a list \<Rightarrow> db \<Rightarrow> world \<Rightarrow> (goerror + db) \<times> world" where
  "tx_each f [] d w = (Inr d, w)"
| "tx_each f (x # xs) d w =
     (case tx_Exec (f x) d w of (Inl e, w) \<Rightarrow> (Inl e, w) | (Inr d, w) \<Rightarrow> tx_each f xs d w)"

text \<open>
  \<open>pool.Begin\<close> and \<open>tx.Commit\<close>.  A refused commit applies nothing; a commit whose acknowledgement
  is lost has been applied although the caller sees an error.
\<close>

definition tx_Begin :: "world \<Rightarrow> goerror option \<times> world" where
  "tx_Begin w = (case next_outcome w of (out, w) \<Rightarrow>
     (case out of
        Refused m \<Rightarrow> (Some (DbError m), w)
      | Lost m \<Rightarrow> (Some (DbError m), w)
      | _ \<Rightarrow> (None, w)))"

definition tx_Commit :: "db \<Rightarrow> world \<Rightarrow> goerror option \<times> world" where
  "tx_Commit d w = (case next_outcome w of (out, w) \<Rightarrow>
     (case out of
        Refused m \<Rightarrow> (Some (DbError m), w)
      | Lost m \<Rightarrow> (Some (DbError m), w\<lparr>w_db := d\<rparr>)
      | _ \<Rightarrow> (None, w\<lparr>w_db := d\<rparr>)))"

section \<open>What a round trip leaves alone\<close>

lemma time_Now_frame [simp, frame]:
  "w_db (snd (time_Now w)) = w_db w" "w_sha256 (snd (time_Now w)) = w_sha256 w"
  "w_outcomes (snd (time_Now w)) = w_outcomes w"
  by (simp_all add: time_Now_def)

lemma rand_Read_frame [simp, frame]:
  "w_db (snd (rand_Read n w)) = w_db w" "w_sha256 (snd (rand_Read n w)) = w_sha256 w"
  "w_outcomes (snd (rand_Read n w)) = w_outcomes w"
  by (simp_all add: rand_Read_def)

lemma next_outcome_frame [simp, frame]:
  "w_db (snd (next_outcome w)) = w_db w" "w_sha256 (snd (next_outcome w)) = w_sha256 w"
  by (simp_all add: next_outcome_def)

lemma pool_QueryRow_frame [simp, frame]:
  "w_db (snd (pool_QueryRow q w)) = w_db w" "w_sha256 (snd (pool_QueryRow q w)) = w_sha256 w"
  by (auto simp: pool_QueryRow_def next_outcome_def split: outcome.splits option.splits)

lemma pool_Query_frame [simp, frame]:
  "w_db (snd (pool_Query q w)) = w_db w" "w_sha256 (snd (pool_Query q w)) = w_sha256 w"
  by (auto simp: pool_Query_def next_outcome_def split: outcome.splits)

lemma tx_Exec_frame [simp, frame]:
  "w_db (snd (tx_Exec st d w)) = w_db w" "w_sha256 (snd (tx_Exec st d w)) = w_sha256 w"
  by (auto simp: tx_Exec_def next_outcome_def split: outcome.splits)

lemma tx_Begin_frame [simp, frame]:
  "w_db (snd (tx_Begin w)) = w_db w" "w_sha256 (snd (tx_Begin w)) = w_sha256 w"
  by (auto simp: tx_Begin_def next_outcome_def split: outcome.splits)

lemma tx_Commit_sha [simp, frame]: "w_sha256 (snd (tx_Commit d w)) = w_sha256 w"
  by (auto simp: tx_Commit_def next_outcome_def split: outcome.splits)

lemma tx_Commit_effect:
  "tx_Commit d w = (e, w') \<Longrightarrow> (w_db w' = w_db w \<and> e \<noteq> None) \<or> w_db w' = d"
  by (auto simp: tx_Commit_def next_outcome_def split: outcome.splits)

lemma tx_Commit_None: "tx_Commit d w = (None, w') \<Longrightarrow> w_db w' = d"
  by (auto simp: tx_Commit_def next_outcome_def split: outcome.splits)

lemma pool_Exec_sha [simp, frame]: "w_sha256 (snd (pool_Exec st w)) = w_sha256 w"
  by (auto simp: pool_Exec_def next_outcome_def split: outcome.splits sum.splits)

lemma tx_each_frame [simp, frame]:
  "w_db (snd (tx_each f xs d w)) = w_db w \<and> w_sha256 (snd (tx_each f xs d w)) = w_sha256 w"
proof (induction xs arbitrary: d w)
  case (Cons x xs)
  have "w_db (snd (tx_Exec (f x) d w)) = w_db w" "w_sha256 (snd (tx_Exec (f x) d w)) = w_sha256 w"
    by simp_all
  with Cons.IH show ?case
    by (cases "tx_Exec (f x) d w") (auto split: sum.splits)
qed simp

lemma store_keeps [keeps]:
  "time_Now w = (t, w') \<Longrightarrow> w_db w' = w_db w \<and> w_sha256 w' = w_sha256 w"
  "rand_Read n w = (bs, w') \<Longrightarrow> w_db w' = w_db w \<and> w_sha256 w' = w_sha256 w"
  "pool_QueryRow q w = (row, w') \<Longrightarrow> w_db w' = w_db w \<and> w_sha256 w' = w_sha256 w"
  "pool_Query qs w = (rows, w') \<Longrightarrow> w_db w' = w_db w \<and> w_sha256 w' = w_sha256 w"
  "tx_Begin w = (e, w') \<Longrightarrow> w_db w' = w_db w \<and> w_sha256 w' = w_sha256 w"
  "tx_Exec st d w = (r, w') \<Longrightarrow> w_db w' = w_db w \<and> w_sha256 w' = w_sha256 w"
  "tx_each f xs d w = (r, w') \<Longrightarrow> w_db w' = w_db w \<and> w_sha256 w' = w_sha256 w"
  by (metis frame snd_conv)+

text \<open>The effect of \<open>pool.Exec\<close>: all of the statement or nothing, and no error means all of it.\<close>

lemma pool_Exec_effect:
  "pool_Exec st w = (e, w') \<Longrightarrow>
     (w_db w' = w_db w \<and> e \<noteq> None) \<or> st (w_db w) = Inr (w_db w')"
  by (auto simp: pool_Exec_def next_outcome_def split: outcome.splits sum.splits prod.splits)

lemma pool_Exec_keeps_sha: "pool_Exec st w = (e, w') \<Longrightarrow> w_sha256 w' = w_sha256 w"
  by (metis pool_Exec_sha snd_conv)

lemma pool_Exec_None:
  "pool_Exec st w = (None, w') \<Longrightarrow> st (w_db w) = Inr (w_db w')"
  by (auto dest: pool_Exec_effect)

lemma pool_Exec_Inl:
  "st (w_db w) = Inl e \<Longrightarrow> \<exists>e'. fst (pool_Exec st w) = Some e' \<and> w_db (snd (pool_Exec st w)) = w_db w"
  by (auto simp: pool_Exec_def next_outcome_def split: outcome.splits)

lemma pool_QueryRow_Inr: "pool_QueryRow q w = (Inr r, w') \<Longrightarrow> q (w_db w) = Some r"
  by (auto simp: pool_QueryRow_def next_outcome_def split: outcome.splits option.splits)

lemma pool_QueryRow_ErrNoRows:
  "pool_QueryRow q w = (Inl ErrNoRows, w') \<Longrightarrow> q (w_db w) = None"
  by (auto simp: pool_QueryRow_def next_outcome_def split: outcome.splits option.splits)

lemma pool_Query_Inr:
  "pool_Query q w = (Inr (rows, e), w') \<Longrightarrow>
     (\<exists>n. rows = take n (q (w_db w))) \<and> (e = None \<longrightarrow> rows = q (w_db w))"
  by (auto simp: pool_Query_def next_outcome_def split: outcome.splits if_splits
      intro: exI [of _ "length (q (w_db w))"])

end
