(* ===== verification/Will_Repo.thy ===== *)
theory Will_Repo
  imports Will_Store
begin

text \<open>
  \<open>internal/repository/will_repo.go\<close>: one definition per method of \<open>WillRepo\<close>, with its SQL text
  as a statement of \<^theory_text>\<open>Will_Store\<close>, and the laws the services rely on.  The single-row
  \<open>UPDATE\<close>s share one contract, the locale \<open>will_update\<close>.
\<close>

section \<open>Writing a draft\<close>

definition will_row_of :: "Will \<Rightarrow> will_row" where
  "will_row_of will =
     \<lparr>wr_id = Will_ID will, wr_status = status_text (Status will),
      wr_testator_flt = RealMeFLT (Testator will),
      wr_testator_full_name = FullName (Testator will),
      wr_testator_assurance_level = AssuranceLevel (Testator will),
      wr_testator_signed_at = None, wr_testator_payload_hash = None,
      wr_locked_at = None, wr_unlocked_at = None,
      wr_vault_ciphertext = VaultCiphertext will, wr_vault_nonce = VaultNonce will,
      wr_vault_alg = VaultAlg will, wr_audit_note = AuditNote will,
      wr_is_codicil = IsCodicil will, wr_parent_will_id = ParentWillID will,
      wr_superseded_by = None, wr_death_notified_at = None,
      wr_vault_unlock_delay_days = VaultUnlockDelayDays will, wr_unlock_after = None,
      wr_last_confirmed_at = None, wr_liveness_notified_at = None\<rparr>"

definition clause_row_of :: "Will \<Rightarrow> Clause \<Rightarrow> clause_row" where
  "clause_row_of will c = \<lparr>cr_id = Clause_ID c, cr_will_id = Will_ID will,
     cr_index = Clause_Index c, cr_text = Clause_Text c\<rparr>"

definition beneficiary_row_of :: "Will \<Rightarrow> Beneficiary \<Rightarrow> beneficiary_row" where
  "beneficiary_row_of will b = \<lparr>br_id = Beneficiary_ID b, br_will_id = Will_ID will,
     br_name = Beneficiary_Name b, br_email = Beneficiary_Email b, br_relation = Relation b\<rparr>"

definition executor_row_of :: "Will \<Rightarrow> Executor \<Rightarrow> executor_row" where
  "executor_row_of will e = \<lparr>er_id = Executor_ID e, er_will_id = Will_ID will,
     er_name = Executor_Name e, er_email = Executor_Email e,
     er_flt = (if FLT e \<noteq> '''' then Some (FLT e) else None)\<rparr>"

definition supersede_row :: "WillID \<Rightarrow> will_row \<Rightarrow> will_row" where
  "supersede_row newID r =
     r\<lparr>wr_status := status_text WillStatusSuperseded, wr_superseded_by := Some newID\<rparr>"

definition UPDATE_supersede :: "WillID \<Rightarrow> WillID \<Rightarrow> stmt" where
  "UPDATE_supersede newID sid d =
     (if sid \<in> will_ids d \<and> newID \<notin> will_ids d then Inl (DbError ''foreign_key_violation'')
      else Inr (upd_will sid (supersede_row newID) d))"

definition WillRepo_CreateDraft :: "Will \<Rightarrow> WillID list \<Rightarrow> world \<Rightarrow> goerror option \<times> world" where
  "WillRepo_CreateDraft will supersede w =
     (case tx_Begin w of
        (Some e, w) \<Rightarrow> (Some e, w)
      | (None, w) \<Rightarrow>
     (case tx_Exec (INSERT_will (will_row_of will)) (w_db w) w of
        (Inl e, w) \<Rightarrow> (Some e, w)
      | (Inr d, w) \<Rightarrow>
     (case tx_each (\<lambda>c. INSERT_clause (clause_row_of will c)) (Clauses will) d w of
        (Inl e, w) \<Rightarrow> (Some e, w)
      | (Inr d, w) \<Rightarrow>
     (case tx_each (\<lambda>b. INSERT_beneficiary (beneficiary_row_of will b)) (Beneficiaries will) d w of
        (Inl e, w) \<Rightarrow> (Some e, w)
      | (Inr d, w) \<Rightarrow>
     (case tx_each (\<lambda>x. INSERT_executor (executor_row_of will x)) (Executors will) d w of
        (Inl e, w) \<Rightarrow> (Some e, w)
      | (Inr d, w) \<Rightarrow>
     (case tx_each (UPDATE_supersede (Will_ID will)) supersede d w of
        (Inl e, w) \<Rightarrow> (Some e, w)
      | (Inr d, w) \<Rightarrow> tx_Commit d w))))))"

section \<open>Reading a will\<close>

definition clause_of_row :: "clause_row \<Rightarrow> Clause" where
  "clause_of_row r = \<lparr>Clause_ID = cr_id r, Clause_Text = cr_text r, Clause_Index = cr_index r\<rparr>"

definition beneficiary_of_row :: "beneficiary_row \<Rightarrow> Beneficiary" where
  "beneficiary_of_row r = \<lparr>Beneficiary_ID = br_id r, Beneficiary_Name = br_name r,
     Beneficiary_Email = br_email r, Relation = br_relation r\<rparr>"

definition executor_of_row :: "executor_row \<Rightarrow> Executor" where
  "executor_of_row r = \<lparr>Executor_ID = er_id r, Executor_Name = er_name r,
     Executor_Email = er_email r, FLT = (case er_flt r of None \<Rightarrow> '''' | Some f \<Rightarrow> f)\<rparr>"

definition signature_of_row :: "witness_row \<Rightarrow> WitnessSignature" where
  "signature_of_row r = \<lparr>Witness = \<lparr>RealMeFLT = wsr_flt r, FullName = wsr_full_name r,
       AssuranceLevel = wsr_assurance_level r, IsVerified = False\<rparr>,
     SignedAt = wsr_signed_at r, WS_PayloadHash = wsr_payload_hash r\<rparr>"

text \<open>
  The four \<open>fetch\<close> helpers share one shape: an error of the query yields a nil slice, and a break
  in the result set yields the rows that arrived, with no error either way.
\<close>

definition swallow :: "(goerror + 'r list \<times> goerror option) \<times> world \<Rightarrow> 'r list \<times> world" where
  "swallow res = (case res of (Inl _, w) \<Rightarrow> ([], w) | (Inr (rows, _), w) \<Rightarrow> (rows, w))"

definition fetchClauses :: "WillID \<Rightarrow> world \<Rightarrow> Clause list \<times> world" where
  "fetchClauses wid w = swallow (pool_Query
     (\<lambda>d. map clause_of_row (sort_key cr_index (sql_where cr_will_id wid (clause_t d)))) w)"

definition fetchBeneficiaries :: "WillID \<Rightarrow> world \<Rightarrow> Beneficiary list \<times> world" where
  "fetchBeneficiaries wid w = swallow (pool_Query
     (\<lambda>d. map beneficiary_of_row (sql_where br_will_id wid (beneficiary_t d))) w)"

definition fetchExecutors :: "WillID \<Rightarrow> world \<Rightarrow> Executor list \<times> world" where
  "fetchExecutors wid w = swallow (pool_Query
     (\<lambda>d. map executor_of_row (sql_where er_will_id wid (executor_t d))) w)"

definition fetchWitnessSignatures :: "WillID \<Rightarrow> world \<Rightarrow> WitnessSignature list \<times> world" where
  "fetchWitnessSignatures wid w = swallow (pool_Query
     (\<lambda>d. map signature_of_row (sort_key wsr_signed_at (sql_where wsr_will_id wid (witness_t d)))) w)"

definition will_of_row ::
  "will_row \<Rightarrow> Clause list \<Rightarrow> Beneficiary list \<Rightarrow> Executor list \<Rightarrow> WitnessSignature list \<Rightarrow> Will" where
  "will_of_row r cs bs es ws =
     \<lparr>Will_ID = wr_id r,
      Testator = \<lparr>RealMeFLT = wr_testator_flt r, FullName = wr_testator_full_name r,
        AssuranceLevel = wr_testator_assurance_level r, IsVerified = False\<rparr>,
      Clauses = cs,
      TestatorSignedAt = wr_testator_signed_at r,
      TestatorPayloadHash = wr_testator_payload_hash r,
      WitnessSignatures = ws, Beneficiaries = bs, Executors = es,
      DigitalAssetClauses = [], PropertyClauses = [],
      Status = status_of_text (wr_status r), LockedAt = wr_locked_at r,
      SupersededBy = wr_superseded_by r, ParentWillID = wr_parent_will_id r,
      IsCodicil = wr_is_codicil r, DeathNotifiedAt = wr_death_notified_at r,
      VaultUnlockDelayDays = wr_vault_unlock_delay_days r, UnlockAfter = wr_unlock_after r,
      UnlockedAt = wr_unlocked_at r, LastConfirmedAt = wr_last_confirmed_at r,
      LivenessNotifiedAt = wr_liveness_notified_at r,
      VaultCiphertext = wr_vault_ciphertext r, VaultNonce = wr_vault_nonce r,
      VaultAlg = wr_vault_alg r, AuditNote = wr_audit_note r\<rparr>"

definition WillRepo_GetByID :: "WillID \<Rightarrow> world \<Rightarrow> (goerror + Will) \<times> world" where
  "WillRepo_GetByID wid w =
     (case pool_QueryRow (find_will wid) w of
        (Inl e, w) \<Rightarrow> (Inl (if errors_Is e ErrNoRows then ErrWillNotFound else e), w)
      | (Inr r, w) \<Rightarrow>
          (case fetchClauses wid w of (cs, w) \<Rightarrow>
          (case fetchBeneficiaries wid w of (bs, w) \<Rightarrow>
          (case fetchExecutors wid w of (es, w) \<Rightarrow>
          (case fetchWitnessSignatures wid w of (ws, w) \<Rightarrow>
             (Inr (will_of_row r cs bs es ws), w))))))"

definition active_of :: "string \<Rightarrow> will_row \<Rightarrow> bool" where
  "active_of flt r \<longleftrightarrow> wr_testator_flt r = flt \<and>
     wr_status r \<in> {''draft'', ''locked''} \<and> \<not> wr_is_codicil r"

definition FindActiveByTestatorFLT ::
  "string \<Rightarrow> world \<Rightarrow> (WillID list \<times> goerror option) \<times> world" where
  "FindActiveByTestatorFLT flt w =
     (case pool_Query (\<lambda>d. map wr_id (filter (active_of flt) (will_t d))) w of
        (Inl e, w) \<Rightarrow> (([], Some e), w)
      | (Inr (ids, err), w) \<Rightarrow> ((ids, err), w))"

section \<open>Updating a will\<close>

definition status_row :: "WillStatus \<times> gotime option \<times> gotime option \<Rightarrow> will_row \<Rightarrow> will_row" where
  "status_row = (\<lambda>(status, lockedAt, unlockedAt) r.
     r\<lparr>wr_status := status_text status, wr_locked_at := map_option timestamptz lockedAt,
       wr_unlocked_at := map_option timestamptz unlockedAt\<rparr>)"

definition death_row :: "gotime \<times> gotime \<Rightarrow> will_row \<Rightarrow> will_row" where
  "death_row = (\<lambda>(notifiedAt, unlockAfter) r.
     r\<lparr>wr_status := status_text WillStatusDeathNotified,
       wr_death_notified_at := Some (timestamptz notifiedAt),
       wr_unlock_after := Some (timestamptz unlockAfter)\<rparr>)"

definition signed_row :: "gotime \<times> string \<Rightarrow> will_row \<Rightarrow> will_row" where
  "signed_row = (\<lambda>(signedAt, payloadHash) r.
     r\<lparr>wr_testator_signed_at := Some (timestamptz signedAt),
       wr_testator_payload_hash := Some payloadHash\<rparr>)"

definition confirmed_row :: "gotime \<Rightarrow> will_row \<Rightarrow> will_row" where
  "confirmed_row confirmedAt r = r\<lparr>wr_last_confirmed_at := Some (timestamptz confirmedAt)\<rparr>"

definition reminded_row :: "gotime \<Rightarrow> will_row \<Rightarrow> will_row" where
  "reminded_row notifiedAt r = r\<lparr>wr_liveness_notified_at := Some (timestamptz notifiedAt)\<rparr>"

definition vault_row :: "string \<times> string \<times> string \<Rightarrow> will_row \<Rightarrow> will_row" where
  "vault_row = (\<lambda>(ciphertext, nonce, alg) r.
     r\<lparr>wr_vault_ciphertext := ciphertext, wr_vault_nonce := nonce, wr_vault_alg := alg\<rparr>)"

definition WillRepo_UpdateStatus ::
  "WillID \<Rightarrow> WillStatus \<Rightarrow> gotime option \<Rightarrow> gotime option \<Rightarrow> world \<Rightarrow> goerror option \<times> world" where
  "WillRepo_UpdateStatus wid status lockedAt unlockedAt w =
     pool_Exec (\<lambda>d. Inr (upd_will wid (status_row (status, lockedAt, unlockedAt)) d)) w"

definition WillRepo_NotifyDeath ::
  "WillID \<Rightarrow> gotime \<Rightarrow> gotime \<Rightarrow> world \<Rightarrow> goerror option \<times> world" where
  "WillRepo_NotifyDeath wid notifiedAt unlockAfter w =
     pool_Exec (\<lambda>d. Inr (upd_will wid (death_row (notifiedAt, unlockAfter)) d)) w"

definition RecordTestatorSignature ::
  "WillID \<Rightarrow> string \<Rightarrow> gotime \<Rightarrow> world \<Rightarrow> goerror option \<times> world" where
  "RecordTestatorSignature wid payloadHash signedAt w =
     pool_Exec (\<lambda>d. Inr (upd_will wid (signed_row (signedAt, payloadHash)) d)) w"

definition witness_row_of ::
  "WillID \<Rightarrow> string \<Rightarrow> gotime \<Rightarrow> IdentityClaims \<Rightarrow> witness_row" where
  "witness_row_of wid payloadHash signedAt witness =
     \<lparr>wsr_id = wid @ '':witness:'' @ compact_stamp signedAt, wsr_will_id = wid,
      wsr_flt = RealMeFLT witness, wsr_full_name = FullName witness,
      wsr_assurance_level = AssuranceLevel witness,
      wsr_signed_at = timestamptz signedAt, wsr_payload_hash = payloadHash\<rparr>"

definition RecordWitnessSignature ::
  "WillID \<Rightarrow> string \<Rightarrow> gotime \<Rightarrow> IdentityClaims \<Rightarrow> world \<Rightarrow> goerror option \<times> world" where
  "RecordWitnessSignature wid payloadHash signedAt witness w =
     pool_Exec (INSERT_witness (witness_row_of wid payloadHash signedAt witness)) w"

definition RecordLivenessConfirmation :: "WillID \<Rightarrow> gotime \<Rightarrow> world \<Rightarrow> goerror option \<times> world" where
  "RecordLivenessConfirmation wid confirmedAt w =
     pool_Exec (\<lambda>d. Inr (upd_will wid (confirmed_row confirmedAt) d)) w"

definition WillRepo_RecordLivenessReminder ::
  "WillID \<Rightarrow> gotime \<Rightarrow> world \<Rightarrow> goerror option \<times> world" where
  "WillRepo_RecordLivenessReminder wid notifiedAt w =
     pool_Exec (\<lambda>d. Inr (upd_will wid (reminded_row notifiedAt) d)) w"

definition SetVault :: "WillID \<Rightarrow> string \<Rightarrow> string \<Rightarrow> string \<Rightarrow> world \<Rightarrow> goerror option \<times> world" where
  "SetVault wid ciphertext nonce alg w =
     pool_Exec (\<lambda>d. Inr (upd_will wid (vault_row (ciphertext, nonce, alg)) d)) w"

section \<open>The contract of the single-row updates\<close>

text \<open>
  Every \<open>UPDATE will ... WHERE id = $1\<close> of the repository either leaves the database alone and
  reports an error, or rewrites exactly the row of its will by its own function, which never
  touches the key; and it reports no error only in the second case.
\<close>

locale will_update =
  fixes upd_op :: "'a \<Rightarrow> WillID \<Rightarrow> world \<Rightarrow> goerror option \<times> world"
    and row_fun :: "'a \<Rightarrow> will_row \<Rightarrow> will_row"
  assumes key_kept: "wr_id (row_fun a r) = wr_id r"
    and effect: "upd_op a k w = (e, w') \<Longrightarrow>
      (w_db w' = w_db w \<and> e \<noteq> None) \<or> w_db w' = upd_will k (row_fun a) (w_db w)"
    and sha_kept: "w_sha256 (snd (upd_op a k w)) = w_sha256 w"
begin

lemma success: "upd_op a k w = (None, w') \<Longrightarrow> w_db w' = upd_will k (row_fun a) (w_db w)"
  using effect by blast

lemma other_rows:
  "upd_op a k w = (e, w') \<Longrightarrow> k' \<noteq> k \<Longrightarrow> find_will k' (w_db w') = find_will k' (w_db w)"
  using effect [of a k w e w'] by (auto simp: upd_will_def find_will_def will_tab.update_other key_kept)

lemma own_row:
  "upd_op a k w = (None, w') \<Longrightarrow>
     find_will k (w_db w') = map_option (row_fun a) (find_will k (w_db w))"
  using success [of a k w w'] by (simp add: upd_will_def find_will_def will_tab.upd_sel key_kept)

lemma other_tables:
  "upd_op a k w = (e, w') \<Longrightarrow>
     \<exists>t. w_db w' = w_db w\<lparr>will_t := t\<rparr> \<and> map wr_id t = map wr_id (will_t (w_db w))"
  using effect [of a k w e w']
  by (auto simp: upd_will_def sql_update_keys key_kept
      intro: exI [of _ "will_t (w_db w)"])

lemma same_wills: "upd_op a k w = (e, w') \<Longrightarrow> will_ids (w_db w') = will_ids (w_db w)"
  using other_tables [of a k w e w'] by (auto simp: will_ids_def simp flip: set_map)

end

lemma will_update_pool_Exec:
  assumes "\<And>a r. wr_id (f a r) = wr_id r"
    and "\<And>a k w. op a k w = pool_Exec (\<lambda>d. Inr (upd_will k (f a) d)) w"
  shows "will_update op f"
  using assms by unfold_locales (auto dest: pool_Exec_effect)

interpretation status_upd: will_update
  "\<lambda>(s, l, u) k. WillRepo_UpdateStatus k s l u" status_row
  by (rule will_update_pool_Exec) (auto simp: WillRepo_UpdateStatus_def status_row_def)

interpretation death_upd: will_update
  "\<lambda>(n, u) k. WillRepo_NotifyDeath k n u" death_row
  by (rule will_update_pool_Exec) (auto simp: WillRepo_NotifyDeath_def death_row_def)

interpretation signed_upd: will_update
  "\<lambda>(t, h) k. RecordTestatorSignature k h t" signed_row
  by (rule will_update_pool_Exec) (auto simp: RecordTestatorSignature_def signed_row_def)

interpretation confirmed_upd: will_update
  "\<lambda>t k. RecordLivenessConfirmation k t" confirmed_row
  by (rule will_update_pool_Exec) (auto simp: RecordLivenessConfirmation_def confirmed_row_def)

interpretation reminded_upd: will_update
  "\<lambda>t k. WillRepo_RecordLivenessReminder k t" reminded_row
  by (rule will_update_pool_Exec) (auto simp: WillRepo_RecordLivenessReminder_def reminded_row_def)

interpretation vault_upd: will_update
  "\<lambda>(c, n, a) k. SetVault k c n a" vault_row
  by (rule will_update_pool_Exec) (auto simp: SetVault_def vault_row_def)

section \<open>What a read returns\<close>

lemma swallow_frame [frame]:
  "w_db (snd (swallow (pool_Query q w))) = w_db w"
  "w_sha256 (snd (swallow (pool_Query q w))) = w_sha256 w"
  by (auto simp: swallow_def dest: keeps split: prod.splits sum.splits)

lemma swallow_prefix: "\<exists>n. fst (swallow (pool_Query q w)) = take n (q (w_db w))"
  by (cases "pool_Query q w")
    (auto simp: swallow_def dest: pool_Query_Inr intro: exI [of _ 0] split: sum.splits)

lemmas fetch_defs = fetchClauses_def fetchBeneficiaries_def fetchExecutors_def
  fetchWitnessSignatures_def

lemma fetch_frame [simp, frame]:
  "w_db (snd (fetchClauses k w)) = w_db w" "w_sha256 (snd (fetchClauses k w)) = w_sha256 w"
  "w_db (snd (fetchBeneficiaries k w)) = w_db w" "w_sha256 (snd (fetchBeneficiaries k w)) = w_sha256 w"
  "w_db (snd (fetchExecutors k w)) = w_db w" "w_sha256 (snd (fetchExecutors k w)) = w_sha256 w"
  "w_db (snd (fetchWitnessSignatures k w)) = w_db w"
  "w_sha256 (snd (fetchWitnessSignatures k w)) = w_sha256 w"
  by (simp_all add: fetch_defs swallow_frame)

text \<open>The witness signatures of a will as the table holds them, in the order they are read.\<close>

definition signatures_of :: "WillID \<Rightarrow> db \<Rightarrow> WitnessSignature list" where
  "signatures_of k d = map signature_of_row (sort_key wsr_signed_at (sql_where wsr_will_id k (witness_t d)))"

definition executors_of :: "WillID \<Rightarrow> db \<Rightarrow> Executor list" where
  "executors_of k d = map executor_of_row (sql_where er_will_id k (executor_t d))"

lemma fetchWitnessSignatures_prefix:
  "\<exists>n. fst (fetchWitnessSignatures k w) = take n (signatures_of k (w_db w))"
  unfolding fetchWitnessSignatures_def signatures_of_def by (rule swallow_prefix)

lemma fetchExecutors_prefix: "\<exists>n. fst (fetchExecutors k w) = take n (executors_of k (w_db w))"
  unfolding fetchExecutors_def executors_of_def by (rule swallow_prefix)

lemma length_signatures_of:
  "length (signatures_of k d) = length (filter (\<lambda>s. wsr_will_id s = k) (witness_t d))"
  by (simp add: signatures_of_def sql_where_def)

text \<open>
  A will the repository returns is the row of its key, with a prefix of the signatures and of the
  executors of that key.
\<close>

lemma GetByID_Inr:
  assumes "WillRepo_GetByID k w = (Inr will, w')"
  obtains r cs bs es ws m n where "find_will k (w_db w) = Some r" "wr_id r = k"
    "will = will_of_row r cs bs es ws"
    "es = take m (executors_of k (w_db w))" "ws = take n (signatures_of k (w_db w))"
proof -
  from assms obtain r w1 where r: "pool_QueryRow (find_will k) w = (Inr r, w1)"
    by (auto simp: WillRepo_GetByID_def split: prod.splits sum.splits)
  then have found: "find_will k (w_db w) = Some r" by (rule pool_QueryRow_Inr)
  have db1: "w_db w1 = w_db w" using pool_QueryRow_frame [of "find_will k" w] by (simp add: r)
  obtain cs w2 where c: "fetchClauses k w1 = (cs, w2)" by fastforce
  obtain bs w3 where b: "fetchBeneficiaries k w2 = (bs, w3)" by fastforce
  obtain es w4 where e: "fetchExecutors k w3 = (es, w4)" by fastforce
  obtain ws w5 where s: "fetchWitnessSignatures k w4 = (ws, w5)" by fastforce
  have "w_db w3 = w_db w" "w_db w4 = w_db w"
    using fetch_frame(1) [of k w1] fetch_frame(3) [of k w2] fetch_frame(5) [of k w3]
    by (simp_all add: c b e db1)
  with fetchExecutors_prefix [of k w3] fetchWitnessSignatures_prefix [of k w4]
  obtain m n where "es = take m (executors_of k (w_db w))" "ws = take n (signatures_of k (w_db w))"
    by (auto simp: e s)
  moreover have "will = will_of_row r cs bs es ws"
    using assms by (simp add: WillRepo_GetByID_def r c b e s)
  ultimately show thesis
    using that found will_tab.sel_key [OF found [unfolded find_will_def]] by blast
qed

lemma GetByID_frame [simp, frame]:
  "w_db (snd (WillRepo_GetByID k w)) = w_db w" "w_sha256 (snd (WillRepo_GetByID k w)) = w_sha256 w"
proof -
  obtain res w1 where q: "pool_QueryRow (find_will k) w = (res, w1)" by fastforce
  have w1: "w_db w1 = w_db w" "w_sha256 w1 = w_sha256 w"
    using pool_QueryRow_frame [of "find_will k" w] by (simp_all add: q)
  obtain cs w2 where c: "fetchClauses k w1 = (cs, w2)" by fastforce
  obtain bs w3 where b: "fetchBeneficiaries k w2 = (bs, w3)" by fastforce
  obtain es w4 where e: "fetchExecutors k w3 = (es, w4)" by fastforce
  obtain ws w5 where s: "fetchWitnessSignatures k w4 = (ws, w5)" by fastforce
  note fr = fetch_frame [of k w1] fetch_frame [of k w2] fetch_frame [of k w3] fetch_frame [of k w4]
  show "w_db (snd (WillRepo_GetByID k w)) = w_db w"
    "w_sha256 (snd (WillRepo_GetByID k w)) = w_sha256 w"
    using fr w1 by (auto simp: WillRepo_GetByID_def q c b e s split: sum.splits)
qed

lemma FindActive_frame [simp, frame]:
  "w_db (snd (FindActiveByTestatorFLT flt w)) = w_db w"
  "w_sha256 (snd (FindActiveByTestatorFLT flt w)) = w_sha256 w"
  by (auto simp: FindActiveByTestatorFLT_def dest: keeps split: prod.splits sum.splits)

lemma FindActive_None:
  "FindActiveByTestatorFLT flt w = ((ids, None), w') \<Longrightarrow>
     ids = map wr_id (filter (active_of flt) (will_t (w_db w)))"
  by (auto simp: FindActiveByTestatorFLT_def split: prod.splits sum.splits dest: pool_Query_Inr)

section \<open>The draft transaction is all or nothing\<close>

fun exec_all :: "stmt list \<Rightarrow> stmt" where
  "exec_all [] d = Inr d"
| "exec_all (st # sts) d = (case st d of Inl e \<Rightarrow> Inl e | Inr d \<Rightarrow> exec_all sts d)"

definition draft_stmts :: "Will \<Rightarrow> WillID list \<Rightarrow> stmt list" where
  "draft_stmts will supersede =
     INSERT_will (will_row_of will) #
     map (\<lambda>c. INSERT_clause (clause_row_of will c)) (Clauses will) @
     map (\<lambda>b. INSERT_beneficiary (beneficiary_row_of will b)) (Beneficiaries will) @
     map (\<lambda>x. INSERT_executor (executor_row_of will x)) (Executors will) @
     map (UPDATE_supersede (Will_ID will)) supersede"

lemma exec_all_append:
  "exec_all (xs @ ys) d = (case exec_all xs d of Inl e \<Rightarrow> Inl e | Inr d \<Rightarrow> exec_all ys d)"
  by (induction xs arbitrary: d) (auto split: sum.splits)

lemma tx_Exec_Inr: "tx_Exec st d w = (Inr d', w') \<Longrightarrow> st d = Inr d'"
  by (auto simp: tx_Exec_def next_outcome_def split: outcome.splits)

lemma tx_each_Inr: "tx_each f xs d w = (Inr d', w') \<Longrightarrow> exec_all (map f xs) d = Inr d'"
proof (induction xs arbitrary: d w)
  case (Cons x xs)
  from Cons.prems obtain d1 w1 where "tx_Exec (f x) d w = (Inr d1, w1)" "tx_each f xs d1 w1 = (Inr d', w')"
    by (auto split: prod.splits sum.splits)
  with Cons.IH tx_Exec_Inr show ?case by fastforce
qed simp

lemma tx_each_result:
  "tx_each f xs d w = (res, w') \<Longrightarrow>
     w_db w' = w_db w \<and> (\<forall>d'. res = Inr d' \<longrightarrow> exec_all (map f xs) d = Inr d')"
  by (metis snd_conv tx_each_Inr tx_each_frame)

lemma CreateDraft_effect:
  assumes "WillRepo_CreateDraft will supersede w = (e, w')"
  shows "(w_db w' = w_db w \<and> e \<noteq> None) \<or> exec_all (draft_stmts will supersede) (w_db w) = Inr (w_db w')"
proof -
  obtain b w1 where 1: "tx_Begin w = (b, w1)" by fastforce
  obtain r2 w2 where 2: "tx_Exec (INSERT_will (will_row_of will)) (w_db w1) w1 = (r2, w2)" by fastforce
  have db: "w_db w1 = w_db w" "w_db w2 = w_db w" using 1 2 by (metis tx_Begin_frame(1) tx_Exec_frame(1) snd_conv)+
  have ins: "INSERT_will (will_row_of will) (w_db w) = Inr d" if "r2 = Inr d" for d
    using tx_Exec_Inr 2 that db(1) by metis
  show ?thesis
    using assms db unfolding WillRepo_CreateDraft_def 1 prod.case 2
    by (auto simp: draft_stmts_def exec_all_append ins split: prod.splits sum.splits option.splits
        dest!: tx_each_result dest: tx_Commit_effect)
qed

end
