(* ===== verification/Audit_Log.thy ===== *)
theory Audit_Log
  imports Will_Repo
begin

text \<open>
  The hash-chained audit log: \<open>internal/repository/audit_repo.go\<close> and
  \<open>internal/services/audit.go\<close>.  An entry is written with an identifier hashed from the previous
  identifier, the instant, the event, the will and the actor; \<open>VerifyChain\<close> hashes every stored
  entry again.  The lemmas say what an entry's hashed text determines, what appending does to the
  log, and what verification can and cannot see.
\<close>

section \<open>The repository\<close>

definition audit_row_of :: "AuditEntry \<Rightarrow> audit_row" where
  "audit_row_of e =
     \<lparr>ar_id = Entry_ID e, ar_will_id = Entry_WillID e,
      ar_previous_entry_id = (if PreviousEntryID e \<noteq> '''' then Some (PreviousEntryID e) else None),
      ar_event = event_text (Event e), ar_actor_flt = ActorFLT e,
      ar_payload_hash = PayloadHash e, ar_created_at = timestamptz (CreatedAt e)\<rparr>"

definition entry_of_row :: "audit_row \<Rightarrow> AuditEntry" where
  "entry_of_row r =
     \<lparr>Entry_ID = ar_id r, Entry_WillID = ar_will_id r,
      PreviousEntryID = (case ar_previous_entry_id r of None \<Rightarrow> '''' | Some p \<Rightarrow> p),
      Event = event_of_text (ar_event r), ActorFLT = ar_actor_flt r,
      PayloadHash = ar_payload_hash r, CreatedAt = ar_created_at r\<rparr>"

definition AuditRepo_Insert :: "AuditEntry \<Rightarrow> world \<Rightarrow> goerror option \<times> world" where
  "AuditRepo_Insert e w = pool_Exec (INSERT_audit (audit_row_of e)) w"

text \<open>\<open>isNoRows\<close> recognises the driver's error by its text.\<close>

definition isNoRows :: "goerror \<Rightarrow> bool" where
  "isNoRows e \<longleftrightarrow> error_text e = ''no rows in result set''"

text \<open>\<open>ORDER BY created_at\<close>, and the last row of that order.\<close>

definition audit_rows :: "WillID \<Rightarrow> db \<Rightarrow> audit_row list" where
  "audit_rows wid d = sort_key ar_created_at (sql_where ar_will_id wid (audit_t d))"

definition latest_id :: "WillID \<Rightarrow> db \<Rightarrow> string option" where
  "latest_id wid d = (case audit_rows wid d of [] \<Rightarrow> None | rs \<Rightarrow> Some (ar_id (last rs)))"

definition GetLatestEntryID :: "WillID \<Rightarrow> world \<Rightarrow> (goerror + string) \<times> world" where
  "GetLatestEntryID willID w =
     (case pool_QueryRow (latest_id willID) w of
        (Inl e, w) \<Rightarrow> (Inl (if isNoRows e then ErrNoAuditEntries else e), w)
      | (Inr i, w) \<Rightarrow> (Inr i, w))"

definition AuditRepo_GetByWillID ::
  "WillID \<Rightarrow> world \<Rightarrow> (AuditEntry list \<times> goerror option) \<times> world" where
  "AuditRepo_GetByWillID willID w =
     (case pool_Query (\<lambda>d. map entry_of_row (audit_rows willID d)) w of
        (Inl e, w) \<Rightarrow> (([], Some e), w)
      | (Inr (entries, err), w) \<Rightarrow> ((entries, err), w))"

fun verify_entries ::
  "(string \<Rightarrow> AuditEntry \<Rightarrow> string) \<Rightarrow> AuditEntry list \<Rightarrow> goerror option" where
  "verify_entries deriveID [] = None"
| "verify_entries deriveID (e # es) =
     (if deriveID (PreviousEntryID e) e \<noteq> Entry_ID e
      then Some (Errorf (''audit chain broken at entry '' @ Entry_ID e))
      else verify_entries deriveID es)"

definition AuditRepo_VerifyChain ::
  "WillID \<Rightarrow> (string \<Rightarrow> AuditEntry \<Rightarrow> string) \<Rightarrow> world \<Rightarrow> goerror option \<times> world" where
  "AuditRepo_VerifyChain willID deriveID w =
     (case AuditRepo_GetByWillID willID w of
        ((_, Some e), w) \<Rightarrow> (Some e, w)
      | ((entries, None), w) \<Rightarrow> (verify_entries deriveID entries, w))"

definition AuditEntryForTime ::
  "WillID \<Rightarrow> string \<Rightarrow> AuditEvent \<Rightarrow> string \<Rightarrow> string \<Rightarrow> gotime \<Rightarrow> AuditEntry" where
  "AuditEntryForTime willID prevID event actorFLT payloadHash created =
     \<lparr>Entry_ID = '''', Entry_WillID = willID, PreviousEntryID = prevID, Event = event,
      ActorFLT = actorFLT, PayloadHash = payloadHash, CreatedAt = created\<rparr>"

section \<open>The service\<close>

definition entry_text :: "string \<Rightarrow> gotime \<Rightarrow> AuditEvent \<Rightarrow> WillID \<Rightarrow> string \<Rightarrow> string" where
  "entry_text prevID created event willID actorFLT =
     strings_Join [prevID, RFC3339Nano created, event_text event, willID, actorFLT] ''|''"

definition deriveEntryID ::
  "(string \<Rightarrow> string) \<Rightarrow> string \<Rightarrow> gotime \<Rightarrow> AuditEvent \<Rightarrow> WillID \<Rightarrow> string \<Rightarrow> string" where
  "deriveEntryID sha256 prevID created event willID actorFLT =
     sha256 (entry_text prevID created event willID actorFLT)"

definition AuditService_record ::
  "WillID \<Rightarrow> AuditEvent \<Rightarrow> string \<Rightarrow> string \<Rightarrow> gotime \<Rightarrow> world \<Rightarrow> goerror option \<times> world" where
  "AuditService_record willID event actorFLT payloadHash created w =
     (let append = (\<lambda>prevID w.
        let entry = AuditEntryForTime willID prevID event actorFLT payloadHash created;
            entry = entry\<lparr>Entry_ID :=
              deriveEntryID (w_sha256 w) prevID created event willID actorFLT\<rparr>
        in AuditRepo_Insert entry w)
      in case GetLatestEntryID willID w of
           (Inl e, w) \<Rightarrow> if \<not> errors_Is e ErrNoAuditEntries then (Some e, w) else append '''' w
         | (Inr prevID, w) \<Rightarrow> append prevID w)"

text \<open>\<open>Record\<close> logs an error and drops it.\<close>

definition AuditService_Record ::
  "WillID \<Rightarrow> AuditEvent \<Rightarrow> string \<Rightarrow> string \<Rightarrow> world \<Rightarrow> world" where
  "AuditService_Record willID event actorFLT payloadHash w =
     (case time_Now w of (now, w) \<Rightarrow>
        snd (AuditService_record willID event actorFLT payloadHash now w))"

definition AuditService_GetByWillID ::
  "WillID \<Rightarrow> world \<Rightarrow> (AuditEntry list \<times> goerror option) \<times> world" where
  "AuditService_GetByWillID willID w = AuditRepo_GetByWillID willID w"

definition derive_entry :: "(string \<Rightarrow> string) \<Rightarrow> string \<Rightarrow> AuditEntry \<Rightarrow> string" where
  "derive_entry sha256 prevID e =
     deriveEntryID sha256 prevID (CreatedAt e) (Event e) (Entry_WillID e) (ActorFLT e)"

definition AuditService_VerifyChain :: "WillID \<Rightarrow> world \<Rightarrow> goerror option \<times> world" where
  "AuditService_VerifyChain willID w =
     AuditRepo_VerifyChain willID (derive_entry (w_sha256 w)) w"

section \<open>What the hashed text determines\<close>

lemma split_at_bar:
  "c \<notin> set a \<Longrightarrow> c \<notin> set b \<Longrightarrow> a @ c # x = b @ c # y \<longleftrightarrow> a = b \<and> x = y"
proof (induction a arbitrary: b)
  case Nil
  then show ?case by (cases b) auto
next
  case (Cons p a)
  then show ?case by (cases b) auto
qed

text \<open>A timestamp text has no separator, so the joined text splits back into its fields.\<close>

lemma dec_digit_no_bar: "n < 10 \<Longrightarrow> dec_digit n \<noteq> CHR ''|''"
  by (auto simp: dec_digit_def char_of_eq_iff take_bit_eq_mod)

lemma pad_dec_no_bar: "CHR ''|'' \<notin> set (pad_dec w n)"
proof (induction w arbitrary: n)
  case (Suc w)
  have "nat (n mod 10) < 10" by (simp add: nat_less_iff)
  from dec_digit_no_bar [OF this] Suc show ?case by auto
qed simp

lemma dec_pos_no_bar: "CHR ''|'' \<notin> set (dec_pos n)"
proof (induction n rule: dec_pos.induct)
  case (1 n)
  have small: "n < 10 \<Longrightarrow> dec_digit (nat n) \<noteq> CHR ''|''"
    by (rule dec_digit_no_bar) linarith
  have "dec_digit (nat (n mod 10)) \<noteq> CHR ''|''"
    by (rule dec_digit_no_bar) (simp add: nat_less_iff)
  with 1 small show ?case by (subst dec_pos.simps) auto
qed

lemma strip_zeros_set: "set (strip_zeros s) \<subseteq> set s"
  by (auto simp: strip_zeros_def dest: set_dropWhileD)

lemma RFC3339Nano_no_bar: "CHR ''|'' \<notin> set (RFC3339Nano t)"
proof -
  have "CHR ''|'' \<notin> set (year_text y)" for y
    using pad_dec_no_bar dec_pos_no_bar by (auto simp: year_text_def Let_def)
  moreover have "CHR ''|'' \<notin> set (frac_text n)" for n
    using strip_zeros_set [of "pad_dec 9 n"] pad_dec_no_bar [of 9 n] by (auto simp: frac_text_def)
  ultimately show ?thesis
    by (auto simp: RFC3339Nano_def pad_dec_no_bar split: prod.splits)
qed

lemma entry_text_inj:
  assumes "CHR ''|'' \<notin> set p" "CHR ''|'' \<notin> set p'" "known_event ev" "known_event ev'"
    and "CHR ''|'' \<notin> set k" "CHR ''|'' \<notin> set k'" "four_digit_year t" "four_digit_year t'"
  shows "entry_text p t ev k a = entry_text p' t' ev' k' a' \<longleftrightarrow>
    p = p' \<and> t = t' \<and> ev = ev' \<and> k = k' \<and> a = a'"
  using assms
  by (simp add: entry_text_def split_at_bar RFC3339Nano_no_bar event_text_no_bar
      RFC3339Nano_inj event_codec.enc_eq_iff)

section \<open>What verification sees\<close>

lemma verify_entries_None:
  "verify_entries f es = None \<longleftrightarrow> (\<forall>e \<in> set es. f (PreviousEntryID e) e = Entry_ID e)"
  by (induction es) auto

lemma GetByWillID_served:
  assumes "w_outcomes w 0 = Served"
  shows "fst (AuditRepo_GetByWillID k w) = (map entry_of_row (audit_rows k (w_db w)), None)"
  using assms by (simp add: AuditRepo_GetByWillID_def pool_Query_def next_outcome_def)

lemma VerifyChain_served:
  assumes "w_outcomes w 0 = Served"
  shows "fst (AuditService_VerifyChain k w) =
    verify_entries (derive_entry (w_sha256 w)) (map entry_of_row (audit_rows k (w_db w)))"
  using GetByWillID_served [OF assms, of k]
  by (cases "AuditRepo_GetByWillID k w")
    (simp add: AuditService_VerifyChain_def AuditRepo_VerifyChain_def)

text \<open>The rows whose identifier is the hash of their own text.\<close>

definition sealed :: "(string \<Rightarrow> string) \<Rightarrow> audit_row \<Rightarrow> bool" where
  "sealed sha r \<longleftrightarrow> (let e = entry_of_row r in derive_entry sha (PreviousEntryID e) e = Entry_ID e)"

lemma VerifyChain_iff:
  assumes "w_outcomes w 0 = Served"
  shows "fst (AuditService_VerifyChain k w) = None \<longleftrightarrow>
    (\<forall>r \<in> set (audit_t (w_db w)). ar_will_id r = k \<longrightarrow> sealed (w_sha256 w) r)"
  by (auto simp: VerifyChain_served [OF assms] verify_entries_None audit_rows_def sql_where_def
      sealed_def Let_def)

section \<open>What recording does\<close>

lemma GetLatestEntryID_keeps [keeps]:
  "GetLatestEntryID k w = (r, w') \<Longrightarrow> w_db w' = w_db w \<and> w_sha256 w' = w_sha256 w"
  by (auto simp: GetLatestEntryID_def dest: keeps split: prod.splits sum.splits)

definition new_audit_row ::
  "(string \<Rightarrow> string) \<Rightarrow> WillID \<Rightarrow> string \<Rightarrow> AuditEvent \<Rightarrow> string \<Rightarrow> string \<Rightarrow> gotime \<Rightarrow> audit_row" where
  "new_audit_row sha k prev ev actor payload created =
     audit_row_of ((AuditEntryForTime k prev ev actor payload created)
       \<lparr>Entry_ID := deriveEntryID sha prev created ev k actor\<rparr>)"

lemma record_unfold:
  "AuditService_record k ev actor payload t w =
     (case GetLatestEntryID k w of
        (Inl e, w) \<Rightarrow> if e \<noteq> ErrNoAuditEntries \<and> \<not> errors_Is e ErrNoAuditEntries then (Some e, w)
          else pool_Exec (INSERT_audit (new_audit_row (w_sha256 w) k '''' ev actor payload t)) w
      | (Inr p, w) \<Rightarrow>
          pool_Exec (INSERT_audit (new_audit_row (w_sha256 w) k p ev actor payload t)) w)"
  by (auto simp: AuditService_record_def AuditRepo_Insert_def new_audit_row_def Let_def
      split: prod.splits sum.splits)

text \<open>Whatever the environment does, recording leaves the tables alone or appends one audit row.\<close>

lemma INSERT_audit_Inr:
  "INSERT_audit r d = Inr d' \<Longrightarrow>
     d' = d\<lparr>audit_t := audit_t d @ [r]\<rparr> \<and> ar_id r \<notin> ar_id ` set (audit_t d) \<and> ar_will_id r \<in> will_ids d"
  by (auto simp: INSERT_audit_def map_sum_def sql_insert_Inr split: sum.splits)

lemma record_effect:
  assumes "AuditService_record k ev actor payload t w = (e, w')"
  shows "w_db w' = w_db w \<or> (\<exists>p. INSERT_audit (new_audit_row (w_sha256 w) k p ev actor payload t)
      (w_db w) = Inr (w_db w'))"
    and "w_sha256 w' = w_sha256 w"
proof -
  obtain res w1 where g: "GetLatestEntryID k w = (res, w1)" by fastforce
  have keep: "w_db w1 = w_db w" "w_sha256 w1 = w_sha256 w" using GetLatestEntryID_keeps [OF g] by simp_all
  have ex: "(w_db w' = w_db w \<or> (\<exists>p. INSERT_audit (new_audit_row (w_sha256 w) k p ev actor payload t)
      (w_db w) = Inr (w_db w'))) \<and> w_sha256 w' = w_sha256 w"
    if "pool_Exec (INSERT_audit (new_audit_row (w_sha256 w1) k p ev actor payload t)) w1 = (e, w')" for p
    using pool_Exec_effect [OF that] pool_Exec_keeps_sha [OF that] by (auto simp: keep)
  show "w_db w' = w_db w \<or> (\<exists>p. INSERT_audit (new_audit_row (w_sha256 w) k p ev actor payload t)
      (w_db w) = Inr (w_db w'))" "w_sha256 w' = w_sha256 w"
    using assms ex keep by (auto simp: record_unfold g split: sum.splits if_splits)
qed

lemma new_audit_row_simps [simp]:
  "ar_will_id (new_audit_row sha k p ev a h t) = k"
  "ar_event (new_audit_row sha k p ev a h t) = event_text ev"
  "ar_actor_flt (new_audit_row sha k p ev a h t) = a"
  "ar_payload_hash (new_audit_row sha k p ev a h t) = h"
  "ar_created_at (new_audit_row sha k p ev a h t) = timestamptz t"
  "ar_id (new_audit_row sha k p ev a h t) = deriveEntryID sha p t ev k a"
  by (simp_all add: new_audit_row_def audit_row_of_def AuditEntryForTime_def)

text \<open>
  Every service writes its audit entry through \<open>Record\<close>; what they rely on is that the entry can
  only ever touch the log, and there only add one row that says what was recorded.
\<close>

locale audit_sink =
  fixes rec :: "WillID \<Rightarrow> AuditEvent \<Rightarrow> string \<Rightarrow> string \<Rightarrow> world \<Rightarrow> world"
  assumes one_entry: "w_db (rec k ev a p w) = w_db w \<or>
      (\<exists>r. INSERT_audit r (w_db w) = Inr (w_db (rec k ev a p w)) \<and> ar_will_id r = k \<and>
         ar_event r = event_text ev \<and> ar_actor_flt r = a \<and> ar_payload_hash r = p)"
    and sha_same: "w_sha256 (rec k ev a p w) = w_sha256 w"
begin

lemma only_log: "\<exists>rows. w_db (rec k ev a p w) = w_db w\<lparr>audit_t := audit_t (w_db w) @ rows\<rparr>"
  using one_entry [of k ev a p w] by (auto dest!: INSERT_audit_Inr intro: exI [of _ "[]"])

lemma tables_same:
  "will_t (w_db (rec k ev a p w)) = will_t (w_db w)"
  "clause_t (w_db (rec k ev a p w)) = clause_t (w_db w)"
  "beneficiary_t (w_db (rec k ev a p w)) = beneficiary_t (w_db w)"
  "executor_t (w_db (rec k ev a p w)) = executor_t (w_db w)"
  "witness_t (w_db (rec k ev a p w)) = witness_t (w_db w)"
  "asset_t (w_db (rec k ev a p w)) = asset_t (w_db w)"
  "property_t (w_db (rec k ev a p w)) = property_t (w_db w)"
  using only_log [of k ev a p w] by auto

lemma log_grows: "\<exists>rows. audit_t (w_db (rec k ev a p w)) = audit_t (w_db w) @ rows"
  using only_log [of k ev a p w] by auto

lemma find_same: "find_will i (w_db (rec k ev a p w)) = find_will i (w_db w)"
  by (simp add: find_will_def tables_same)

end

interpretation audit_svc: audit_sink AuditService_Record
proof
  fix k ev a p w
  obtain t w1 where n: "time_Now w = (t, w1)" by fastforce
  then have keep: "w_db w1 = w_db w" "w_sha256 w1 = w_sha256 w" by (auto dest: keeps)
  obtain e w2 where r: "AuditService_record k ev a p t w1 = (e, w2)" by fastforce
  have res: "AuditService_Record k ev a p w = w2"
    by (simp add: AuditService_Record_def n r)
  from record_effect (1) [OF r] keep
  show "w_db (AuditService_Record k ev a p w) = w_db w \<or>
      (\<exists>r. INSERT_audit r (w_db w) = Inr (w_db (AuditService_Record k ev a p w)) \<and> ar_will_id r = k \<and>
         ar_event r = event_text ev \<and> ar_actor_flt r = a \<and> ar_payload_hash r = p)"
    unfolding res by fastforce
  show "w_sha256 (AuditService_Record k ev a p w) = w_sha256 w"
    unfolding res using record_effect (2) [OF r] keep by simp
qed

end
