(* ===== verification/Asset_Repo.thy ===== *)
theory Asset_Repo
  imports Will_Repo
begin

text \<open>
  \<open>internal/repository/digital_asset_repo.go\<close>: the clauses on digital assets and on land.  The
  lemmas are the round trip of each table: what was inserted is what is read, up to the values the
  columns cannot tell apart from \<open>NULL\<close>.
\<close>

section \<open>Digital asset clauses\<close>

definition nullable :: "string \<Rightarrow> string option" where
  "nullable s = (if s \<noteq> '''' then Some s else None)"

definition coalesce :: "'a \<Rightarrow> 'a option \<Rightarrow> 'a" where
  "coalesce z v = (case v of None \<Rightarrow> z | Some x \<Rightarrow> x)"

definition asset_row_of :: "DigitalAssetClause \<Rightarrow> asset_row" where
  "asset_row_of c = \<lparr>dr_id = DA_ID c, dr_will_id = DA_WillID c, dr_index = DA_ClauseIndex c,
     dr_asset_type = asset_text (AssetType c), dr_platform = Platform c,
     dr_identifier = DA_Identifier c, dr_instruction = Instruction c,
     dr_beneficiary_id = nullable (DA_BeneficiaryID c)\<rparr>"

definition asset_of_row :: "asset_row \<Rightarrow> DigitalAssetClause" where
  "asset_of_row r = \<lparr>DA_ID = dr_id r, DA_WillID = dr_will_id r, DA_ClauseIndex = dr_index r,
     AssetType = asset_of_text (dr_asset_type r), Platform = dr_platform r,
     DA_Identifier = dr_identifier r, Instruction = dr_instruction r,
     DA_BeneficiaryID = coalesce '''' (dr_beneficiary_id r)\<rparr>"

definition InsertDigitalAsset :: "DigitalAssetClause \<Rightarrow> world \<Rightarrow> goerror option \<times> world" where
  "InsertDigitalAsset c w = pool_Exec (INSERT_asset (asset_row_of c)) w"

definition assets_of :: "WillID \<Rightarrow> db \<Rightarrow> DigitalAssetClause list" where
  "assets_of willID d = map asset_of_row (sort_key dr_index (sql_where dr_will_id willID (asset_t d)))"

definition GetDigitalAssetsByWillID ::
  "WillID \<Rightarrow> world \<Rightarrow> (DigitalAssetClause list \<times> goerror option) \<times> world" where
  "GetDigitalAssetsByWillID willID w =
     (case pool_Query (assets_of willID) w of
        (Inl e, w) \<Rightarrow> (([], Some e), w)
      | (Inr (out, err), w) \<Rightarrow> ((out, err), w))"

section \<open>Property clauses\<close>

definition nullableFloat :: "rat \<Rightarrow> rat option" where
  "nullableFloat f = (if f = 0 then None else Some f)"

definition property_row_of :: "PropertyClause \<Rightarrow> property_row" where
  "property_row_of c = \<lparr>pr_id = PC_ID c, pr_will_id = PC_WillID c, pr_index = PC_ClauseIndex c,
     pr_title_reference = TitleReference c,
     pr_linz_verified_at = map_option timestamptz (LINZVerifiedAt c),
     pr_linz_land_area_m2 = nullableFloat (LINZLandAreaM2 c),
     pr_legal_description = LegalDescription c,
     pr_beneficiary_id = nullable (PC_BeneficiaryID c)\<rparr>"

definition property_of_row :: "property_row \<Rightarrow> PropertyClause" where
  "property_of_row r = \<lparr>PC_ID = pr_id r, PC_WillID = pr_will_id r, PC_ClauseIndex = pr_index r,
     TitleReference = pr_title_reference r, LINZVerifiedAt = pr_linz_verified_at r,
     LINZLandAreaM2 = coalesce 0 (pr_linz_land_area_m2 r),
     LegalDescription = pr_legal_description r,
     PC_BeneficiaryID = coalesce '''' (pr_beneficiary_id r)\<rparr>"

definition InsertPropertyClause :: "PropertyClause \<Rightarrow> world \<Rightarrow> goerror option \<times> world" where
  "InsertPropertyClause c w = pool_Exec (INSERT_property (property_row_of c)) w"

definition properties_of :: "WillID \<Rightarrow> db \<Rightarrow> PropertyClause list" where
  "properties_of willID d =
     map property_of_row (sort_key pr_index (sql_where pr_will_id willID (property_t d)))"

definition GetPropertyClausesByWillID ::
  "WillID \<Rightarrow> world \<Rightarrow> (PropertyClause list \<times> goerror option) \<times> world" where
  "GetPropertyClausesByWillID willID w =
     (case pool_Query (properties_of willID) w of
        (Inl e, w) \<Rightarrow> (([], Some e), w)
      | (Inr (out, err), w) \<Rightarrow> ((out, err), w))"

definition UpdatePropertyClauseLINZ ::
  "string \<Rightarrow> rat \<Rightarrow> string \<Rightarrow> gotime \<Rightarrow> world \<Rightarrow> goerror option \<times> world" where
  "UpdatePropertyClauseLINZ clauseID areaM2 legalDesc verifiedAt w =
     pool_Exec (\<lambda>d. Inr (d\<lparr>property_t := sql_update pr_id clauseID
       (\<lambda>r. r\<lparr>pr_linz_verified_at := Some (timestamptz verifiedAt),
              pr_linz_land_area_m2 := Some areaM2, pr_legal_description := legalDesc\<rparr>)
       (property_t d)\<rparr>)) w"

section \<open>Rows hold what was inserted\<close>

text \<open>The nullable columns: the zero value of the Go field is what stands for \<open>NULL\<close>.\<close>

interpretation nullable_codec: codec nullable "coalesce ''''" "\<lambda>_. True"
  by unfold_locales (simp add: nullable_def coalesce_def)

interpretation nullableFloat_codec: codec nullableFloat "coalesce 0" "\<lambda>_. True"
  by unfold_locales (simp add: nullableFloat_def coalesce_def)

interpretation asset_row_codec: codec asset_row_of asset_of_row "\<lambda>c. known_asset (AssetType c)"
  by unfold_locales
    (simp add: asset_row_of_def asset_of_row_def nullable_codec.dec_enc asset_codec.dec_enc)

interpretation property_row_codec: codec property_row_of property_of_row
  "\<lambda>c. case LINZVerifiedAt c of None \<Rightarrow> True | Some t \<Rightarrow> whole_micros t"
proof
  fix c :: PropertyClause
  assume "case LINZVerifiedAt c of None \<Rightarrow> True | Some t \<Rightarrow> whole_micros t"
  then have "map_option timestamptz (LINZVerifiedAt c) = LINZVerifiedAt c"
    by (auto simp: timestamptz_id_iff split: option.splits)
  then show "property_of_row (property_row_of c) = c"
    by (simp add: property_row_of_def property_of_row_def nullable_codec.dec_enc
        nullableFloat_codec.dec_enc)
qed

lemma INSERT_asset_Inr:
  "INSERT_asset r d = Inr d' \<longleftrightarrow> in_int32 (dr_index r) \<and> dr_id r \<notin> dr_id ` set (asset_t d) \<and>
     dr_will_id r \<in> will_ids d \<and> ref_ok (dr_beneficiary_id r) (br_id ` set (beneficiary_t d)) \<and>
     d' = d\<lparr>asset_t := asset_t d @ [r]\<rparr>"
  by (auto simp: INSERT_asset_def sql_insert_def)

lemma INSERT_property_Inr:
  "INSERT_property r d = Inr d' \<longleftrightarrow> in_int32 (pr_index r) \<and> pr_id r \<notin> pr_id ` set (property_t d) \<and>
     pr_will_id r \<in> will_ids d \<and> ref_ok (pr_beneficiary_id r) (br_id ` set (beneficiary_t d)) \<and>
     d' = d\<lparr>property_t := property_t d @ [r]\<rparr>"
  by (auto simp: INSERT_property_def sql_insert_def)

lemma InsertDigitalAsset_effect:
  "InsertDigitalAsset c w = (e, w') \<Longrightarrow>
     (w_db w' = w_db w \<and> e \<noteq> None) \<or> INSERT_asset (asset_row_of c) (w_db w) = Inr (w_db w')"
  by (auto simp: InsertDigitalAsset_def dest: pool_Exec_effect)

lemma InsertPropertyClause_effect:
  "InsertPropertyClause c w = (e, w') \<Longrightarrow>
     (w_db w' = w_db w \<and> e \<noteq> None) \<or> INSERT_property (property_row_of c) (w_db w) = Inr (w_db w')"
  by (auto simp: InsertPropertyClause_def dest: pool_Exec_effect)

lemma GetAssets_keeps [keeps]:
  "GetDigitalAssetsByWillID k w = (r, w') \<Longrightarrow> w_db w' = w_db w \<and> w_sha256 w' = w_sha256 w"
  "GetPropertyClausesByWillID k w = (p, w') \<Longrightarrow> w_db w' = w_db w \<and> w_sha256 w' = w_sha256 w"
  by (auto simp: GetDigitalAssetsByWillID_def GetPropertyClausesByWillID_def dest: keeps
      split: prod.splits sum.splits)

text \<open>An inserted clause is among those read back, as the column types keep it.\<close>

lemma inserted_asset_read:
  assumes "INSERT_asset (asset_row_of c) d = Inr d'" and "known_asset (AssetType c)"
  shows "c \<in> set (assets_of (DA_WillID c) d')"
proof -
  have "c = asset_of_row (asset_row_of c)" using assms(2) by (simp add: asset_row_codec.dec_enc)
  moreover have "asset_row_of c \<in> set (sql_where dr_will_id (DA_WillID c) (asset_t d'))"
    using assms(1) by (auto simp: INSERT_asset_Inr sql_where_def asset_row_of_def)
  ultimately show ?thesis by (auto simp: assets_of_def intro: image_eqI)
qed

lemma inserted_property_read:
  assumes "INSERT_property (property_row_of c) d = Inr d'"
  shows "c\<lparr>LINZVerifiedAt := map_option timestamptz (LINZVerifiedAt c)\<rparr>
    \<in> set (properties_of (PC_WillID c) d')"
proof -
  have "c\<lparr>LINZVerifiedAt := map_option timestamptz (LINZVerifiedAt c)\<rparr> =
      property_of_row (property_row_of c)"
    by (simp add: property_row_of_def property_of_row_def nullable_codec.dec_enc
        nullableFloat_codec.dec_enc)
  moreover have "property_row_of c \<in> set (sql_where pr_will_id (PC_WillID c) (property_t d'))"
    using assms by (auto simp: INSERT_property_Inr sql_where_def property_row_of_def)
  ultimately show ?thesis by (auto simp: properties_of_def intro: image_eqI)
qed

text \<open>\<open>UpdatePropertyClauseLINZ\<close> on success rewrites the one clause it names.\<close>

lemma UpdatePropertyClauseLINZ_success:
  assumes "UpdatePropertyClauseLINZ cid area legal t w = (None, w')"
  shows "sql_find pr_id k (property_t (w_db w')) =
    (if k = cid then map_option (\<lambda>r. r\<lparr>pr_linz_verified_at := Some (timestamptz t),
       pr_linz_land_area_m2 := Some area, pr_legal_description := legal\<rparr>)
       (sql_find pr_id k (property_t (w_db w)))
     else sql_find pr_id k (property_t (w_db w)))"
proof -
  from assms have db: "w_db w' = w_db w\<lparr>property_t := sql_update pr_id cid
      (\<lambda>r. r\<lparr>pr_linz_verified_at := Some (timestamptz t), pr_linz_land_area_m2 := Some area,
        pr_legal_description := legal\<rparr>) (property_t (w_db w))\<rparr>"
    by (auto simp: UpdatePropertyClauseLINZ_def dest: pool_Exec_None)
  show ?thesis unfolding db by (simp add: property_tab.upd_sel)
qed

end
