(* ===== verification/Vault_Encryption.thy ===== *)
theory Vault_Encryption
  imports Go_Prelude
begin

text \<open>
  \<open>internal/services/encryption.go\<close>: the structural check on client-supplied vault metadata.
\<close>

text \<open>A \<open>map[string]bool\<close> read at a missing key yields \<open>false\<close>.\<close>

definition supportedAlgorithms :: "string \<rightharpoonup> bool" where
  "supportedAlgorithms = [''AES-GCM-256'' \<mapsto> True]"

definition ValidateVault :: "string \<Rightarrow> string \<Rightarrow> string \<Rightarrow> goerror option" where
  "ValidateVault ciphertext nonce alg =
     (if ciphertext = '''' \<or> nonce = '''' \<or> alg = '''' then Some ErrEncryptionInvalid
      else if supportedAlgorithms alg \<noteq> Some True then Some ErrEncryptionInvalid
      else None)"

lemma ValidateVault_None:
  "ValidateVault c n a = None \<longleftrightarrow> c \<noteq> '''' \<and> n \<noteq> '''' \<and> a = ''AES-GCM-256''"
  by (auto simp: ValidateVault_def supportedAlgorithms_def)

lemma ValidateVault_Some: "ValidateVault c n a = Some e \<Longrightarrow> e = ErrEncryptionInvalid"
  by (auto simp: ValidateVault_def split: if_splits)

end
