(* ===== verification/Will_Service.thy ===== *)
theory Will_Service
  imports Audit_Log Asset_Repo Vault_Encryption
begin

text \<open>
  \<open>internal/services/will.go\<close>: one definition per method of \<open>WillService\<close>, in the order of the
  file (the helpers that create identifiers come first because the methods call them).  The
  optional LINZ verifier is an argument: \<open>None\<close> is the nil interface, and \<open>Some f\<close> answers this
  call's title reference with \<open>f\<close>.
\<close>

unbundle bit_operations_syntax

section \<open>Identifiers\<close>

definition uuid_bytes :: "8 word list \<Rightarrow> 8 word list" where
  "uuid_bytes b =
     (let b = b[6 := (b ! 6 AND 0x0f) OR 0x40] in b[8 := (b ! 8 AND 0x3f) OR 0x80])"

definition uuid_text :: "8 word list \<Rightarrow> string" where
  "uuid_text b =
     hex_bytes (take 4 b) @ ''-'' @ hex_bytes (take 2 (drop 4 b)) @ ''-'' @
     hex_bytes (take 2 (drop 6 b)) @ ''-'' @ hex_bytes (take 2 (drop 8 b)) @ ''-'' @
     hex_bytes (drop 10 b)"

definition newWillID :: "world \<Rightarrow> WillID \<times> world" where
  "newWillID w = (case rand_Read 16 w of (b, w) \<Rightarrow> (uuid_text (uuid_bytes b), w))"

definition newChildID :: "string \<Rightarrow> string \<Rightarrow> world \<Rightarrow> string \<times> world" where
  "newChildID willID kind w = (case rand_Read 4 w of
     (b, w) \<Rightarrow> (willID @ '':'' @ kind @ '':'' @ hex_bytes b, w))"

section \<open>Requests\<close>

record CreateWillRequest =
  rq_Clauses :: "Clause list"
  rq_Beneficiaries :: "Beneficiary list"
  rq_Executors :: "Executor list"
  rq_VaultCiphertext :: string
  rq_VaultNonce :: string
  rq_VaultAlg :: string
  rq_VaultUnlockDelayDays :: int

text \<open>
  The three loops of \<open>buildWill\<close> over clauses, beneficiaries and executors have one body: an empty
  \<open>ID\<close> gets a fresh child identifier, any other is kept.
\<close>

fun fill_ids ::
  "('a \<Rightarrow> string) \<Rightarrow> (string \<Rightarrow> 'a \<Rightarrow> 'a) \<Rightarrow> WillID \<Rightarrow> string \<Rightarrow> 'a list \<Rightarrow> world \<Rightarrow> 'a list \<times> world" where
  "fill_ids get put wid kind [] w = ([], w)"
| "fill_ids get put wid kind (x # xs) w =
     (case (if get x = '''' then newChildID wid kind w else (get x, w)) of (i, w) \<Rightarrow>
     (case fill_ids get put wid kind xs w of (ys, w) \<Rightarrow> (put i x # ys, w)))"

definition buildWill ::
  "WillID \<Rightarrow> IdentityClaims \<Rightarrow> CreateWillRequest \<Rightarrow> bool \<Rightarrow> WillID option \<Rightarrow> world \<Rightarrow> Will \<times> world" where
  "buildWill wid testator req isCodicil parentWillID w =
     (case fill_ids Clause_ID (\<lambda>i c. c\<lparr>Clause_ID := i\<rparr>) wid ''clause'' (rq_Clauses req) w of
        (clauses, w) \<Rightarrow>
     (case fill_ids Beneficiary_ID (\<lambda>i b. b\<lparr>Beneficiary_ID := i\<rparr>) wid ''bene'' (rq_Beneficiaries req) w of
        (beneficiaries, w) \<Rightarrow>
     (case fill_ids Executor_ID (\<lambda>i e. e\<lparr>Executor_ID := i\<rparr>) wid ''exec'' (rq_Executors req) w of
        (executors, w) \<Rightarrow>
     (\<lparr>Will_ID = wid, Testator = testator, Clauses = clauses,
       TestatorSignedAt = None, TestatorPayloadHash = None, WitnessSignatures = [],
       Beneficiaries = beneficiaries, Executors = executors,
       DigitalAssetClauses = [], PropertyClauses = [], Status = WillStatusDraft, LockedAt = None,
       SupersededBy = None, ParentWillID = parentWillID, IsCodicil = isCodicil,
       DeathNotifiedAt = None, VaultUnlockDelayDays = rq_VaultUnlockDelayDays req,
       UnlockAfter = None, UnlockedAt = None, LastConfirmedAt = None, LivenessNotifiedAt = None,
       VaultCiphertext = rq_VaultCiphertext req, VaultNonce = rq_VaultNonce req,
       VaultAlg = rq_VaultAlg req, AuditNote = ''created draft''\<rparr>, w))))"

section \<open>The lifecycle\<close>

fun record_superseded :: "WillID list \<Rightarrow> string \<Rightarrow> WillID \<Rightarrow> world \<Rightarrow> world" where
  "record_superseded [] flt newID w = w"
| "record_superseded (sid # sids) flt newID w =
     record_superseded sids flt newID (AuditService_Record sid AuditEventSuperseded flt newID w)"

definition WillService_CreateDraft ::
  "IdentityClaims \<Rightarrow> CreateWillRequest \<Rightarrow> world \<Rightarrow> (goerror + WillID) \<times> world" where
  "WillService_CreateDraft testator req w =
     (case ValidateVault (rq_VaultCiphertext req) (rq_VaultNonce req) (rq_VaultAlg req) of
        Some e \<Rightarrow> (Inl e, w)
      | None \<Rightarrow>
     (case newWillID w of (wid, w) \<Rightarrow>
     (case buildWill wid testator req False None w of (will, w) \<Rightarrow>
     (case FindActiveByTestatorFLT (RealMeFLT testator) w of
        ((_, Some e), w) \<Rightarrow> (Inl e, w)
      | ((supersede, None), w) \<Rightarrow>
     (case WillRepo_CreateDraft will supersede w of
        (Some e, w) \<Rightarrow> (Inl e, w)
      | (None, w) \<Rightarrow>
          (let w = AuditService_Record wid AuditEventCreated (RealMeFLT testator) '''' w
           in (Inr wid, record_superseded supersede (RealMeFLT testator) wid w)))))))"

definition WillService_GetByID :: "WillID \<Rightarrow> world \<Rightarrow> (goerror + Will) \<times> world" where
  "WillService_GetByID wid w =
     (case WillRepo_GetByID wid w of
        (Inl e, w) \<Rightarrow> (Inl e, w)
      | (Inr will, w) \<Rightarrow>
     (case GetDigitalAssetsByWillID wid w of ((assets, _), w) \<Rightarrow>
     (case GetPropertyClausesByWillID wid w of ((props, _), w) \<Rightarrow>
        (Inr (will\<lparr>DigitalAssetClauses := assets, PropertyClauses := props\<rparr>), w))))"

definition WillService_SignTestator ::
  "WillID \<Rightarrow> IdentityClaims \<Rightarrow> string \<Rightarrow> world \<Rightarrow> goerror option \<times> world" where
  "WillService_SignTestator wid signer payloadHash w =
     (case WillRepo_GetByID wid w of
        (Inl e, w) \<Rightarrow> (Some e, w)
      | (Inr will, w) \<Rightarrow>
          if Status will \<noteq> WillStatusDraft then (Some ErrInvalidState, w)
          else if RealMeFLT (Testator will) \<noteq> RealMeFLT signer then (Some ErrForbidden, w)
          else (case time_Now w of (now, w) \<Rightarrow>
               (case RecordTestatorSignature wid payloadHash now w of
                  (Some e, w) \<Rightarrow> (Some e, w)
                | (None, w) \<Rightarrow> (None, AuditService_Record wid AuditEventTestatorSigned
                    (RealMeFLT signer) payloadHash w))))"

definition WillService_SignWitness ::
  "WillID \<Rightarrow> IdentityClaims \<Rightarrow> string \<Rightarrow> world \<Rightarrow> goerror option \<times> world" where
  "WillService_SignWitness wid witness payloadHash w =
     (case WillRepo_GetByID wid w of
        (Inl e, w) \<Rightarrow> (Some e, w)
      | (Inr will, w) \<Rightarrow>
          if Status will \<noteq> WillStatusDraft then (Some ErrInvalidState, w)
          else if RealMeFLT (Testator will) = RealMeFLT witness then (Some ErrForbidden, w)
          else if TestatorSignedAt will = None then (Some ErrInvalidState, w)
          else (case time_Now w of (now, w) \<Rightarrow>
               (case RecordWitnessSignature wid payloadHash now witness w of
                  (Some e, w) \<Rightarrow> (Some e, w)
                | (None, w) \<Rightarrow> (None, AuditService_Record wid AuditEventWitnessSigned
                    (RealMeFLT witness) payloadHash w))))"

definition WillService_Lock :: "WillID \<Rightarrow> gotime \<Rightarrow> world \<Rightarrow> goerror option \<times> world" where
  "WillService_Lock wid lockedAt w =
     (case WillRepo_GetByID wid w of
        (Inl e, w) \<Rightarrow> (Some e, w)
      | (Inr will, w) \<Rightarrow>
          if Status will \<noteq> WillStatusDraft then (Some ErrInvalidState, w)
          else if TestatorSignedAt will = None \<or> length (WitnessSignatures will) < 2
          then (Some ErrInvalidState, w)
          else (case WillRepo_UpdateStatus wid WillStatusLocked (Some lockedAt) None w of
                  (Some e, w) \<Rightarrow> (Some e, w)
                | (None, w) \<Rightarrow> (None, AuditService_Record wid AuditEventLocked
                    (RealMeFLT (Testator will)) '''' w)))"

definition WillService_NotifyDeath ::
  "WillID \<Rightarrow> int \<Rightarrow> gotime \<Rightarrow> world \<Rightarrow> goerror option \<times> world" where
  "WillService_NotifyDeath wid delayDays notifiedAt w =
     (case WillRepo_GetByID wid w of
        (Inl e, w) \<Rightarrow> (Some e, w)
      | (Inr will, w) \<Rightarrow>
          if Status will \<noteq> WillStatusLocked then (Some ErrInvalidState, w)
          else let unlockAfter = time_AddDays notifiedAt delayDays in
            if delayDays = 0
            then (case WillRepo_UpdateStatus wid WillStatusUnlockedDead None (Some notifiedAt) w of
                    (Some e, w) \<Rightarrow> (Some e, w)
                  | (None, w) \<Rightarrow> (None, AuditService_Record wid AuditEventVaultUnlocked '''' '''' w))
            else (case WillRepo_NotifyDeath wid notifiedAt unlockAfter w of
                    (Some e, w) \<Rightarrow> (Some e, w)
                  | (None, w) \<Rightarrow> (None, AuditService_Record wid AuditEventDeathNotified '''' '''' w)))"

definition WillService_CompleteUnlock :: "WillID \<Rightarrow> gotime \<Rightarrow> world \<Rightarrow> goerror option \<times> world" where
  "WillService_CompleteUnlock wid now w =
     (case WillRepo_GetByID wid w of
        (Inl e, w) \<Rightarrow> (Some e, w)
      | (Inr will, w) \<Rightarrow>
          if Status will \<noteq> WillStatusDeathNotified then (Some ErrInvalidState, w)
          else if (case UnlockAfter will of None \<Rightarrow> False | Some u \<Rightarrow> time_Before now u)
          then (Some ErrInvalidState, w)
          else (case WillRepo_UpdateStatus wid WillStatusUnlockedDead None (Some now) w of
                  (Some e, w) \<Rightarrow> (Some e, w)
                | (None, w) \<Rightarrow> (None, AuditService_Record wid AuditEventVaultUnlocked '''' '''' w)))"

section \<open>Codicils\<close>

definition WillService_CreateCodicil ::
  "WillID \<Rightarrow> IdentityClaims \<Rightarrow> CreateWillRequest \<Rightarrow> world \<Rightarrow> (goerror + WillID) \<times> world" where
  "WillService_CreateCodicil parentID testator req w =
     (case WillRepo_GetByID parentID w of
        (Inl e, w) \<Rightarrow> (Inl e, w)
      | (Inr parent, w) \<Rightarrow>
          if Status parent \<noteq> WillStatusLocked then (Inl ErrInvalidState, w)
          else if RealMeFLT (Testator parent) \<noteq> RealMeFLT testator then (Inl ErrForbidden, w)
          else (case ValidateVault (rq_VaultCiphertext req) (rq_VaultNonce req) (rq_VaultAlg req) of
             Some e \<Rightarrow> (Inl e, w)
           | None \<Rightarrow>
          (case newWillID w of (wid, w) \<Rightarrow>
          (case buildWill wid testator req True (Some parentID) w of (will, w) \<Rightarrow>
           let will = will\<lparr>AuditNote := ''codicil to '' @ parentID\<rparr> in
          (case WillRepo_CreateDraft will [] w of
             (Some e, w) \<Rightarrow> (Inl e, w)
           | (None, w) \<Rightarrow>
             (let w = AuditService_Record wid AuditEventCodicilCreated (RealMeFLT testator) '''' w
              in (Inr wid, AuditService_Record parentID AuditEventCodicilAppended
                   (RealMeFLT testator) wid w)))))))"

section \<open>Liveness\<close>

definition WillService_ConfirmLiveness ::
  "WillID \<Rightarrow> IdentityClaims \<Rightarrow> world \<Rightarrow> goerror option \<times> world" where
  "WillService_ConfirmLiveness wid testator w =
     (case WillRepo_GetByID wid w of
        (Inl e, w) \<Rightarrow> (Some e, w)
      | (Inr will, w) \<Rightarrow>
          if RealMeFLT (Testator will) \<noteq> RealMeFLT testator then (Some ErrForbidden, w)
          else if Status will = WillStatusSuperseded \<or> Status will = WillStatusUnlockedDead
          then (Some ErrInvalidState, w)
          else (case time_Now w of (now, w) \<Rightarrow>
               (case RecordLivenessConfirmation wid now w of
                  (Some e, w) \<Rightarrow> (Some e, w)
                | (None, w) \<Rightarrow> (None, AuditService_Record wid AuditEventLivenessConfirmed
                    (RealMeFLT testator) '''' w))))"

definition WillService_RecordLivenessReminder :: "WillID \<Rightarrow> world \<Rightarrow> goerror option \<times> world" where
  "WillService_RecordLivenessReminder wid w =
     (case time_Now w of (now, w) \<Rightarrow>
     (case WillRepo_RecordLivenessReminder wid now w of
        (Some e, w) \<Rightarrow> (Some e, w)
      | (None, w) \<Rightarrow> (None, AuditService_Record wid AuditEventLivenessReminder '''' '''' w)))"

section \<open>Clauses on assets\<close>

definition zero_asset :: DigitalAssetClause where
  "zero_asset = \<lparr>DA_ID = '''', DA_WillID = '''', DA_ClauseIndex = 0, AssetType = DigitalAssetText '''',
     Platform = '''', DA_Identifier = '''', Instruction = '''', DA_BeneficiaryID = ''''\<rparr>"

definition zero_property :: PropertyClause where
  "zero_property = \<lparr>PC_ID = '''', PC_WillID = '''', PC_ClauseIndex = 0, TitleReference = '''',
     LINZVerifiedAt = None, LINZLandAreaM2 = 0, LegalDescription = '''', PC_BeneficiaryID = ''''\<rparr>"

definition WillService_AddDigitalAssetClause ::
  "WillID \<Rightarrow> IdentityClaims \<Rightarrow> DigitalAssetClause \<Rightarrow> world \<Rightarrow>
     (DigitalAssetClause \<times> goerror option) \<times> world" where
  "WillService_AddDigitalAssetClause willID testator clause w =
     (case WillRepo_GetByID willID w of
        (Inl e, w) \<Rightarrow> ((zero_asset, Some e), w)
      | (Inr will, w) \<Rightarrow>
          if Status will \<noteq> WillStatusDraft then ((zero_asset, Some ErrInvalidState), w)
          else if RealMeFLT (Testator will) \<noteq> RealMeFLT testator
          then ((zero_asset, Some ErrForbidden), w)
          else (case newChildID willID ''da'' w of (i, w) \<Rightarrow>
            let clause = clause\<lparr>DA_ID := i, DA_WillID := willID\<rparr> in
            (case InsertDigitalAsset clause w of (e, w) \<Rightarrow> ((clause, e), w))))"

record PropertyVerificationResult =
  pvr_TitleNo :: string
  pvr_LegalDescription :: string
  pvr_LINZLandAreaM2 :: rat

type_synonym PropertyVerifier = "string \<Rightarrow> goerror + PropertyVerificationResult"

definition WillService_AddPropertyClause ::
  "PropertyVerifier option \<Rightarrow> WillID \<Rightarrow> IdentityClaims \<Rightarrow> string \<Rightarrow> string \<Rightarrow> world \<Rightarrow>
     (PropertyClause \<times> goerror option) \<times> world" where
  "WillService_AddPropertyClause linzVerifier willID testator titleRef beneficiaryID w =
     (case WillRepo_GetByID willID w of
        (Inl e, w) \<Rightarrow> ((zero_property, Some e), w)
      | (Inr will, w) \<Rightarrow>
          if Status will \<noteq> WillStatusDraft then ((zero_property, Some ErrInvalidState), w)
          else if RealMeFLT (Testator will) \<noteq> RealMeFLT testator
          then ((zero_property, Some ErrForbidden), w)
          else (case newChildID willID ''prop'' w of (i, w) \<Rightarrow>
            let clause = zero_property\<lparr>PC_ID := i, PC_WillID := willID, TitleReference := titleRef,
                  PC_BeneficiaryID := beneficiaryID\<rparr>
            in case (case linzVerifier of
                       None \<Rightarrow> (clause, w)
                     | Some verify \<Rightarrow> (case verify titleRef of
                           Inl _ \<Rightarrow> (clause, w)
                         | Inr data \<Rightarrow> (case time_Now w of (now, w) \<Rightarrow>
                             (clause\<lparr>LINZVerifiedAt := Some now,
                                LINZLandAreaM2 := pvr_LINZLandAreaM2 data,
                                LegalDescription := pvr_LegalDescription data\<rparr>, w)))) of
              (clause, w) \<Rightarrow> (case InsertPropertyClause clause w of (e, w) \<Rightarrow> ((clause, e), w))))"

section \<open>What the operations rely on\<close>

text \<open>A will the repository returns shows the columns of its row and no more signatures than exist.\<close>

lemma GetByID_reads:
  assumes "WillRepo_GetByID k w = (Inr will, w')"
  shows "w_db w' = w_db w \<and> w_sha256 w' = w_sha256 w \<and> (\<exists>r. find_will k (w_db w) = Some r \<and>
    Status will = status_of_text (wr_status r) \<and> RealMeFLT (Testator will) = wr_testator_flt r \<and>
    TestatorSignedAt will = wr_testator_signed_at r \<and> UnlockAfter will = wr_unlock_after r \<and>
    LivenessNotifiedAt will = wr_liveness_notified_at r \<and>
    VaultCiphertext will = wr_vault_ciphertext r \<and> VaultNonce will = wr_vault_nonce r \<and> VaultAlg will = wr_vault_alg r \<and>
    length (WitnessSignatures will) \<le> length (signatures_of k (w_db w)) \<and>
    (\<exists>m. Executors will = take m (executors_of k (w_db w))))"
proof -
  from assms obtain r cs bs es ws m n where "find_will k (w_db w) = Some r"
    "will = will_of_row r cs bs es ws" "es = take m (executors_of k (w_db w))"
    "ws = take n (signatures_of k (w_db w))"
    by (rule GetByID_Inr)
  then show ?thesis
    using GetByID_frame [of k w] assms by (auto simp: will_of_row_def)
qed

lemma GetByID_fails:
  "WillRepo_GetByID k w = (Inl e, w') \<Longrightarrow> w_db w' = w_db w \<and> w_sha256 w' = w_sha256 w"
  using GetByID_frame [of k w] by simp

lemma status_reads:
  "status_of_text s = WillStatusDraft \<longleftrightarrow> s = ''draft''"
  "status_of_text s = WillStatusLocked \<longleftrightarrow> s = ''locked''"
  "status_of_text s = WillStatusDeathNotified \<longleftrightarrow> s = ''death_notified''"
  "status_of_text s = WillStatusUnlockedDead \<longleftrightarrow> s = ''unlocked_at_death''"
  "status_of_text s = WillStatusSuperseded \<longleftrightarrow> s = ''superseded''"
  by (simp_all add: status_of_text_eq_iff)

text \<open>At most one audit row for the event was added.\<close>

definition logged :: "WillID \<Rightarrow> AuditEvent \<Rightarrow> string \<Rightarrow> string \<Rightarrow> db \<Rightarrow> db \<Rightarrow> bool" where
  "logged k ev actor payload d d' \<longleftrightarrow> d' = d \<or>
     (\<exists>r. INSERT_audit r d = Inr d' \<and> ar_will_id r = k \<and> ar_event r = event_text ev \<and>
        ar_actor_flt r = actor \<and> ar_payload_hash r = payload)"

lemma logged_refl [simp]: "logged k ev a p d d"
  by (simp add: logged_def)

lemma Record_logged [simp]: "logged k ev a p (w_db w) (w_db (AuditService_Record k ev a p w))"
  using audit_svc.one_entry by (simp add: logged_def)

lemma Record_logged_from: "w_db w = d \<Longrightarrow> logged k ev a p d (w_db (AuditService_Record k ev a p w))"
  using Record_logged by blast

lemma newID_keeps [keeps]:
  "newWillID w = (i, w') \<Longrightarrow> w_db w' = w_db w \<and> w_sha256 w' = w_sha256 w"
  "newChildID k kind w = (j, w') \<Longrightarrow> w_db w' = w_db w \<and> w_sha256 w' = w_sha256 w"
  by (auto simp: newWillID_def newChildID_def dest: keeps split: prod.splits)

lemma fill_ids_keeps [keeps]:
  "fill_ids get put k kind xs w = (ys, w') \<Longrightarrow> w_db w' = w_db w \<and> w_sha256 w' = w_sha256 w"
proof (induction get put k kind xs w arbitrary: ys w' rule: fill_ids.induct)
  case (2 get put wid kind x xs w)
  obtain i w1 where i: "(if get x = '''' then newChildID wid kind w else (get x, w)) = (i, w1)"
    by fastforce
  then have keep: "w_db w1 = w_db w \<and> w_sha256 w1 = w_sha256 w"
    by (auto split: if_splits dest: newID_keeps(2))
  obtain zs w2 where z: "fill_ids get put wid kind xs w1 = (zs, w2)" by fastforce
  from 2 (2) have "w' = w2" by (simp add: i z)
  with 2 (1) [OF i [symmetric] z] keep show ?case by simp
qed simp

lemma buildWill_cases:
  assumes "buildWill k testator req c p w = (will, w')"
  obtains cs bs es w1 w2 where
    "fill_ids Clause_ID (\<lambda>i c. c\<lparr>Clause_ID := i\<rparr>) k ''clause'' (rq_Clauses req) w = (cs, w1)"
    "fill_ids Beneficiary_ID (\<lambda>i b. b\<lparr>Beneficiary_ID := i\<rparr>) k ''bene'' (rq_Beneficiaries req) w1 = (bs, w2)"
    "fill_ids Executor_ID (\<lambda>i e. e\<lparr>Executor_ID := i\<rparr>) k ''exec'' (rq_Executors req) w2 = (es, w')"
    "Clauses will = cs" "Beneficiaries will = bs" "Executors will = es"
    "Will_ID will = k" "Testator will = testator" "Status will = WillStatusDraft"
    "IsCodicil will = c" "ParentWillID will = p"
    "VaultUnlockDelayDays will = rq_VaultUnlockDelayDays req"
proof -
  obtain cs w1 where 1: "fill_ids Clause_ID (\<lambda>i c. c\<lparr>Clause_ID := i\<rparr>) k ''clause'' (rq_Clauses req) w = (cs, w1)"
    by fastforce
  obtain bs w2 where 2: "fill_ids Beneficiary_ID (\<lambda>i b. b\<lparr>Beneficiary_ID := i\<rparr>) k ''bene'' (rq_Beneficiaries req) w1 = (bs, w2)"
    by fastforce
  obtain es w3 where 3: "fill_ids Executor_ID (\<lambda>i e. e\<lparr>Executor_ID := i\<rparr>) k ''exec'' (rq_Executors req) w2 = (es, w3)"
    by fastforce
  show thesis
    by (rule that [OF 1 2]; use assms 3 in \<open>simp add: buildWill_def 1 2; elim conjE; hypsubst; simp\<close>)
qed

lemma buildWill_note: "buildWill k testator req c p w = (will, w') \<Longrightarrow> AuditNote will = ''created draft''"
  by (auto simp: buildWill_def split: prod.splits)

lemma buildWill_keeps [keeps]:
  assumes "buildWill k testator req c p w = (will, w')"
  shows "w_db w' = w_db w \<and> w_sha256 w' = w_sha256 w"
  using assms by (rule buildWill_cases) (simp add: fill_ids_keeps)

text \<open>What a new will takes over from the request: everything but the empty identifiers.\<close>

definition filled :: "('a \<Rightarrow> string) \<Rightarrow> (string \<Rightarrow> 'a \<Rightarrow> 'a) \<Rightarrow> 'a list \<Rightarrow> 'a list \<Rightarrow> bool" where
  "filled get put xs ys \<longleftrightarrow> list_all2 (\<lambda>x y. y = put (get y) x \<and> (get x = '''' \<or> get y = get x)) xs ys"

definition carries :: "Will \<Rightarrow> CreateWillRequest \<Rightarrow> bool" where
  "carries will req \<longleftrightarrow>
     filled Clause_ID (\<lambda>i c. c\<lparr>Clause_ID := i\<rparr>) (rq_Clauses req) (Clauses will) \<and>
     filled Beneficiary_ID (\<lambda>i b. b\<lparr>Beneficiary_ID := i\<rparr>) (rq_Beneficiaries req) (Beneficiaries will) \<and>
     filled Executor_ID (\<lambda>i e. e\<lparr>Executor_ID := i\<rparr>) (rq_Executors req) (Executors will) \<and>
     VaultCiphertext will = rq_VaultCiphertext req \<and> VaultNonce will = rq_VaultNonce req \<and>
     VaultAlg will = rq_VaultAlg req \<and> VaultUnlockDelayDays will = rq_VaultUnlockDelayDays req"

lemma fill_ids_filled:
  "fill_ids get put k kind xs w = (ys, w') \<Longrightarrow> (\<And>i x. get (put i x) = i) \<Longrightarrow> filled get put xs ys"
proof (induction get put k kind xs w arbitrary: ys w' rule: fill_ids.induct)
  case (2 get put wid kind x xs w)
  obtain i w1 where i: "(if get x = '''' then newChildID wid kind w else (get x, w)) = (i, w1)"
    by fastforce
  obtain zs w2 where z: "fill_ids get put wid kind xs w1 = (zs, w2)" by fastforce
  have "ys = put i x # zs" using 2(2) by (simp add: i z)
  moreover have "get x = '''' \<or> i = get x" using i by (auto split: if_splits)
  ultimately show ?case using 2(1) [OF i [symmetric] z 2(3)] 2(3) by (simp add: filled_def)
qed (simp add: filled_def)

lemma buildWill_carries:
  assumes "buildWill k testator req c p w = (will, w')"
  shows "carries will req"
proof -
  obtain cs w1 where 1: "fill_ids Clause_ID (\<lambda>i c. c\<lparr>Clause_ID := i\<rparr>) k ''clause'' (rq_Clauses req) w = (cs, w1)"
    by fastforce
  obtain bs w2 where 2: "fill_ids Beneficiary_ID (\<lambda>i b. b\<lparr>Beneficiary_ID := i\<rparr>) k ''bene'' (rq_Beneficiaries req) w1 = (bs, w2)"
    by fastforce
  obtain es w3 where 3: "fill_ids Executor_ID (\<lambda>i e. e\<lparr>Executor_ID := i\<rparr>) k ''exec'' (rq_Executors req) w2 = (es, w3)"
    by fastforce
  show ?thesis
    using assms fill_ids_filled [OF 1] fill_ids_filled [OF 2] fill_ids_filled [OF 3]
    by (auto simp: buildWill_def 1 2 3 carries_def)
qed

section \<open>What each operation does to the database\<close>

text \<open>
  One lemma per operation: either the database is as before, or the guards the method checks held
  of the stored row and the tables change by its one statement, followed by at most one audit row.
\<close>

text \<open>How every method that first reads its will proceeds.\<close>

lemma with_will:
  assumes "(case WillRepo_GetByID k w of (Inl e, w) \<Rightarrow> (fail e, w) | (Inr will, w) \<Rightarrow> body will w) = (e', w')"
    and "\<And>e. w_db w' = w_db w \<Longrightarrow> e' = fail e \<Longrightarrow> P"
    and "\<And>will r w1. w_db w1 = w_db w \<Longrightarrow> w_sha256 w1 = w_sha256 w \<Longrightarrow>
      find_will k (w_db w) = Some r \<Longrightarrow>
      Status will = status_of_text (wr_status r) \<Longrightarrow> RealMeFLT (Testator will) = wr_testator_flt r \<Longrightarrow>
      TestatorSignedAt will = wr_testator_signed_at r \<Longrightarrow> UnlockAfter will = wr_unlock_after r \<Longrightarrow>
      length (WitnessSignatures will) \<le> length (signatures_of k (w_db w)) \<Longrightarrow>
      body will w1 = (e', w') \<Longrightarrow> P"
  shows P
proof (cases "WillRepo_GetByID k w")
  case (Pair res w1)
  show ?thesis
  proof (cases res)
    case (Inl e)
    from GetByID_fails Pair [unfolded this] have "w_db w1 = w_db w" by blast
    with assms(1) Pair Inl show ?thesis by (auto intro: assms(2) [of e])
  next
    case (Inr will)
    with Pair assms(1) have body: "body will w1 = (e', w')" by simp
    from GetByID_reads [OF Pair [unfolded Inr]] body show ?thesis by (blast intro: assms(3))
  qed
qed

lemmas row_effects =
  status_upd.effect [of "(s, l, u)" for s l u, unfolded prod.case]
  death_upd.effect [of "(n, u)" for n u, unfolded prod.case]
  signed_upd.effect [of "(t, h)" for t h, unfolded prod.case]
  confirmed_upd.effect reminded_upd.effect

lemma RecordWitnessSignature_effect:
  "RecordWitnessSignature k h t x w = (e, w') \<Longrightarrow> (w_db w' = w_db w \<and> e \<noteq> None) \<or>
     INSERT_witness (witness_row_of k h t x) (w_db w) = Inr (w_db w')"
  by (auto simp: RecordWitnessSignature_def dest: pool_Exec_effect)

lemma SignTestator_effect:
  assumes "WillService_SignTestator k signer h w = (e, w')"
  shows "(w_db w' = w_db w \<and> e \<noteq> None) \<or>
    (\<exists>r t. find_will k (w_db w) = Some r \<and> wr_status r = ''draft'' \<and>
       wr_testator_flt r = RealMeFLT signer \<and>
       logged k AuditEventTestatorSigned (RealMeFLT signer) h
         (upd_will k (signed_row (t, h)) (w_db w)) (w_db w'))"
  using assms unfolding WillService_SignTestator_def
proof (rule with_will, goal_cases)
  case (2 will r w1)
  then show ?case
    by (auto simp: status_reads split: prod.splits if_splits option.splits dest!: store_keeps(1) row_effects)
      (metis Record_logged_from logged_refl)+
qed auto

lemma SignWitness_effect:
  assumes "WillService_SignWitness k witness h w = (e, w')"
  shows "(w_db w' = w_db w \<and> e \<noteq> None) \<or>
    (\<exists>r t d. find_will k (w_db w) = Some r \<and> wr_status r = ''draft'' \<and>
       wr_testator_flt r \<noteq> RealMeFLT witness \<and> wr_testator_signed_at r \<noteq> None \<and>
       INSERT_witness (witness_row_of k h t witness) (w_db w) = Inr d \<and>
       logged k AuditEventWitnessSigned (RealMeFLT witness) h d (w_db w'))"
  using assms unfolding WillService_SignWitness_def
proof (rule with_will, goal_cases)
  case (2 will r w1)
  then show ?case
    by (auto simp: status_reads split: prod.splits if_splits option.splits
        dest!: store_keeps(1) RecordWitnessSignature_effect)
      (metis Record_logged_from logged_refl)+
qed auto

lemma Lock_effect:
  assumes "WillService_Lock k t w = (e, w')"
  shows "(w_db w' = w_db w \<and> e \<noteq> None) \<or>
    (\<exists>r. find_will k (w_db w) = Some r \<and> wr_status r = ''draft'' \<and>
       wr_testator_signed_at r \<noteq> None \<and> 2 \<le> length (signatures_of k (w_db w)) \<and>
       logged k AuditEventLocked (wr_testator_flt r) ''''
         (upd_will k (status_row (WillStatusLocked, Some t, None)) (w_db w)) (w_db w'))"
  using assms unfolding WillService_Lock_def
proof (rule with_will, goal_cases)
  case (2 will r w1)
  then show ?case
    by (auto simp: status_reads not_less split: prod.splits if_splits option.splits
        dest!: store_keeps(1) row_effects intro!: Record_logged_from)
qed auto

lemma NotifyDeath_effect:
  assumes "WillService_NotifyDeath k delay t w = (e, w')"
  shows "(w_db w' = w_db w \<and> e \<noteq> None) \<or>
    (\<exists>r. find_will k (w_db w) = Some r \<and> wr_status r = ''locked'' \<and>
       (delay = 0 \<and> logged k AuditEventVaultUnlocked '''' ''''
          (upd_will k (status_row (WillStatusUnlockedDead, None, Some t)) (w_db w)) (w_db w') \<or>
        delay \<noteq> 0 \<and> logged k AuditEventDeathNotified '''' ''''
          (upd_will k (death_row (t, time_AddDays t delay)) (w_db w)) (w_db w')))"
  using assms unfolding WillService_NotifyDeath_def
proof (rule with_will, goal_cases)
  case (2 will r w1)
  then show ?case
    by (auto simp: status_reads Let_def split: prod.splits if_splits option.splits
        dest!: row_effects intro!: Record_logged_from)
qed auto

lemma CompleteUnlock_effect:
  assumes "WillService_CompleteUnlock k t w = (e, w')"
  shows "(w_db w' = w_db w \<and> e \<noteq> None) \<or>
    (\<exists>r. find_will k (w_db w) = Some r \<and> wr_status r = ''death_notified'' \<and>
       (\<forall>u. wr_unlock_after r = Some u \<longrightarrow> u \<le> t) \<and>
       logged k AuditEventVaultUnlocked '''' ''''
         (upd_will k (status_row (WillStatusUnlockedDead, None, Some t)) (w_db w)) (w_db w'))"
  using assms unfolding WillService_CompleteUnlock_def
proof (rule with_will, goal_cases)
  case (2 will r w1)
  then show ?case
    by (auto simp: status_reads time_Before_iff split: prod.splits if_splits option.splits
        dest!: row_effects intro!: Record_logged_from)
qed auto

lemma ConfirmLiveness_effect:
  assumes "WillService_ConfirmLiveness k testator w = (e, w')"
  shows "(w_db w' = w_db w \<and> e \<noteq> None) \<or>
    (\<exists>r t. find_will k (w_db w) = Some r \<and> wr_testator_flt r = RealMeFLT testator \<and>
       wr_status r \<noteq> ''superseded'' \<and> wr_status r \<noteq> ''unlocked_at_death'' \<and>
       logged k AuditEventLivenessConfirmed (RealMeFLT testator) ''''
         (upd_will k (confirmed_row t) (w_db w)) (w_db w'))"
  using assms unfolding WillService_ConfirmLiveness_def
proof (rule with_will, goal_cases)
  case (2 will r w1)
  then show ?case
    by (auto simp: status_reads split: prod.splits if_splits option.splits
        dest!: store_keeps(1) row_effects)
      (metis Record_logged_from logged_refl)+
qed auto

lemma RecordLivenessReminder_effect:
  assumes "WillService_RecordLivenessReminder k w = (e, w')"
  shows "(w_db w' = w_db w \<and> e \<noteq> None) \<or>
    (\<exists>t. logged k AuditEventLivenessReminder '''' ''''
       (upd_will k (reminded_row t) (w_db w)) (w_db w'))"
  using assms unfolding WillService_RecordLivenessReminder_def
  by (auto split: prod.splits option.splits dest!: store_keeps(1) row_effects)
    (metis Record_logged_from logged_refl)+

lemma AddDigitalAssetClause_effect:
  assumes "WillService_AddDigitalAssetClause k testator c w = ((c', e), w')"
  shows "(w_db w' = w_db w \<and> e \<noteq> None) \<or>
    (\<exists>r i. find_will k (w_db w) = Some r \<and> wr_status r = ''draft'' \<and>
       wr_testator_flt r = RealMeFLT testator \<and> c' = c\<lparr>DA_ID := i, DA_WillID := k\<rparr> \<and>
       INSERT_asset (asset_row_of c') (w_db w) = Inr (w_db w'))"
  using assms unfolding WillService_AddDigitalAssetClause_def
proof (rule with_will [where fail = "\<lambda>e. (zero_asset, Some e)"], goal_cases)
  case (2 will r w1)
  then show ?case
    by (auto simp: status_reads Let_def split: prod.splits if_splits
        dest!: newID_keeps InsertDigitalAsset_effect)
qed auto

lemma AddPropertyClause_effect:
  assumes "WillService_AddPropertyClause verifier k testator ref bene w = ((c, e), w')"
  shows "(w_db w' = w_db w \<and> e \<noteq> None) \<or>
    (\<exists>r. find_will k (w_db w) = Some r \<and> wr_status r = ''draft'' \<and>
       wr_testator_flt r = RealMeFLT testator \<and> PC_WillID c = k \<and> TitleReference c = ref \<and>
       PC_BeneficiaryID c = bene \<and>
       INSERT_property (property_row_of c) (w_db w) = Inr (w_db w'))"
  using assms unfolding WillService_AddPropertyClause_def
proof (rule with_will [where fail = "\<lambda>e. (zero_property, Some e)"], goal_cases)
  case (2 will r w1)
  then show ?case
    by (auto simp: status_reads Let_def zero_property_def
        split: prod.splits if_splits sum.splits option.splits
        dest!: newID_keeps store_keeps(1) InsertPropertyClause_effect)
qed auto

text \<open>Audit rows added one at a time.\<close>

definition audited :: "db \<Rightarrow> db \<Rightarrow> bool" where
  "audited d d' \<longleftrightarrow> (\<exists>r. INSERT_audit r d = Inr d')"

lemma logged_audited: "logged k ev a p d d' \<Longrightarrow> audited\<^sup>*\<^sup>* d d'"
  unfolding logged_def by (metis audited_def r_into_rtranclp rtranclp.rtrancl_refl)

lemma Record_audited: "audited\<^sup>*\<^sup>* (w_db w) (w_db (AuditService_Record k ev a p w))"
  by (rule logged_audited) (rule Record_logged)

lemma record_superseded_audited: "audited\<^sup>*\<^sup>* (w_db w) (w_db (record_superseded sids flt n w))"
proof (induction sids arbitrary: w)
  case (Cons sid sids)
  from rtranclp_trans [OF Record_audited Cons.IH] show ?case by simp
qed simp

definition active_ids :: "string \<Rightarrow> db \<Rightarrow> WillID list" where
  "active_ids flt d = map wr_id (filter (active_of flt) (will_t d))"

lemma WillService_CreateDraft_effect:
  assumes "WillService_CreateDraft testator req w = (res, w')"
  shows "(w_db w' = w_db w \<and> isl res) \<or>
    (\<exists>will d. ValidateVault (rq_VaultCiphertext req) (rq_VaultNonce req) (rq_VaultAlg req) = None \<and>
       Testator will = testator \<and> Status will = WillStatusDraft \<and> \<not> IsCodicil will \<and>
       ParentWillID will = None \<and> AuditNote will = ''created draft'' \<and> carries will req \<and>
       exec_all (draft_stmts will (active_ids (RealMeFLT testator) (w_db w))) (w_db w) = Inr d \<and>
       audited\<^sup>*\<^sup>* d (w_db w') \<and> (\<forall>k. res = Inr k \<longrightarrow> Will_ID will = k))"
proof (cases "ValidateVault (rq_VaultCiphertext req) (rq_VaultNonce req) (rq_VaultAlg req)")
  case (Some e)
  with assms show ?thesis by (auto simp: WillService_CreateDraft_def)
next
  case vault: None
  obtain k w1 where 1: "newWillID w = (k, w1)" by fastforce
  obtain will w2 where 2: "buildWill k testator req False None w1 = (will, w2)" by fastforce
  obtain sup e w3 where 3: "FindActiveByTestatorFLT (RealMeFLT testator) w2 = ((sup, e), w3)"
    by (metis surj_pair)
  have db: "w_db w1 = w_db w" "w_db w2 = w_db w" "w_db w3 = w_db w"
    using newID_keeps(1) [OF 1] buildWill_keeps [OF 2] FindActive_frame(1) [of "RealMeFLT testator" w2]
    by (simp_all add: 3)
  show ?thesis
  proof (cases e)
    case (Some x)
    with assms vault 1 2 3 db show ?thesis by (auto simp: WillService_CreateDraft_def)
  next
    case None
    with 3 db have sup: "sup = active_ids (RealMeFLT testator) (w_db w)"
      unfolding active_ids_def by (auto dest: FindActive_None)
    obtain e4 w4 where 4: "WillRepo_CreateDraft will sup w3 = (e4, w4)" by fastforce
    from CreateDraft_effect [OF 4] db have eff:
      "(w_db w4 = w_db w \<and> e4 \<noteq> None) \<or> exec_all (draft_stmts will sup) (w_db w) = Inr (w_db w4)"
      by simp
    have "audited\<^sup>*\<^sup>* (w_db w4) (w_db w') \<and> (e4 \<noteq> None \<longrightarrow> w' = w4 \<and> isl res) \<and> (\<forall>i. res = Inr i \<longrightarrow> i = k)"
      using assms vault 1 2 3 4 None rtranclp_trans [OF Record_audited record_superseded_audited]
      by (auto simp: WillService_CreateDraft_def Let_def split: option.splits)
    with eff sup vault buildWill_carries [OF 2] buildWill_note [OF 2] show ?thesis
      by (rule_tac buildWill_cases [OF 2]) blast
  qed
qed

lemma CreateCodicil_effect:
  assumes "WillService_CreateCodicil parent testator req w = (res, w')"
  shows "(w_db w' = w_db w \<and> isl res) \<or>
    (\<exists>r will d. find_will parent (w_db w) = Some r \<and> wr_status r = ''locked'' \<and>
       wr_testator_flt r = RealMeFLT testator \<and>
       ValidateVault (rq_VaultCiphertext req) (rq_VaultNonce req) (rq_VaultAlg req) = None \<and>
       Testator will = testator \<and> Status will = WillStatusDraft \<and> IsCodicil will \<and>
       ParentWillID will = Some parent \<and> carries will req \<and>
       exec_all (draft_stmts will []) (w_db w) = Inr d \<and>
       audited\<^sup>*\<^sup>* d (w_db w') \<and> (\<forall>k. res = Inr k \<longrightarrow> Will_ID will = k))"
  using assms unfolding WillService_CreateCodicil_def
proof (rule with_will [where fail = Inl], goal_cases)
  case (2 parent' r w1)
  show ?case
  proof (cases "wr_status r = ''locked'' \<and> wr_testator_flt r = RealMeFLT testator \<and>
      ValidateVault (rq_VaultCiphertext req) (rq_VaultNonce req) (rq_VaultAlg req) = None")
    case False
    with 2 show ?thesis by (auto simp: status_reads split: if_splits option.splits)
  next
    case ok: True
    obtain k w2 where k: "newWillID w1 = (k, w2)" by fastforce
    obtain will w3 where b: "buildWill k testator req True (Some parent) w2 = (will, w3)" by fastforce
    have db: "w_db w3 = w_db w" using newID_keeps(1) [OF k] buildWill_keeps [OF b] 2 by simp
    define will' where "will' = will\<lparr>AuditNote := ''codicil to '' @ parent\<rparr>"
    obtain e4 w4 where d: "WillRepo_CreateDraft will' [] w3 = (e4, w4)" by fastforce
    from CreateDraft_effect [OF d] db have eff:
      "(w_db w4 = w_db w \<and> e4 \<noteq> None) \<or> exec_all (draft_stmts will' []) (w_db w) = Inr (w_db w4)"
      by simp
    have "audited\<^sup>*\<^sup>* (w_db w4) (w_db w') \<and> (e4 \<noteq> None \<longrightarrow> w' = w4 \<and> isl res) \<and> (\<forall>i. res = Inr i \<longrightarrow> i = k)"
      using 2 ok k b d rtranclp_trans [OF Record_audited Record_audited]
      by (auto simp: status_reads Let_def will'_def split: option.splits)
    moreover have "Testator will' = testator" "Status will' = WillStatusDraft" "IsCodicil will'"
      "ParentWillID will' = Some parent" "Will_ID will' = k"
      by (rule buildWill_cases [OF b], simp add: will'_def)+
    moreover have "carries will' req" using buildWill_carries [OF b] by (simp add: carries_def will'_def)
    ultimately show ?thesis using eff ok 2 by blast
  qed
qed auto

section \<open>Identifiers are version-4 UUIDs and do not collide by construction\<close>

lemma length_uuid_bytes [simp]: "length (uuid_bytes b) = length b"
  by (simp add: uuid_bytes_def Let_def)

lemma length_16:
  assumes "length b = 16"
  obtains b0 b1 b2 b3 b4 b5 b6 b7 b8 b9 ba bb bc bd be bf where
    "b = [b0, b1, b2, b3, b4, b5, b6, b7, b8, b9, ba, bb, bc, bd, be, bf]"
  using assms by (auto simp: numeral_eq_Suc length_Suc_conv)

lemma length_rand_Read [simp]: "length (fst (rand_Read n w)) = n"
  by (simp add: rand_Read_def)

lemma uuid_text_groups:
  assumes "length b = 16" "length c = 16"
  shows "uuid_text b = uuid_text c \<longleftrightarrow> b = c"
proof -
  from assms(1) obtain b0 b1 b2 b3 b4 b5 b6 b7 b8 b9 ba bb bc bd be bf where
    b: "b = [b0, b1, b2, b3, b4, b5, b6, b7, b8, b9, ba, bb, bc, bd, be, bf]" by (rule length_16)
  from assms(2) obtain c0 c1 c2 c3 c4 c5 c6 c7 c8 c9 ca cb cc cd ce cf where
    c: "c = [c0, c1, c2, c3, c4, c5, c6, c7, c8, c9, ca, cb, cc, cd, ce, cf]" by (rule length_16)
  show ?thesis
    by (simp add: b c uuid_text_def append_eq_append_conv)
qed

lemma newWillID_length: "length (fst (newWillID w)) = 36"
  by (simp add: newWillID_def uuid_text_def split: prod.splits)
    (simp add: rand_Read_def)

lemma uuid_version: "drop_bit 4 ((x AND 0x0f) OR 0x40 :: 8 word) = 4"
proof (rule bit_word_eqI)
  fix n assume "n < LENGTH(8)"
  then have "n \<in> {0,1,2,3,4,5,6,7}" by auto
  then show "bit (drop_bit 4 ((x AND 0x0f) OR 0x40 :: 8 word)) n = bit (4 :: 8 word) n"
    by (auto simp: bit_simps)
qed

lemma uuid_variant: "drop_bit 6 ((x AND 0x3f) OR 0x80 :: 8 word) = 2"
proof (rule bit_word_eqI)
  fix n assume "n < LENGTH(8)"
  then have "n \<in> {0,1,2,3,4,5,6,7}" by auto
  then show "bit (drop_bit 6 ((x AND 0x3f) OR 0x80 :: 8 word)) n = bit (2 :: 8 word) n"
    by (auto simp: bit_simps)
qed

lemma hex_digits:
  "hex_digit 4 = CHR ''4''" "hex_digit 8 = CHR ''8''" "hex_digit 9 = CHR ''9''"
  "hex_digit 10 = CHR ''a''" "hex_digit 11 = CHR ''b''" "unat (4 :: 8 word) = 4"
  by code_simp+

lemma hex_byte_high: "hex_byte b ! 0 = hex_digit (unat (drop_bit 4 b))"
  by (simp add: hex_byte_def drop_bit_eq_div unat_div)

lemma uuid_version_digit: "hex_byte ((x AND 0x0f) OR 0x40) ! 0 = CHR ''4''"
  by (simp only: hex_byte_high uuid_version) (simp add: hex_digits)

lemma uuid_variant_digit: "hex_byte ((x AND 0x3f) OR 0x80) ! 0 \<in> set ''89ab''"
proof -
  let ?y = "(x AND 0x3f) OR 0x80 :: 8 word"
  have "drop_bit 2 (drop_bit 4 ?y) = 2" using uuid_variant [of x] by (simp add: drop_bit_drop_bit)
  then have "unat (drop_bit 2 (drop_bit 4 ?y)) = unat (2 :: 8 word)" by simp
  then have "unat (drop_bit 4 ?y) div 4 = 2" by (simp only: unat_drop_bit_eq) (simp add: drop_bit_eq_div unat_div)
  then have "unat (drop_bit 4 ?y) = 8 \<or> unat (drop_bit 4 ?y) = 9 \<or> unat (drop_bit 4 ?y) = 10 \<or>
      unat (drop_bit 4 ?y) = 11"
    by linarith
  then show ?thesis unfolding hex_byte_high by (elim disjE) (simp_all only: hex_digits, simp_all)
qed

lemma newWillID_version: "fst (newWillID w) ! 14 = CHR ''4''"
  and newWillID_variant: "fst (newWillID w) ! 19 \<in> set ''89ab''"
proof -
  have len: "length (map (w_rand w) [0..<16]) = 16" by simp
  then obtain b0 b1 b2 b3 b4 b5 b6 b7 b8 b9 ba bb bc bd be bf where b: "map (w_rand w) [0..<16] =
      [b0, b1, b2, b3, b4, b5, b6, b7, b8, b9, ba, bb, bc, bd, be, bf]" by (rule length_16)
  have hd: "hex_byte x = [hex_byte x ! 0, hex_byte x ! 1]" for x by (simp add: hex_byte_def)
  have id: "fst (newWillID w) = hex_bytes [b0, b1, b2, b3] @ ''-'' @ hex_bytes [b4, b5] @ ''-'' @
      hex_bytes [(b6 AND 0x0f) OR 0x40, b7] @ ''-'' @ hex_bytes [(b8 AND 0x3f) OR 0x80, b9] @ ''-'' @
      hex_bytes [ba, bb, bc, bd, be, bf]"
    by (simp add: newWillID_def rand_Read_def b uuid_text_def uuid_bytes_def Let_def)
  have "fst (newWillID w) ! 14 = hex_byte ((b6 AND 0x0f) OR 0x40) ! 0"
    unfolding id by (simp add: nth_append)
  then show "fst (newWillID w) ! 14 = CHR ''4''" by (simp only: uuid_version_digit)
  have "fst (newWillID w) ! 19 = hex_byte ((b8 AND 0x3f) OR 0x80) ! 0"
    unfolding id by (simp add: nth_append)
  then show "fst (newWillID w) ! 19 \<in> set ''89ab''" by (simp only: uuid_variant_digit)
qed

lemma newWillID_hyphens: "map ((!) (fst (newWillID w))) [8, 13, 18, 23] = ''----''"
  by (simp add: newWillID_def rand_Read_def uuid_text_def nth_append split: prod.splits)

text \<open>
  Two will identifiers agree exactly when the random bytes agree, of byte 6 the low four and of
  byte 8 the low six bits.
\<close>

lemma masked_low_4: "(x AND 0x0f) OR 0x40 = (y AND 0x0f) OR (0x40 :: 8 word) \<longleftrightarrow> take_bit 4 x = take_bit 4 y"
proof
  have low: "take_bit 4 ((z AND 0x0f) OR 0x40 :: 8 word) = take_bit 4 z" for z
  proof (rule bit_word_eqI)
    fix n assume "n < LENGTH(8)"
    then have "n \<in> {0,1,2,3,4,5,6,7}" by auto
    then show "bit (take_bit 4 ((z AND 0x0f) OR 0x40 :: 8 word)) n = bit (take_bit 4 z) n"
      by (auto simp: bit_simps)
  qed
  assume "(x AND 0x0f) OR 0x40 = (y AND 0x0f) OR (0x40 :: 8 word)"
  then show "take_bit 4 x = take_bit 4 y" by (metis low)
next
  have mask: "z AND 0x0f = take_bit 4 z" for z :: "8 word"
    by (simp add: take_bit_eq_mask mask_eq_exp_minus_1)
  assume "take_bit 4 x = take_bit 4 y"
  then show "(x AND 0x0f) OR 0x40 = (y AND 0x0f) OR (0x40 :: 8 word)" by (simp add: mask)
qed

lemma masked_low_6: "(x AND 0x3f) OR 0x80 = (y AND 0x3f) OR (0x80 :: 8 word) \<longleftrightarrow> take_bit 6 x = take_bit 6 y"
proof
  have low: "take_bit 6 ((z AND 0x3f) OR 0x80 :: 8 word) = take_bit 6 z" for z
  proof (rule bit_word_eqI)
    fix n assume "n < LENGTH(8)"
    then have "n \<in> {0,1,2,3,4,5,6,7}" by auto
    then show "bit (take_bit 6 ((z AND 0x3f) OR 0x80 :: 8 word)) n = bit (take_bit 6 z) n"
      by (auto simp: bit_simps)
  qed
  assume "(x AND 0x3f) OR 0x80 = (y AND 0x3f) OR (0x80 :: 8 word)"
  then show "take_bit 6 x = take_bit 6 y" by (metis low)
next
  have mask: "z AND 0x3f = take_bit 6 z" for z :: "8 word"
    by (simp add: take_bit_eq_mask mask_eq_exp_minus_1)
  assume "take_bit 6 x = take_bit 6 y"
  then show "(x AND 0x3f) OR 0x80 = (y AND 0x3f) OR (0x80 :: 8 word)" by (simp add: mask)
qed

lemma uuid_bytes_eq_iff:
  assumes "length b = 16" "length c = 16"
  shows "uuid_bytes b = uuid_bytes c \<longleftrightarrow> take 6 b = take 6 c \<and> take_bit 4 (b ! 6) = take_bit 4 (c ! 6) \<and>
    b ! 7 = c ! 7 \<and> take_bit 6 (b ! 8) = take_bit 6 (c ! 8) \<and> drop 9 b = drop 9 c"
proof -
  from assms(1) obtain b0 b1 b2 b3 b4 b5 b6 b7 b8 b9 ba bb bc bd be bf where
    b: "b = [b0, b1, b2, b3, b4, b5, b6, b7, b8, b9, ba, bb, bc, bd, be, bf]" by (rule length_16)
  from assms(2) obtain c0 c1 c2 c3 c4 c5 c6 c7 c8 c9 ca cb cc cd ce cf where
    c: "c = [c0, c1, c2, c3, c4, c5, c6, c7, c8, c9, ca, cb, cc, cd, ce, cf]" by (rule length_16)
  show ?thesis
    unfolding b c uuid_bytes_def Let_def by (simp add: masked_low_4 masked_low_6 conj_ac)
qed

lemma newWillID_eq_iff:
  assumes "b = fst (rand_Read 16 w)" "c = fst (rand_Read 16 w')"
  shows "fst (newWillID w) = fst (newWillID w') \<longleftrightarrow> take 6 b = take 6 c \<and> take_bit 4 (b ! 6) = take_bit 4 (c ! 6) \<and>
    b ! 7 = c ! 7 \<and> take_bit 6 (b ! 8) = take_bit 6 (c ! 8) \<and> drop 9 b = drop 9 c"
proof -
  have "fst (newWillID w) = fst (newWillID w') \<longleftrightarrow> uuid_bytes b = uuid_bytes c"
    by (simp add: newWillID_def assms uuid_text_groups split: prod.splits)
      (metis fst_conv length_rand_Read length_uuid_bytes uuid_text_groups)
  then show ?thesis by (simp add: uuid_bytes_eq_iff assms)
qed

lemma newChildID_eq_iff:
  assumes "length k = length k'" "CHR '':'' \<notin> set kind" "CHR '':'' \<notin> set kind'"
  shows "fst (newChildID k kind w) = fst (newChildID k' kind' w') \<longleftrightarrow>
    k = k' \<and> kind = kind' \<and> fst (rand_Read 4 w) = fst (rand_Read 4 w')"
  using assms
  by (auto simp: newChildID_def rand_Read_def split_at_bar simp del: map_eq_conv)

end
