(* ===== verification/Registry_Spec.thy ===== *)
theory Registry_Spec
  imports Will_Service
begin

text \<open>
  The abstract will registry: what the services together may do to the database, as one labelled
  step relation whose rules carry the guards the Wills Act asks for, and the invariants every
  reachable database has.  The operations of \<^theory_text>\<open>Will_Service\<close> refine it: each call is a run of
  such steps, whatever the environment does.
\<close>

section \<open>The statements of the draft transaction\<close>

lemma exec_clauses:
  "exec_all (map (\<lambda>c. INSERT_clause (f c)) cs) d = Inr d' \<Longrightarrow>
     d' = d\<lparr>clause_t := clause_t d @ map f cs\<rparr> \<and> (\<forall>c \<in> set cs. cr_will_id (f c) \<in> will_ids d)"
proof (induction cs arbitrary: d)
  case (Cons c cs)
  then obtain d1 where 1: "INSERT_clause (f c) d = Inr d1"
      and 2: "exec_all (map (\<lambda>c. INSERT_clause (f c)) cs) d1 = Inr d'"
    by (auto split: sum.splits)
  from 1 have "d1 = d\<lparr>clause_t := clause_t d @ [f c]\<rparr>" "cr_will_id (f c) \<in> will_ids d"
    by (auto simp: INSERT_clause_def sql_insert_def split: if_splits)
  with Cons.IH [OF 2] show ?case by (simp add: will_ids_def)
qed simp

lemma exec_beneficiaries:
  "exec_all (map (\<lambda>b. INSERT_beneficiary (f b)) bs) d = Inr d' \<Longrightarrow>
     d' = d\<lparr>beneficiary_t := beneficiary_t d @ map f bs\<rparr> \<and> (\<forall>b \<in> set bs. br_will_id (f b) \<in> will_ids d)"
proof (induction bs arbitrary: d)
  case (Cons b bs)
  then obtain d1 where 1: "INSERT_beneficiary (f b) d = Inr d1"
      and 2: "exec_all (map (\<lambda>b. INSERT_beneficiary (f b)) bs) d1 = Inr d'"
    by (auto split: sum.splits)
  from 1 have "d1 = d\<lparr>beneficiary_t := beneficiary_t d @ [f b]\<rparr>" "br_will_id (f b) \<in> will_ids d"
    by (auto simp: INSERT_beneficiary_def sql_insert_def split: if_splits)
  with Cons.IH [OF 2] show ?case by (simp add: will_ids_def)
qed simp

lemma exec_executors:
  "exec_all (map (\<lambda>x. INSERT_executor (f x)) xs) d = Inr d' \<Longrightarrow>
     d' = d\<lparr>executor_t := executor_t d @ map f xs\<rparr> \<and> (\<forall>x \<in> set xs. er_will_id (f x) \<in> will_ids d)"
proof (induction xs arbitrary: d)
  case (Cons x xs)
  then obtain d1 where 1: "INSERT_executor (f x) d = Inr d1"
      and 2: "exec_all (map (\<lambda>x. INSERT_executor (f x)) xs) d1 = Inr d'"
    by (auto split: sum.splits)
  from 1 have "d1 = d\<lparr>executor_t := executor_t d @ [f x]\<rparr>" "er_will_id (f x) \<in> will_ids d"
    by (auto simp: INSERT_executor_def sql_insert_def split: if_splits)
  with Cons.IH [OF 2] show ?case by (simp add: will_ids_def)
qed simp

definition superseding :: "WillID \<Rightarrow> WillID list \<Rightarrow> will_row \<Rightarrow> will_row" where
  "superseding n sids r = (if wr_id r \<in> set sids then supersede_row n r else r)"

lemma exec_supersede:
  "exec_all (map (UPDATE_supersede n) sids) d = Inr d' \<Longrightarrow>
     d' = d\<lparr>will_t := map (superseding n sids) (will_t d)\<rparr>"
proof (induction sids arbitrary: d)
  case Nil
  then show ?case by (simp add: superseding_def)
next
  case (Cons s sids)
  then obtain d1 where 1: "UPDATE_supersede n s d = Inr d1"
      and 2: "exec_all (map (UPDATE_supersede n) sids) d1 = Inr d'"
    by (auto split: sum.splits)
  from 1 have "d1 = upd_will s (supersede_row n) d"
    by (auto simp: UPDATE_supersede_def split: if_splits)
  with Cons.IH [OF 2] show ?case
    by (auto simp: upd_will_def sql_update_def superseding_def supersede_row_def)
qed

text \<open>The whole transaction, table by table.\<close>

lemma INSERT_will_Inr:
  "INSERT_will r d = Inr d' \<longleftrightarrow> in_int32 (wr_vault_unlock_delay_days r) \<and> wr_id r \<notin> will_ids d \<and>
     ref_ok (wr_parent_will_id r) (will_ids d) \<and> ref_ok (wr_superseded_by r) (will_ids d) \<and>
     d' = d\<lparr>will_t := will_t d @ [r]\<rparr>"
  by (auto simp: INSERT_will_def sql_insert_def will_ids_def)

lemma draft_effect:
  assumes "exec_all (draft_stmts will sids) d = Inr d'" and "set sids \<subseteq> will_ids d"
  shows "d' = d\<lparr>will_t := map (superseding (Will_ID will) sids) (will_t d) @ [will_row_of will],
      clause_t := clause_t d @ map (clause_row_of will) (Clauses will),
      beneficiary_t := beneficiary_t d @ map (beneficiary_row_of will) (Beneficiaries will),
      executor_t := executor_t d @ map (executor_row_of will) (Executors will)\<rparr>"
    and "Will_ID will \<notin> will_ids d" and "ref_ok (ParentWillID will) (will_ids d)"
proof -
  from assms(1) obtain d1 d2 d3 d4 where
    1: "INSERT_will (will_row_of will) d = Inr d1" and
    2: "exec_all (map (\<lambda>c. INSERT_clause (clause_row_of will c)) (Clauses will)) d1 = Inr d2" and
    3: "exec_all (map (\<lambda>b. INSERT_beneficiary (beneficiary_row_of will b)) (Beneficiaries will)) d2 = Inr d3" and
    4: "exec_all (map (\<lambda>x. INSERT_executor (executor_row_of will x)) (Executors will)) d3 = Inr d4" and
    5: "exec_all (map (UPDATE_supersede (Will_ID will)) sids) d4 = Inr d'"
    by (auto simp: draft_stmts_def exec_all_append split: sum.splits)
  from 1 show fresh: "Will_ID will \<notin> will_ids d" and "ref_ok (ParentWillID will) (will_ids d)"
    by (auto simp: INSERT_will_Inr will_row_of_def)
  have "superseding (Will_ID will) sids (will_row_of will) = will_row_of will"
    using fresh assms(2) by (auto simp: superseding_def will_row_of_def)
  then show "d' = d\<lparr>will_t := map (superseding (Will_ID will) sids) (will_t d) @ [will_row_of will],
      clause_t := clause_t d @ map (clause_row_of will) (Clauses will),
      beneficiary_t := beneficiary_t d @ map (beneficiary_row_of will) (Beneficiaries will),
      executor_t := executor_t d @ map (executor_row_of will) (Executors will)\<rparr>"
    using exec_clauses [OF 2] exec_beneficiaries [OF 3] exec_executors [OF 4] exec_supersede [OF 5] 1
    by (simp add: INSERT_will_Inr)
qed

lemma active_ids_subset [simp]: "set (active_ids flt d) \<subseteq> will_ids d"
  by (auto simp: active_ids_def will_ids_def)

section \<open>The step relation\<close>

datatype action =
    ActDraft Will
  | ActCodicil Will
  | ActTestatorSigned WillID string gotime string
  | ActWitnessSigned witness_row
  | ActLocked WillID gotime
  | ActDeathNotified WillID gotime gotime
  | ActUnlockedAtNotice WillID gotime
  | ActUnlocked WillID gotime
  | ActConfirmed WillID string gotime
  | ActReminded WillID gotime
  | ActAssetAdded string asset_row
  | ActPropertyAdded string property_row
  | ActLogged audit_row

inductive registry :: "action \<Rightarrow> db \<Rightarrow> db \<Rightarrow> bool" where
  drafted: "exec_all (draft_stmts will (active_ids (RealMeFLT (Testator will)) d)) d = Inr d' \<Longrightarrow>
    Status will = WillStatusDraft \<Longrightarrow> \<not> IsCodicil will \<Longrightarrow> ParentWillID will = None \<Longrightarrow>
    registry (ActDraft will) d d'"
| codicil: "exec_all (draft_stmts will []) d = Inr d' \<Longrightarrow>
    Status will = WillStatusDraft \<Longrightarrow> IsCodicil will \<Longrightarrow> ParentWillID will = Some p \<Longrightarrow>
    find_will p d = Some r \<Longrightarrow> wr_status r = ''locked'' \<Longrightarrow>
    wr_testator_flt r = RealMeFLT (Testator will) \<Longrightarrow>
    registry (ActCodicil will) d d'"
| testator_signed: "find_will k d = Some r \<Longrightarrow> wr_status r = ''draft'' \<Longrightarrow> wr_testator_flt r = flt \<Longrightarrow>
    registry (ActTestatorSigned k flt t h) d (upd_will k (signed_row (t, h)) d)"
| witness_signed: "find_will (wsr_will_id s) d = Some r \<Longrightarrow> wr_status r = ''draft'' \<Longrightarrow>
    wr_testator_flt r \<noteq> wsr_flt s \<Longrightarrow> wr_testator_signed_at r \<noteq> None \<Longrightarrow>
    INSERT_witness s d = Inr d' \<Longrightarrow>
    registry (ActWitnessSigned s) d d'"
| locked: "find_will k d = Some r \<Longrightarrow> wr_status r = ''draft'' \<Longrightarrow> wr_testator_signed_at r \<noteq> None \<Longrightarrow>
    2 \<le> length (sql_where wsr_will_id k (witness_t d)) \<Longrightarrow>
    registry (ActLocked k t) d (upd_will k (status_row (WillStatusLocked, Some t, None)) d)"
| death_notified: "find_will k d = Some r \<Longrightarrow> wr_status r = ''locked'' \<Longrightarrow>
    registry (ActDeathNotified k t u) d (upd_will k (death_row (t, u)) d)"
| unlocked_at_notice: "find_will k d = Some r \<Longrightarrow> wr_status r = ''locked'' \<Longrightarrow>
    registry (ActUnlockedAtNotice k t) d
      (upd_will k (status_row (WillStatusUnlockedDead, None, Some t)) d)"
| unlocked: "find_will k d = Some r \<Longrightarrow> wr_status r = ''death_notified'' \<Longrightarrow>
    (\<forall>u. wr_unlock_after r = Some u \<longrightarrow> u \<le> t) \<Longrightarrow>
    registry (ActUnlocked k t) d (upd_will k (status_row (WillStatusUnlockedDead, None, Some t)) d)"
| confirmed: "find_will k d = Some r \<Longrightarrow> wr_testator_flt r = flt \<Longrightarrow>
    wr_status r \<noteq> ''superseded'' \<Longrightarrow> wr_status r \<noteq> ''unlocked_at_death'' \<Longrightarrow>
    registry (ActConfirmed k flt t) d (upd_will k (confirmed_row t) d)"
| reminded: "registry (ActReminded k t) d (upd_will k (reminded_row t) d)"
| asset_added: "find_will (dr_will_id a) d = Some r \<Longrightarrow> wr_status r = ''draft'' \<Longrightarrow>
    wr_testator_flt r = flt \<Longrightarrow> INSERT_asset a d = Inr d' \<Longrightarrow>
    registry (ActAssetAdded flt a) d d'"
| property_added: "find_will (pr_will_id a) d = Some r \<Longrightarrow> wr_status r = ''draft'' \<Longrightarrow>
    wr_testator_flt r = flt \<Longrightarrow> INSERT_property a d = Inr d' \<Longrightarrow>
    registry (ActPropertyAdded flt a) d d'"
| logs: "INSERT_audit a d = Inr d' \<Longrightarrow> registry (ActLogged a) d d'"

definition reg_step :: "db \<Rightarrow> db \<Rightarrow> bool" where
  "reg_step d d' \<longleftrightarrow> (\<exists>a. registry a d d')"

text \<open>
  What one call may do: at most one action of the registry, one that \<open>P\<close> allows, and entries of the
  log after it.
\<close>

definition takes :: "(action \<Rightarrow> bool) \<Rightarrow> db \<Rightarrow> db \<Rightarrow> bool" where
  "takes P d d' \<longleftrightarrow> (\<exists>d1. (d1 = d \<or> (\<exists>a. P a \<and> registry a d d1)) \<and> audited\<^sup>*\<^sup>* d1 d')"

lemma takes_refl [simp, step_intro]: "takes P d d"
  by (auto simp: takes_def)

lemma takes_mono: "takes P d d' \<Longrightarrow> (\<And>a. P a \<Longrightarrow> Q a) \<Longrightarrow> takes Q d d'"
  unfolding takes_def by blast

lemma takes_logs: "registry a d d1 \<Longrightarrow> audited\<^sup>*\<^sup>* d1 d' \<Longrightarrow> P a \<Longrightarrow> takes P d d'"
  unfolding takes_def by blast

lemma takes_log: "registry a d d1 \<Longrightarrow> logged k ev x p d1 d' \<Longrightarrow> P a \<Longrightarrow> takes P d d'"
  by (rule takes_logs) (auto dest: logged_audited)

lemma takes_one [step_intro]: "registry a d d' \<Longrightarrow> P a \<Longrightarrow> takes P d d'"
  by (rule takes_logs) auto

lemma audited_steps: "audited\<^sup>*\<^sup>* d d' \<Longrightarrow> reg_step\<^sup>*\<^sup>* d d'"
  unfolding reg_step_def audited_def
  by (erule rtranclp_mono [THEN predicate2D, rotated]) (blast intro: registry.logs)

lemma takes_steps: "takes P d d' \<Longrightarrow> reg_step\<^sup>*\<^sup>* d d'"
  unfolding takes_def by (metis audited_steps converse_rtranclp_into_rtranclp reg_step_def)

text \<open>Whatever the allowed actions and the log keep, a call keeps.\<close>

lemma takes_keeps:
  assumes "takes P d d'" "I d" "\<And>a d d'. registry a d d' \<Longrightarrow> P a \<or> (\<exists>r. a = ActLogged r) \<Longrightarrow> I d \<Longrightarrow> I d'"
  shows "I d'"
proof -
  obtain d1 where d1: "d1 = d \<or> (\<exists>a. P a \<and> registry a d d1)" "audited\<^sup>*\<^sup>* d1 d'"
    using assms(1) by (auto simp: takes_def)
  then have "I d1" using assms(2,3) by blast
  with d1(2) show ?thesis
    by (induction rule: rtranclp_induct) (auto simp: audited_def intro: assms(3) registry.logs)
qed

section \<open>Every service call takes its own action only\<close>

lemma row_of_simps [simp]:
  "wsr_will_id (witness_row_of k h t c) = k" "wsr_flt (witness_row_of k h t c) = RealMeFLT c"
  "dr_will_id (asset_row_of a) = DA_WillID a" "pr_will_id (property_row_of p) = PC_WillID p"
  by (simp_all add: witness_row_of_def asset_row_of_def property_row_of_def)

lemma CreateDraft_refines:
  "takes (\<lambda>a. \<exists>will. a = ActDraft will \<and> Testator will = c \<and> carries will req)
     (w_db w) (w_db (snd (WillService_CreateDraft c req w)))"
proof -
  obtain res w' where op: "WillService_CreateDraft c req w = (res, w')" by fastforce
  from WillService_CreateDraft_effect [OF op] show ?thesis
    unfolding op snd_conv
  proof (elim disjE exE conjE)
    fix will d
    assume a: "Testator will = c" "Status will = WillStatusDraft" "\<not> IsCodicil will" "ParentWillID will = None"
      "AuditNote will = ''created draft''" "carries will req"
      "exec_all (draft_stmts will (active_ids (RealMeFLT c) (w_db w))) (w_db w) = Inr d"
      "audited\<^sup>*\<^sup>* d (w_db w')"
    then have "registry (ActDraft will) (w_db w) d" by (intro registry.drafted) auto
    from takes_logs [OF this a(8)] show "takes (\<lambda>a. \<exists>will. a = ActDraft will \<and> Testator will = c \<and> carries will req)
       (w_db w) (w_db w')" using a(1,6) by simp
  qed simp
qed

lemma CreateCodicil_refines:
  "takes (\<lambda>a. \<exists>will. a = ActCodicil will \<and> Testator will = c \<and> ParentWillID will = Some k \<and> carries will req)
     (w_db w) (w_db (snd (WillService_CreateCodicil k c req w)))"
proof -
  obtain res w' where op: "WillService_CreateCodicil k c req w = (res, w')" by fastforce
  from CreateCodicil_effect [OF op] show ?thesis
    unfolding op snd_conv
  proof (elim disjE exE conjE)
    fix r will d
    assume a: "find_will k (w_db w) = Some r" "wr_status r = ''locked''" "wr_testator_flt r = RealMeFLT c"
      "Testator will = c" "Status will = WillStatusDraft" "IsCodicil will" "ParentWillID will = Some k"
      "carries will req" "exec_all (draft_stmts will []) (w_db w) = Inr d" "audited\<^sup>*\<^sup>* d (w_db w')"
    then have "registry (ActCodicil will) (w_db w) d" by (intro registry.codicil) auto
    from takes_logs [OF this a(10)] show "takes (\<lambda>a. \<exists>will. a = ActCodicil will \<and>
        Testator will = c \<and> ParentWillID will = Some k \<and> carries will req) (w_db w) (w_db w')" using a(4,7,8) by simp
  qed simp
qed

lemma SignTestator_refines:
  "takes (\<lambda>a. \<exists>t. a = ActTestatorSigned k (RealMeFLT c) t h)
     (w_db w) (w_db (snd (WillService_SignTestator k c h w)))"
  using SignTestator_effect [of k c h w]
  by (cases "WillService_SignTestator k c h w")
    (auto intro: takes_log registry.testator_signed)

lemma INSERT_witness_Inr:
  "INSERT_witness s d = Inr d' \<longleftrightarrow> wsr_id s \<notin> wsr_id ` set (witness_t d) \<and> wsr_will_id s \<in> will_ids d \<and>
     d' = d\<lparr>witness_t := witness_t d @ [s]\<rparr>"
  by (auto simp: INSERT_witness_def sql_insert_def)

lemma witness_step:
  "find_will k d = Some r \<Longrightarrow> wr_status r = ''draft'' \<Longrightarrow> wr_testator_flt r \<noteq> RealMeFLT c \<Longrightarrow>
     wr_testator_signed_at r \<noteq> None \<Longrightarrow> INSERT_witness (witness_row_of k h t c) d = Inr d' \<Longrightarrow>
     registry (ActWitnessSigned (witness_row_of k h t c)) d d'"
  by (rule registry.witness_signed) auto

lemma SignWitness_refines:
  "takes (\<lambda>a. \<exists>t. a = ActWitnessSigned (witness_row_of k h t c))
     (w_db w) (w_db (snd (WillService_SignWitness k c h w)))"
  using SignWitness_effect [of k c h w]
  by (cases "WillService_SignWitness k c h w")
    (auto intro: takes_log witness_step)

lemma Lock_refines:
  "takes (\<lambda>a. a = ActLocked k t) (w_db w) (w_db (snd (WillService_Lock k t w)))"
  using Lock_effect [of k t w]
  by (cases "WillService_Lock k t w")
    (auto intro: takes_log registry.locked simp: signatures_of_def)

lemma NotifyDeath_refines:
  "takes (\<lambda>a. if n = 0 then a = ActUnlockedAtNotice k t
       else a = ActDeathNotified k t (time_AddDays t n))
     (w_db w) (w_db (snd (WillService_NotifyDeath k n t w)))"
  using NotifyDeath_effect [of k n t w]
  by (cases "WillService_NotifyDeath k n t w")
    (auto intro: takes_log registry.death_notified registry.unlocked_at_notice)

lemma CompleteUnlock_refines:
  "takes (\<lambda>a. a = ActUnlocked k t) (w_db w) (w_db (snd (WillService_CompleteUnlock k t w)))"
  using CompleteUnlock_effect [of k t w]
  by (cases "WillService_CompleteUnlock k t w")
    (auto intro: takes_log registry.unlocked)

lemma ConfirmLiveness_refines:
  "takes (\<lambda>a. \<exists>t. a = ActConfirmed k (RealMeFLT c) t)
     (w_db w) (w_db (snd (WillService_ConfirmLiveness k c w)))"
  using ConfirmLiveness_effect [of k c w]
  by (cases "WillService_ConfirmLiveness k c w")
    (auto intro: takes_log registry.confirmed)

lemma RecordLivenessReminder_refines:
  "takes (\<lambda>a. \<exists>t. a = ActReminded k t)
     (w_db w) (w_db (snd (WillService_RecordLivenessReminder k w)))"
  using RecordLivenessReminder_effect [of k w]
  by (cases "WillService_RecordLivenessReminder k w")
    (auto intro: takes_log registry.reminded)

lemma asset_step:
  "find_will k d = Some r \<Longrightarrow> wr_status r = ''draft'' \<Longrightarrow> DA_WillID a = k \<Longrightarrow>
     INSERT_asset (asset_row_of a) d = Inr d' \<Longrightarrow>
     registry (ActAssetAdded (wr_testator_flt r) (asset_row_of a)) d d'"
  by (rule registry.asset_added) auto

lemma property_step:
  "find_will k d = Some r \<Longrightarrow> wr_status r = ''draft'' \<Longrightarrow> PC_WillID a = k \<Longrightarrow>
     INSERT_property (property_row_of a) d = Inr d' \<Longrightarrow>
     registry (ActPropertyAdded (wr_testator_flt r) (property_row_of a)) d d'"
  by (rule registry.property_added) auto

lemma AddDigitalAssetClause_refines:
  "takes (\<lambda>act. \<exists>i. act = ActAssetAdded (RealMeFLT c) (asset_row_of (a\<lparr>DA_ID := i, DA_WillID := k\<rparr>)))
     (w_db w) (w_db (snd (WillService_AddDigitalAssetClause k c a w)))"
proof -
  obtain b e w' where op: "WillService_AddDigitalAssetClause k c a w = ((b, e), w')"
    by (metis surj_pair)
  from AddDigitalAssetClause_effect [OF op] have "w_db w' = w_db w \<or>
      (\<exists>r i. find_will k (w_db w) = Some r \<and> wr_status r = ''draft'' \<and> wr_testator_flt r = RealMeFLT c \<and>
        b = a\<lparr>DA_ID := i, DA_WillID := k\<rparr> \<and> INSERT_asset (asset_row_of b) (w_db w) = Inr (w_db w'))"
    by auto
  then show ?thesis
    unfolding op snd_conv
    by (elim disjE exE conjE) (simp, rule takes_one [OF asset_step], auto)
qed

lemma AddPropertyClause_refines:
  "takes (\<lambda>a. \<exists>p. ref = TitleReference p \<and> b = PC_BeneficiaryID p \<and>
       a = ActPropertyAdded (RealMeFLT c) (property_row_of p) \<and> PC_WillID p = k)
     (w_db w) (w_db (snd (WillService_AddPropertyClause v k c ref b w)))"
proof -
  obtain p e w' where op: "WillService_AddPropertyClause v k c ref b w = ((p, e), w')"
    by (metis surj_pair)
  from AddPropertyClause_effect [OF op] show ?thesis
    unfolding op snd_conv
    by (elim disjE exE conjE) (simp, rule takes_one [OF property_step], auto)
qed

lemma GetByID_unchanged [simp]: "w_db (snd (WillService_GetByID k w)) = w_db w"
  by (auto simp: WillService_GetByID_def dest!: GetAssets_keeps GetByID_fails GetByID_reads
      split: prod.splits sum.splits)

section \<open>Reading leaves the clock alone\<close>

lemma pool_clock [simp]:
  "w_clock (snd (pool_QueryRow q w)) = w_clock w" "w_clock (snd (pool_Query qs w)) = w_clock w"
  by (auto simp: pool_QueryRow_def pool_Query_def next_outcome_def split: outcome.splits option.splits)

lemma swallow_clock: "w_clock (snd (swallow res)) = w_clock (snd res)"
  by (auto simp: swallow_def split: prod.splits sum.splits)

lemma fetch_clock [simp]:
  "w_clock (snd (fetchClauses k w)) = w_clock w" "w_clock (snd (fetchBeneficiaries k w)) = w_clock w"
  "w_clock (snd (fetchExecutors k w)) = w_clock w" "w_clock (snd (fetchWitnessSignatures k w)) = w_clock w"
  by (simp_all add: fetch_defs swallow_clock)

lemma WillRepo_GetByID_clock [simp]: "w_clock (snd (WillRepo_GetByID k w)) = w_clock w"
  unfolding WillRepo_GetByID_def
  by (auto split: prod.splits sum.splits) (metis pool_clock(1) fetch_clock snd_conv)+

lemma WillService_GetByID_clock [simp]: "w_clock (snd (WillService_GetByID k w)) = w_clock w"
  unfolding WillService_GetByID_def GetDigitalAssetsByWillID_def GetPropertyClausesByWillID_def
  by (auto split: prod.splits sum.splits) (metis pool_clock(2) WillRepo_GetByID_clock snd_conv)+

end
