(* ===== verification/Registry_Invariants.thy ===== *)
theory Registry_Invariants
  imports Registry_Spec
begin

text \<open>
  What holds of every database the services can produce: unique keys, closed references, columns
  that agree with the lifecycle state, two witness signatures and a testator signature behind every
  locked will, no testator among their own witnesses, at most one active will per testator, and
  supersessions and codicils that never run in a circle.  Each invariant is kept by every rule
  of the step relation, so it is kept by every run.
\<close>

section \<open>Steps on the will table\<close>

lemma upd_will_tables [simp]:
  "clause_t (upd_will k f d) = clause_t d" "beneficiary_t (upd_will k f d) = beneficiary_t d"
  "executor_t (upd_will k f d) = executor_t d" "witness_t (upd_will k f d) = witness_t d"
  "audit_t (upd_will k f d) = audit_t d" "asset_t (upd_will k f d) = asset_t d"
  "property_t (upd_will k f d) = property_t d"
  "will_t (upd_will k f d) = map (\<lambda>r. if wr_id r = k then f r else r) (will_t d)"
  by (simp_all add: upd_will_def sql_update_def)

lemmas row_defs = status_row_def death_row_def signed_row_def confirmed_row_def reminded_row_def
  superseding_def supersede_row_def will_row_of_def

lemma row_fun_id [row_simps, simp]:
  "wr_id (status_row x r) = wr_id r" "wr_id (death_row y r) = wr_id r" "wr_id (signed_row z r) = wr_id r"
  "wr_id (confirmed_row t r) = wr_id r" "wr_id (reminded_row t r) = wr_id r"
  "wr_id (superseding n sids r) = wr_id r" "wr_id (supersede_row n r) = wr_id r"
  by (simp_all add: row_defs split: prod.splits)

lemma row_fun_flt [row_simps, simp]:
  "wr_testator_flt (status_row x r) = wr_testator_flt r" "wr_testator_flt (death_row y r) = wr_testator_flt r"
  "wr_testator_flt (signed_row z r) = wr_testator_flt r" "wr_testator_flt (confirmed_row t r) = wr_testator_flt r"
  "wr_testator_flt (reminded_row t r) = wr_testator_flt r"
  "wr_testator_flt (superseding n sids r) = wr_testator_flt r"
  "wr_testator_flt (supersede_row n r) = wr_testator_flt r"
  by (simp_all add: row_defs split: prod.splits)

definition keys_ok :: "db \<Rightarrow> bool" where
  "keys_ok d \<longleftrightarrow> distinct (map wr_id (will_t d))"

lemma find_will_mem: "find_will k d = Some r \<Longrightarrow> r \<in> set (will_t d) \<and> wr_id r = k"
  unfolding find_will_def using will_tab.sel_mem will_tab.sel_key by blast

lemma find_will_iff: "keys_ok d \<Longrightarrow> find_will k d = Some r \<longleftrightarrow> r \<in> set (will_t d) \<and> wr_id r = k"
  unfolding keys_ok_def find_will_def using will_tab.sel_unique will_tab.sel_mem will_tab.sel_key by blast

lemma find_will_unique:
  "keys_ok d \<Longrightarrow> find_will k d = Some r \<Longrightarrow> s \<in> set (will_t d) \<Longrightarrow> wr_id s = k \<Longrightarrow> s = r"
  by (metis find_will_iff option.inject)

lemma find_will_None: "find_will k d = None \<longleftrightarrow> k \<notin> will_ids d"
  by (simp add: find_will_def sql_find_None will_ids_def)

text \<open>What one step can do to a stored row; \<open>n\<close> is the number of witness signatures of its will.\<close>

inductive row_change :: "nat \<Rightarrow> will_row \<Rightarrow> will_row \<Rightarrow> bool" for n where
  row_signed: "wr_status r = ''draft'' \<Longrightarrow> row_change n r (signed_row (t, h) r)"
| row_locked: "wr_status r = ''draft'' \<Longrightarrow> wr_testator_signed_at r \<noteq> None \<Longrightarrow> 2 \<le> n \<Longrightarrow>
    row_change n r (status_row (WillStatusLocked, Some t, None) r)"
| row_death: "wr_status r = ''locked'' \<Longrightarrow> row_change n r (death_row (t, u) r)"
| row_unlocked: "wr_status r = ''locked'' \<or>
      wr_status r = ''death_notified'' \<and> (\<forall>u. wr_unlock_after r = Some u \<longrightarrow> u \<le> t) \<Longrightarrow>
    row_change n r (status_row (WillStatusUnlockedDead, None, Some t) r)"
| row_confirmed: "row_change n r (confirmed_row t r)"
| row_reminded: "row_change n r (reminded_row t r)"

inductive_cases row_changeE: "row_change n r r'"

lemma row_change_id: "row_change n r r' \<Longrightarrow> wr_id r' = wr_id r"
  by (auto elim: row_changeE)

definition put_row :: "will_row \<Rightarrow> will_row list \<Rightarrow> will_row list" where
  "put_row r' t = map (\<lambda>s. if wr_id s = wr_id r' then r' else s) t"

lemma upd_will_put:
  assumes "keys_ok d" "find_will k d = Some r" "wr_id (f r) = k"
  shows "upd_will k f d = d\<lparr>will_t := put_row (f r) (will_t d)\<rparr>"
proof -
  have "sql_update wr_id k f (will_t d) = put_row (f r) (will_t d)"
    using find_will_unique [OF assms(1,2)] assms(3) by (auto simp: sql_update_def put_row_def)
  then show ?thesis by (simp add: upd_will_def)
qed

lemma upd_will_absent: "find_will k d = None \<Longrightarrow> upd_will k f d = d"
proof -
  assume "find_will k d = None"
  then have "sql_update wr_id k f (will_t d) = will_t d"
    unfolding find_will_None sql_update_def will_ids_def by (intro map_idI) auto
  then show ?thesis by (simp add: upd_will_def)
qed

text \<open>
  Every step does one of six things to the database: a new draft with the rows it supersedes, a
  new codicil, a change of one stored row, a new witness row, a new clause on an asset, or a new
  row of the log.
\<close>

definition with_will_rows :: "Will \<Rightarrow> will_row list \<Rightarrow> db \<Rightarrow> db" where
  "with_will_rows will t d = d\<lparr>will_t := t @ [will_row_of will],
      clause_t := clause_t d @ map (clause_row_of will) (Clauses will),
      beneficiary_t := beneficiary_t d @ map (beneficiary_row_of will) (Beneficiaries will),
      executor_t := executor_t d @ map (executor_row_of will) (Executors will)\<rparr>"

definition witness_count :: "WillID \<Rightarrow> db \<Rightarrow> nat" where
  "witness_count k d = length (sql_where wsr_will_id k (witness_t d))"

lemma INSERT_audit_iff:
  "INSERT_audit r d = Inr d' \<longleftrightarrow> ar_id r \<notin> ar_id ` set (audit_t d) \<and> ar_will_id r \<in> will_ids d \<and>
     ref_ok (ar_previous_entry_id r) (ar_id ` set (audit_t d)) \<and> d' = d\<lparr>audit_t := audit_t d @ [r]\<rparr>"
  by (auto simp: INSERT_audit_def sql_insert_def split: if_splits)

lemma registry_kinds [consumes 2, case_names drafted codicil row witness asset property log same]:
  assumes "registry a d d'" and "keys_ok d"
  obtains will where "d' = with_will_rows will
        (map (superseding (Will_ID will) (active_ids (RealMeFLT (Testator will)) d)) (will_t d)) d"
      "Will_ID will \<notin> will_ids d" "Status will = WillStatusDraft" "\<not> IsCodicil will"
      "ParentWillID will = None"
    | will p r where "d' = with_will_rows will (will_t d) d"
      "Will_ID will \<notin> will_ids d" "Status will = WillStatusDraft" "IsCodicil will"
      "ParentWillID will = Some p" "find_will p d = Some r" "wr_status r = ''locked''"
      "wr_testator_flt r = RealMeFLT (Testator will)"
    | r r' where "find_will (wr_id r) d = Some r" "row_change (witness_count (wr_id r) d) r r'"
      "wr_id r' = wr_id r" "d' = d\<lparr>will_t := put_row r' (will_t d)\<rparr>"
    | s r where "find_will (wsr_will_id s) d = Some r" "wr_status r = ''draft''"
      "wr_testator_flt r \<noteq> wsr_flt s" "wr_testator_signed_at r \<noteq> None"
      "wsr_id s \<notin> wsr_id ` set (witness_t d)" "d' = d\<lparr>witness_t := witness_t d @ [s]\<rparr>"
    | x r where "find_will (dr_will_id x) d = Some r" "wr_status r = ''draft''"
      "ref_ok (dr_beneficiary_id x) (br_id ` set (beneficiary_t d))" "d' = d\<lparr>asset_t := asset_t d @ [x]\<rparr>"
    | x r where "find_will (pr_will_id x) d = Some r" "wr_status r = ''draft''"
      "ref_ok (pr_beneficiary_id x) (br_id ` set (beneficiary_t d))" "d' = d\<lparr>property_t := property_t d @ [x]\<rparr>"
    | x where "ar_id x \<notin> ar_id ` set (audit_t d)" "ar_will_id x \<in> will_ids d"
      "ref_ok (ar_previous_entry_id x) (ar_id ` set (audit_t d))" "d' = d\<lparr>audit_t := audit_t d @ [x]\<rparr>"
    | "d' = d"
proof -
  have row: thesis if "find_will k d = Some r" "row_change (witness_count (wr_id r) d) r (f r)" "d' = upd_will k f d"
    for k r f
    using that(1,2) upd_will_put [OF assms(2) that(1), of f] row_change_id [OF that(2)] find_will_mem [OF that(1)]
    by (intro \<open>\<And>r r'. find_will (wr_id r) d = Some r \<Longrightarrow> row_change (witness_count (wr_id r) d) r r' \<Longrightarrow>
        wr_id r' = wr_id r \<Longrightarrow> d' = d\<lparr>will_t := put_row r' (will_t d)\<rparr> \<Longrightarrow> thesis\<close> [of r "f r"])
      (simp_all add: that(3))
  from assms(1) show thesis
  proof cases
    case (drafted will)
    from draft_effect [OF drafted(2) active_ids_subset] drafted(3-5) show thesis
      by (intro that(1) [of will]) (simp_all add: with_will_rows_def)
  next
    case (codicil will p r)
    have "map (superseding (Will_ID will) []) (will_t d) = will_t d"
      by (rule map_idI) (simp add: superseding_def)
    with draft_effect [OF codicil(2)] codicil(3-8) show thesis
      by (intro that(2) [of will p r]) (simp_all add: with_will_rows_def)
  next
    case (locked k r t)
    then have "row_change (witness_count (wr_id r) d) r (status_row (WillStatusLocked, Some t, None) r)"
      by (intro row_locked) (auto simp: witness_count_def dest: find_will_mem)
    with locked show thesis by (intro row)
  next
    case (unlocked k r t)
    then have "row_change (witness_count (wr_id r) d) r (status_row (WillStatusUnlockedDead, None, Some t) r)"
      by (intro row_unlocked) simp
    with unlocked show thesis by (intro row)
  next
    case (reminded k t)
    then show thesis
      using row [of k _ "reminded_row t"] upd_will_absent [of k d "reminded_row t"] that(8)
      by (cases "find_will k d") (auto intro: row_change.intros)
  qed (auto intro: row row_change.intros that(4-7) dest: find_will_mem
      simp: witness_count_def INSERT_witness_Inr INSERT_asset_Inr INSERT_property_Inr INSERT_audit_iff)
qed

section \<open>The invariants\<close>

text \<open>The timestamps of a row agree with its lifecycle state.\<close>

definition shape_ok :: "will_row \<Rightarrow> bool" where
  "shape_ok r \<longleftrightarrow>
     (let locked = (wr_locked_at r \<noteq> None); unlocked = (wr_unlocked_at r \<noteq> None);
          notified = (wr_death_notified_at r \<noteq> None); superseded = (wr_superseded_by r \<noteq> None)
      in (wr_unlock_after r \<noteq> None \<longleftrightarrow> notified) \<and> (wr_is_codicil r \<longleftrightarrow> wr_parent_will_id r \<noteq> None) \<and>
        (case status_of_text (wr_status r) of
           WillStatusDraft \<Rightarrow> \<not> locked \<and> \<not> unlocked \<and> \<not> notified \<and> \<not> superseded
         | WillStatusLocked \<Rightarrow> locked \<and> \<not> unlocked \<and> \<not> notified \<and> \<not> superseded
         | WillStatusDeathNotified \<Rightarrow> locked \<and> \<not> unlocked \<and> notified \<and> \<not> superseded
         | WillStatusUnlockedDead \<Rightarrow> \<not> locked \<and> unlocked \<and> \<not> superseded
         | WillStatusSuperseded \<Rightarrow> \<not> unlocked \<and> \<not> notified \<and> superseded
         | WillStatusText s \<Rightarrow> False))"

text \<open>The states a will reaches only through \<open>Lock\<close>.\<close>

definition executed :: "will_row \<Rightarrow> bool" where
  "executed r \<longleftrightarrow> status_of_text (wr_status r) \<in>
     {WillStatusLocked, WillStatusDeathNotified, WillStatusUnlockedDead}"

definition row_ok :: "db \<Rightarrow> will_row \<Rightarrow> bool" where
  "row_ok d r \<longleftrightarrow> shape_ok r \<and>
     (executed r \<longrightarrow> wr_testator_signed_at r \<noteq> None \<and> 2 \<le> witness_count (wr_id r) d)"

definition rows_ok :: "db \<Rightarrow> bool" where
  "rows_ok d \<longleftrightarrow> (\<forall>r \<in> set (will_t d). row_ok d r)"

definition witnesses_ok :: "db \<Rightarrow> bool" where
  "witnesses_ok d \<longleftrightarrow> (\<forall>s \<in> set (witness_t d). \<exists>r \<in> set (will_t d).
     wr_id r = wsr_will_id s \<and> wr_testator_flt r \<noteq> wsr_flt s \<and> wr_testator_signed_at r \<noteq> None)"

definition single_ok :: "db \<Rightarrow> bool" where
  "single_ok d \<longleftrightarrow> (\<forall>r \<in> set (will_t d). \<forall>s \<in> set (will_t d).
     active_of (wr_testator_flt r) r \<longrightarrow> active_of (wr_testator_flt r) s \<longrightarrow> wr_id r = wr_id s)"

definition family_ok :: "db \<Rightarrow> bool" where
  "family_ok d \<longleftrightarrow> (\<forall>r \<in> set (will_t d).
     (\<forall>n. wr_superseded_by r = Some n \<longrightarrow> (\<exists>s \<in> set (will_t d). wr_id s = n \<and>
        wr_testator_flt s = wr_testator_flt r \<and> \<not> wr_is_codicil s \<and> \<not> wr_is_codicil r)) \<and>
     (\<forall>p. wr_parent_will_id r = Some p \<longrightarrow> (\<exists>s \<in> set (will_t d). wr_id s = p \<and>
        wr_testator_flt s = wr_testator_flt r \<and> wr_status s \<noteq> ''draft'')))"

lemma status_literals [simp]:
  "status_of_text ''draft'' = WillStatusDraft" "status_of_text ''locked'' = WillStatusLocked"
  "status_of_text ''death_notified'' = WillStatusDeathNotified"
  "status_of_text ''unlocked_at_death'' = WillStatusUnlockedDead"
  "status_of_text ''superseded'' = WillStatusSuperseded"
  by (simp_all add: status_of_text_def)

lemma row_change_facts:
  assumes "row_change n r r'"
  shows "wr_id r' = wr_id r" "wr_testator_flt r' = wr_testator_flt r"
    "wr_is_codicil r' = wr_is_codicil r" "wr_parent_will_id r' = wr_parent_will_id r"
    "wr_superseded_by r' = wr_superseded_by r"
    "wr_testator_signed_at r \<noteq> None \<Longrightarrow> wr_testator_signed_at r' \<noteq> None"
  using assms by (auto elim!: row_changeE simp: row_defs)

lemma row_change_shape: "row_change n r r' \<Longrightarrow> shape_ok r \<Longrightarrow> shape_ok r'"
  by (erule row_changeE; simp add: row_defs shape_ok_def Let_def; elim disjE conjE; simp)

lemma row_change_status:
  assumes "row_change n r r'"
  shows "wr_status r \<noteq> ''draft'' \<Longrightarrow> wr_status r' \<noteq> ''draft''" "active_of f r' \<Longrightarrow> active_of f r"
    "executed r' \<Longrightarrow> executed r \<or> wr_testator_signed_at r' \<noteq> None \<and> 2 \<le> n"
  using assms by (auto elim!: row_changeE simp: row_defs active_of_def executed_def)

section \<open>Every step keeps them\<close>

lemma put_row_ids: "map wr_id (put_row r' t) = map wr_id t"
  by (auto simp: put_row_def)

lemma put_row_set: "wr_id ` set (put_row r' t) = wr_id ` set t"
  by (simp flip: set_map add: put_row_ids)

lemma in_put_row: "s \<in> set (put_row r' t) \<longleftrightarrow> (\<exists>q \<in> set t. s = (if wr_id q = wr_id r' then r' else q))"
  by (auto simp: put_row_def)

lemma with_will_rows_simps [simp]:
  "will_t (with_will_rows will t d) = t @ [will_row_of will]"
  "witness_t (with_will_rows will t d) = witness_t d" "asset_t (with_will_rows will t d) = asset_t d"
  "property_t (with_will_rows will t d) = property_t d" "audit_t (with_will_rows will t d) = audit_t d"
  by (simp_all add: with_will_rows_def)

lemma will_row_of_simps [simp]:
  "wr_id (will_row_of will) = Will_ID will" "wr_status (will_row_of will) = status_text (Status will)"
  "wr_testator_flt (will_row_of will) = RealMeFLT (Testator will)"
  "wr_is_codicil (will_row_of will) = IsCodicil will"
  "wr_parent_will_id (will_row_of will) = ParentWillID will"
  "wr_superseded_by (will_row_of will) = None"
  by (simp_all add: will_row_of_def)

lemma keys_ok_step: "registry a d d' \<Longrightarrow> keys_ok d \<Longrightarrow> keys_ok d'"
  by (cases rule: registry_kinds [of a d d'], assumption, assumption)
    (auto simp: keys_ok_def will_ids_def put_row_ids comp_def)

lemma will_ids_step: "registry a d d' \<Longrightarrow> keys_ok d \<Longrightarrow> will_ids d \<subseteq> will_ids d'"
  by (cases rule: registry_kinds [of a d d'], assumption, assumption)
    (auto simp: will_ids_def put_row_set image_image)

lemma witness_count_step: "registry a d d' \<Longrightarrow> keys_ok d \<Longrightarrow> witness_count k d \<le> witness_count k d'"
  by (cases rule: registry_kinds [of a d d'], assumption, assumption)
    (auto simp: witness_count_def sql_where_def)

lemma shape_created: "Status will = WillStatusDraft \<Longrightarrow> IsCodicil will = (ParentWillID will \<noteq> None) \<Longrightarrow>
    shape_ok (will_row_of will)"
  by (simp add: shape_ok_def will_row_of_def)

lemma shape_superseding:
  "active_of f r \<Longrightarrow> shape_ok r \<Longrightarrow> shape_ok (supersede_row n r)"
  by (auto simp: shape_ok_def Let_def active_of_def supersede_row_def)

lemma superseding_active:
  assumes "keys_ok d" "r \<in> set (will_t d)"
  shows "superseding n (active_ids f d) r = (if active_of f r then supersede_row n r else r)"
proof -
  have "wr_id r \<in> set (active_ids f d) \<longleftrightarrow> active_of f r"
    using assms find_will_unique [OF assms(1)] find_will_iff [OF assms(1)]
    unfolding active_ids_def by auto
  then show ?thesis by (simp add: superseding_def)
qed

lemma supersede_not_executed: "\<not> executed (supersede_row n r)"
  by (simp add: executed_def supersede_row_def)

lemma rows_ok_step:
  assumes "registry a d d'" "keys_ok d" "rows_ok d"
  shows "rows_ok d'"
proof -
  have mono: "row_ok d' r" if "row_ok d r" for r
    using that witness_count_step [OF assms(1,2), of "wr_id r"] by (auto simp: row_ok_def)
  from assms(1,2) show ?thesis
  proof (cases rule: registry_kinds)
    case (drafted will)
    have "row_ok d' (superseding (Will_ID will) (active_ids (RealMeFLT (Testator will)) d) r)"
      if "r \<in> set (will_t d)" for r
      using that assms(2,3) mono shape_superseding supersede_not_executed
      by (auto simp: superseding_active rows_ok_def row_ok_def)
    moreover have "row_ok d' (will_row_of will)"
      using drafted by (auto simp: row_ok_def executed_def intro: shape_created)
    ultimately show ?thesis using drafted by (auto simp: rows_ok_def)
  next
    case (codicil will p r)
    then show ?thesis using assms(3) mono
      by (auto simp: rows_ok_def row_ok_def executed_def intro: shape_created)
  next
    case (row r r')
    have "row_ok d' r'"
      using row assms(3) find_will_mem [OF row(1)] row_change_facts [OF row(2)] row_change_status [OF row(2)]
        row_change_shape [OF row(2)]
      by (auto simp: row_ok_def rows_ok_def witness_count_def)
    then show ?thesis using row(4) assms(3) mono by (auto simp: rows_ok_def in_put_row)
  qed (use assms(3) mono in \<open>auto simp: rows_ok_def\<close>)
qed

text \<open>What a step never takes away from a row, and where the rows after a step come from.\<close>

definition row_next :: "will_row \<Rightarrow> will_row \<Rightarrow> bool" where
  "row_next q u \<longleftrightarrow> wr_id u = wr_id q \<and> wr_testator_flt u = wr_testator_flt q \<and>
     wr_is_codicil u = wr_is_codicil q \<and> wr_parent_will_id u = wr_parent_will_id q \<and>
     (wr_testator_signed_at q \<noteq> None \<longrightarrow> wr_testator_signed_at u \<noteq> None) \<and>
     (wr_status q \<noteq> ''draft'' \<longrightarrow> wr_status u \<noteq> ''draft'') \<and>
     (\<forall>f. active_of f u \<longrightarrow> active_of f q)"

lemma row_next_refl [simp]: "row_next r r"
  by (simp add: row_next_def)

lemma row_next_supersede [simp]: "row_next r (supersede_row n r)"
  by (auto simp: row_next_def supersede_row_def active_of_def)

lemma row_next_superseding [simp]: "row_next r (superseding n sids r)"
  by (simp add: superseding_def)

lemma row_next_change:
  assumes "row_change n r r'"
  shows "row_next r r'"
  using row_change_facts [OF assms] row_change_status (1,2) [OF assms] by (simp add: row_next_def)

lemma successor:
  assumes "registry a d d'" "keys_ok d" "q \<in> set (will_t d)"
  obtains u where "u \<in> set (will_t d')" "row_next q u"
  using assms(1,2)
proof (cases rule: registry_kinds)
  case (row r r')
  show thesis
  proof (cases "wr_id q = wr_id r")
    case True
    with find_will_unique [OF assms(2) row(1) assms(3)] have "q = r" by simp
    with row assms(3) show thesis by (intro that [of r']) (auto simp: in_put_row row_next_change)
  next
    case False
    with row assms(3) show thesis by (intro that [of q]) (auto simp: in_put_row)
  qed
next
  case (drafted will)
  with assms(3) show thesis
    by (intro that [of "superseding (Will_ID will) (active_ids (RealMeFLT (Testator will)) d) q"]) auto
qed (use assms(3) in \<open>auto intro: that [of q]\<close>)

lemma predecessor:
  assumes "registry a d d'" "keys_ok d" "u \<in> set (will_t d')"
  obtains (old) q where "q \<in> set (will_t d)" "row_next q u"
    | (new) will where "u = will_row_of will" "Status will = WillStatusDraft" "Will_ID will \<notin> will_ids d"
  using assms(1,2)
proof (cases rule: registry_kinds)
  case (drafted will)
  with assms(3) old new show thesis by auto
next
  case (codicil will p r)
  with assms(3) old [of u] new show thesis by auto
next
  case (row r r')
  with assms(3) obtain q where "q \<in> set (will_t d)" "u = (if wr_id q = wr_id r then r' else q)"
    by (auto simp: in_put_row)
  with row find_will_unique [OF assms(2) row(1)] row_next_change [OF row(2)] show thesis
    by (intro old [of q]) auto
qed (use assms(3) in \<open>auto intro: old [of u]\<close>)

lemma witnesses_ok_step:
  assumes "registry a d d'" "keys_ok d" "witnesses_ok d"
  shows "witnesses_ok d'"
proof -
  have old: "\<exists>u \<in> set (will_t d'). wr_id u = wsr_will_id s \<and> wr_testator_flt u \<noteq> wsr_flt s \<and>
      wr_testator_signed_at u \<noteq> None" if s: "s \<in> set (witness_t d)" for s
  proof -
    from assms(3) s obtain q where q: "q \<in> set (will_t d)" "wr_id q = wsr_will_id s"
        "wr_testator_flt q \<noteq> wsr_flt s" "wr_testator_signed_at q \<noteq> None"
      unfolding witnesses_ok_def by blast
    from successor [OF assms(1,2) q(1)] obtain u where "u \<in> set (will_t d')" "row_next q u" .
    with q show ?thesis by (auto simp: row_next_def intro!: bexI [of _ u])
  qed
  from assms(1,2) show ?thesis
  proof (cases rule: registry_kinds)
    case (witness s r)
    with old find_will_mem [OF witness(1)] show ?thesis unfolding witnesses_ok_def by auto
  qed (use old in \<open>auto simp: witnesses_ok_def\<close>)
qed

lemma single_ok_old:
  assumes "single_ok d" "q \<in> set (will_t d)" "q' \<in> set (will_t d)" "active_of f q" "active_of f q'"
  shows "wr_id q = wr_id q'"
  using assms unfolding single_ok_def active_of_def by metis

lemma single_ok_step:
  assumes "registry a d d'" "keys_ok d" "single_ok d"
  shows "single_ok d'"
proof -
  have old: "wr_id u = wr_id v" if "row_next q u" "row_next q' v" "q \<in> set (will_t d)" "q' \<in> set (will_t d)"
    "active_of f u" "active_of f v" for q q' u v f
    using that single_ok_old [OF assms(3), of q q' f] by (simp add: row_next_def)
  have "wr_id u = wr_id v" if uv: "u \<in> set (will_t d')" "v \<in> set (will_t d')"
    "active_of f u" "active_of f v" for u v f
    using assms(1,2)
  proof (cases rule: registry_kinds)
    case (drafted will)
    have gone: "\<not> active_of f (superseding n (active_ids f d) r)" if "r \<in> set (will_t d)" for n r
      using superseding_active [OF assms(2) that] by (auto simp: active_of_def supersede_row_def)
    show ?thesis
    proof (cases "f = RealMeFLT (Testator will)")
      case True
      with uv drafted(1) gone show ?thesis by auto
    next
      case False
      then have "\<not> active_of f (will_row_of will)" by (simp add: active_of_def)
      with uv drafted(1) obtain x y where "x \<in> set (will_t d)" "y \<in> set (will_t d)"
          "row_next x u" "row_next y v"
        by auto
      with old uv(3,4) show ?thesis by blast
    qed
  next
    case (codicil will p r)
    then have "\<not> active_of f (will_row_of will)" by (simp add: active_of_def)
    with uv codicil(1) have "u \<in> set (will_t d)" "v \<in> set (will_t d)" by auto
    with old [of u u v v f] uv(3,4) show ?thesis by simp
  next
    case (row r r')
    have src: "\<exists>q \<in> set (will_t d). row_next q x" if "x \<in> set (will_t d')" for x
    proof -
      from that row(4) obtain q where "q \<in> set (will_t d)" "x = (if wr_id q = wr_id r' then r' else q)"
        by (auto simp: in_put_row)
      with row(3) find_will_unique [OF assms(2) row(1)] row_next_change [OF row(2)] show ?thesis
        by (intro bexI [of _ q]) auto
    qed
    from src [OF uv(1)] src [OF uv(2)] old uv(3,4) show ?thesis by blast
  qed (use uv old [of u u v v f] in auto)
  then show ?thesis unfolding single_ok_def by blast
qed

lemma family_ok_step:
  assumes "registry a d d'" "keys_ok d" "family_ok d"
  shows "family_ok d'"
proof -
  have superseder: "\<exists>s \<in> set (will_t d'). wr_id s = n \<and> wr_testator_flt s = wr_testator_flt q \<and>
      \<not> wr_is_codicil s \<and> \<not> wr_is_codicil q"
    if q: "q \<in> set (will_t d)" "wr_superseded_by q = Some n" for q n
  proof -
    from assms(3) q obtain s where s: "s \<in> set (will_t d)" "wr_id s = n"
        "wr_testator_flt s = wr_testator_flt q" "\<not> wr_is_codicil s" "\<not> wr_is_codicil q"
      unfolding family_ok_def by blast
    from successor [OF assms(1,2) s(1)] obtain u where "u \<in> set (will_t d')" "row_next s u" .
    with s show ?thesis by (auto simp: row_next_def intro!: bexI [of _ u])
  qed
  have parent: "\<exists>s \<in> set (will_t d'). wr_id s = p \<and> wr_testator_flt s = flt \<and> wr_status s \<noteq> ''draft''"
    if s: "s \<in> set (will_t d)" "wr_id s = p" "wr_testator_flt s = flt" "wr_status s \<noteq> ''draft''" for s p flt
  proof -
    from successor [OF assms(1,2) s(1)] obtain u where "u \<in> set (will_t d')" "row_next s u" .
    with s show ?thesis by (auto simp: row_next_def intro!: bexI [of _ u])
  qed
  have old_parent: "\<exists>s \<in> set (will_t d'). wr_id s = p \<and> wr_testator_flt s = wr_testator_flt u \<and>
      wr_status s \<noteq> ''draft''"
    if "q \<in> set (will_t d)" "row_next q u" "wr_parent_will_id u = Some p" for q u p
  proof -
    from assms(3) that obtain s where "s \<in> set (will_t d)" "wr_id s = p"
        "wr_testator_flt s = wr_testator_flt q" "wr_status s \<noteq> ''draft''"
      unfolding family_ok_def row_next_def by metis
    with parent that(2) show ?thesis by (simp add: row_next_def)
  qed
  define ok where "ok u \<longleftrightarrow>
     (\<forall>n. wr_superseded_by u = Some n \<longrightarrow> (\<exists>s \<in> set (will_t d'). wr_id s = n \<and>
        wr_testator_flt s = wr_testator_flt u \<and> \<not> wr_is_codicil s \<and> \<not> wr_is_codicil u)) \<and>
     (\<forall>p. wr_parent_will_id u = Some p \<longrightarrow> (\<exists>s \<in> set (will_t d'). wr_id s = p \<and>
        wr_testator_flt s = wr_testator_flt u \<and> wr_status s \<noteq> ''draft''))" for u :: will_row
  have kept: "ok u" if "q \<in> set (will_t d)" "row_next q u" "wr_superseded_by u = wr_superseded_by q" for q u
    using superseder [of q] old_parent [of q u] that unfolding ok_def by (simp add: row_next_def)
  have "ok u" if u: "u \<in> set (will_t d')" for u
    using assms(1,2)
  proof (cases rule: registry_kinds)
    case (drafted will)
    have "will_row_of will \<in> set (will_t d')" using drafted(1) by simp
    then have new: "ok (supersede_row (Will_ID will) q)" if "q \<in> set (will_t d)"
        "active_of (RealMeFLT (Testator will)) q" for q
    proof -
      have "\<forall>n. wr_superseded_by (supersede_row (Will_ID will) q) = Some n \<longrightarrow> (\<exists>s \<in> set (will_t d').
          wr_id s = n \<and> wr_testator_flt s = wr_testator_flt q \<and> \<not> wr_is_codicil s \<and> \<not> wr_is_codicil q)"
        using \<open>will_row_of will \<in> set (will_t d')\<close> that drafted(4)
        by (auto simp: supersede_row_def active_of_def intro!: bexI [of _ "will_row_of will"])
      moreover have "\<forall>p. wr_parent_will_id q = Some p \<longrightarrow> (\<exists>s \<in> set (will_t d').
          wr_id s = p \<and> wr_testator_flt s = wr_testator_flt q \<and> wr_status s \<noteq> ''draft'')"
        using old_parent [OF that(1) row_next_supersede [of q "Will_ID will"]]
        by (simp add: supersede_row_def)
      ultimately show ?thesis by (simp add: ok_def supersede_row_def)
    qed
    from u drafted(1) consider "u = will_row_of will"
      | q where "q \<in> set (will_t d)" "u = superseding (Will_ID will) (active_ids (RealMeFLT (Testator will)) d) q"
      by auto
    then show ?thesis
    proof cases
      case 1
      then show ?thesis using drafted(5) by (simp add: ok_def)
    next
      case (2 q)
      with new kept [of q q] show ?thesis by (simp add: superseding_active [OF assms(2)])
    qed
  next
    case (codicil will p r)
    have "ok (will_row_of will)"
      using codicil find_will_mem [OF codicil(6)] by (auto simp: ok_def)
    with u codicil(1) kept [of u u] show ?thesis by auto
  next
    case (row r r')
    from u row(4) obtain q where q: "q \<in> set (will_t d)" "u = (if wr_id q = wr_id r' then r' else q)"
      by (auto simp: in_put_row)
    with kept [of q u] find_will_unique [OF assms(2) row(1) q(1)] row_next_change [OF row(2)]
      row_change_facts (5) [OF row(2)] row(3)
    show ?thesis by auto
  qed (use u kept [of u u] in auto)
  then show ?thesis unfolding family_ok_def ok_def by blast
qed

text \<open>References between tables stay closed.\<close>

definition refs_ok :: "db \<Rightarrow> bool" where
  "refs_ok d \<longleftrightarrow>
     (\<forall>c \<in> set (clause_t d). cr_will_id c \<in> will_ids d) \<and>
     (\<forall>b \<in> set (beneficiary_t d). br_will_id b \<in> will_ids d) \<and>
     (\<forall>x \<in> set (executor_t d). er_will_id x \<in> will_ids d) \<and>
     (\<forall>s \<in> set (witness_t d). wsr_will_id s \<in> will_ids d) \<and>
     (\<forall>x \<in> set (asset_t d). dr_will_id x \<in> will_ids d \<and>
        ref_ok (dr_beneficiary_id x) (br_id ` set (beneficiary_t d))) \<and>
     (\<forall>x \<in> set (property_t d). pr_will_id x \<in> will_ids d \<and>
        ref_ok (pr_beneficiary_id x) (br_id ` set (beneficiary_t d))) \<and>
     (\<forall>e \<in> set (audit_t d). ar_will_id e \<in> will_ids d \<and>
        ref_ok (ar_previous_entry_id e) (ar_id ` set (audit_t d)))"

lemma ref_ok_mono: "ref_ok r A \<Longrightarrow> A \<subseteq> B \<Longrightarrow> ref_ok r B"
  by (auto simp: ref_ok_def split: option.splits)

lemma find_will_ids: "find_will k d = Some r \<Longrightarrow> k \<in> will_ids d"
  by (auto simp: will_ids_def dest: find_will_mem)

lemma refs_ok_step:
  assumes "registry a d d'" "keys_ok d" "refs_ok d"
  shows "refs_ok d'"
proof -
  note mono = will_ids_step [OF assms(1,2)]
  from assms(1,2) show ?thesis
  proof (cases rule: registry_kinds)
    case (drafted will)
    have "will_ids d' = insert (Will_ID will) (will_ids d)"
      unfolding drafted(1) by (auto simp: will_ids_def image_image)
    with drafted assms(3) show ?thesis
      by (auto simp: refs_ok_def with_will_rows_def clause_row_of_def beneficiary_row_of_def
          executor_row_of_def intro: ref_ok_mono)
  next
    case (codicil will p r)
    have "will_ids d' = insert (Will_ID will) (will_ids d)"
      unfolding codicil(1) by (auto simp: will_ids_def image_image)
    with codicil assms(3) show ?thesis
      by (auto simp: refs_ok_def with_will_rows_def clause_row_of_def beneficiary_row_of_def
          executor_row_of_def intro: ref_ok_mono)
  next
    case (row r r')
    then have "will_ids d' = will_ids d" by (simp add: will_ids_def put_row_set)
    with row assms(3) show ?thesis by (simp add: refs_ok_def)
  next
    case (log x)
    have ids: "will_ids d' = will_ids d" "set (audit_t d') = insert x (set (audit_t d))" by (simp_all add: log will_ids_def)
    have "ref_ok p (ar_id ` set (audit_t d)) \<Longrightarrow> ref_ok p (ar_id ` set (audit_t d'))" for p
      by (rule ref_ok_mono) (auto simp: ids)
    with log(2,3) assms(3) show ?thesis unfolding refs_ok_def ids by (simp add: log(4))
  qed (use assms(3) in \<open>auto simp: refs_ok_def will_ids_def [of "_\<lparr>witness_t := _\<rparr>"]
      will_ids_def [of "_\<lparr>asset_t := _\<rparr>"] will_ids_def [of "_\<lparr>property_t := _\<rparr>"]
      will_ids_def [of "_\<lparr>audit_t := _\<rparr>"] simp flip: will_ids_def dest: find_will_ids\<close>)
qed

text \<open>The primary keys of all tables stay unique.\<close>

definition primary_keys_ok :: "db \<Rightarrow> bool" where
  "primary_keys_ok d \<longleftrightarrow> distinct (map wr_id (will_t d)) \<and> distinct (map cr_id (clause_t d)) \<and>
     distinct (map br_id (beneficiary_t d)) \<and> distinct (map er_id (executor_t d)) \<and>
     distinct (map wsr_id (witness_t d)) \<and> distinct (map ar_id (audit_t d)) \<and>
     distinct (map dr_id (asset_t d)) \<and> distinct (map pr_id (property_t d))"

lemma statement_keys:
  "INSERT_will wr d = Inr d' \<Longrightarrow> primary_keys_ok d \<Longrightarrow> primary_keys_ok d'"
  "INSERT_clause cr d = Inr d' \<Longrightarrow> primary_keys_ok d \<Longrightarrow> primary_keys_ok d'"
  "INSERT_beneficiary br d = Inr d' \<Longrightarrow> primary_keys_ok d \<Longrightarrow> primary_keys_ok d'"
  "INSERT_executor er d = Inr d' \<Longrightarrow> primary_keys_ok d \<Longrightarrow> primary_keys_ok d'"
  "INSERT_witness sr d = Inr d' \<Longrightarrow> primary_keys_ok d \<Longrightarrow> primary_keys_ok d'"
  "INSERT_audit ar d = Inr d' \<Longrightarrow> primary_keys_ok d \<Longrightarrow> primary_keys_ok d'"
  "INSERT_asset dr d = Inr d' \<Longrightarrow> primary_keys_ok d \<Longrightarrow> primary_keys_ok d'"
  "INSERT_property pr d = Inr d' \<Longrightarrow> primary_keys_ok d \<Longrightarrow> primary_keys_ok d'"
  by (auto simp: primary_keys_ok_def INSERT_will_def INSERT_clause_def INSERT_beneficiary_def INSERT_executor_def
      INSERT_witness_def INSERT_audit_def INSERT_asset_def INSERT_property_def sql_insert_def split: if_splits)

lemma update_keys:
  assumes "\<And>r. wr_id (f r) = wr_id r" "primary_keys_ok d"
  shows "primary_keys_ok (upd_will k f d)"
proof -
  have keys: "map wr_id (will_t (upd_will k f d)) = map wr_id (will_t d)"
    by (simp add: upd_will_def sql_update_keys assms(1) del: upd_will_tables)
  show ?thesis using assms(2) unfolding primary_keys_ok_def keys by simp
qed

lemma exec_all_keeps:
  assumes "exec_all sts d = Inr d'" "\<And>st d d'. st \<in> set sts \<Longrightarrow> st d = Inr d' \<Longrightarrow> I d \<Longrightarrow> I d'" "I d"
  shows "I d'"
  using assms
proof (induction sts arbitrary: d)
  case (Cons st sts)
  then obtain d1 where d1: "st d = Inr d1" "exec_all sts d1 = Inr d'" by (auto split: sum.splits)
  have "I d1" using Cons.prems(2) [of st] d1(1) Cons.prems(3) by simp
  from d1(2) _ this show ?case by (rule Cons.IH) (rule Cons.prems(2) [OF list.set_intros(2)])
qed simp

lemma draft_keys:
  assumes "exec_all (draft_stmts will sids) d = Inr d'" "primary_keys_ok d"
  shows "primary_keys_ok d'"
  using assms(1)
proof (rule exec_all_keeps)
  fix st d d' assume st: "st \<in> set (draft_stmts will sids)" "st d = Inr d'" "primary_keys_ok d"
  have "primary_keys_ok d'" if "UPDATE_supersede n s d = Inr d'" for n s
    using that st(3) by (auto simp: UPDATE_supersede_def intro: update_keys split: if_splits)
  with st show "primary_keys_ok d'" by (auto simp: draft_stmts_def dest: statement_keys)
qed (rule assms(2))

lemma primary_keys_ok_step: "registry a d d' \<Longrightarrow> primary_keys_ok d \<Longrightarrow> primary_keys_ok d'"
  by (induction rule: registry.induct) (auto intro: draft_keys update_keys statement_keys)

text \<open>
  No will supersedes itself along a chain of supersessions, and none is a codicil of itself: a new
  will gets a fresh identifier, which no older will was superseded by or is a codicil to.
\<close>

definition superseded_rel :: "db \<Rightarrow> (WillID \<times> WillID) set" where
  "superseded_rel d = {(wr_id r, n) | r n. r \<in> set (will_t d) \<and> wr_superseded_by r = Some n}"

definition codicil_rel :: "db \<Rightarrow> (WillID \<times> WillID) set" where
  "codicil_rel d = {(wr_id r, p) | r p. r \<in> set (will_t d) \<and> wr_parent_will_id r = Some p}"

definition lineage_ok :: "db \<Rightarrow> bool" where
  "lineage_ok d \<longleftrightarrow> acyclic (superseded_rel d) \<and> acyclic (codicil_rel d)"

lemma acyclic_empty [simp]: "acyclic {}"
  by (simp add: acyclic_def)

lemma acyclic_add_top:
  assumes "acyclic R" "n \<notin> Domain R" "n \<notin> A"
  shows "acyclic (R \<union> A \<times> {n})"
proof (rule acyclicI, intro allI notI)
  have R: "(x, y) \<in> R\<^sup>+" if "(x, y) \<in> (R \<union> A \<times> {n})\<^sup>+" "y \<noteq> n" for x y
    using that
  proof (induction rule: trancl_induct)
    case (step y z)
    with assms(2,3) have "(y, z) \<in> R" "y \<noteq> n" by auto
    with step.IH show ?case by (auto intro: trancl_into_trancl)
  qed auto
  fix x assume cycle: "(x, x) \<in> (R \<union> A \<times> {n})\<^sup>+"
  then have "x \<noteq> n" using assms(2,3) by (auto dest: tranclD)
  with R [OF cycle] assms(1) show False by (simp add: acyclic_def)
qed

lemma lineage_ids: "Domain (superseded_rel d) \<subseteq> will_ids d" "Domain (codicil_rel d) \<subseteq> will_ids d"
    "family_ok d \<Longrightarrow> Range (codicil_rel d) \<subseteq> will_ids d"
proof -
  show "Domain (superseded_rel d) \<subseteq> will_ids d" "Domain (codicil_rel d) \<subseteq> will_ids d"
    by (auto simp: superseded_rel_def codicil_rel_def will_ids_def)
  show "Range (codicil_rel d) \<subseteq> will_ids d" if "family_ok d"
    using that unfolding family_ok_def codicil_rel_def will_ids_def by fastforce
qed

lemma lineage_ok_step:
  assumes "registry a d d'" "keys_ok d" "family_ok d" "lineage_ok d"
  shows "lineage_ok d'"
proof -
  have same: "lineage_ok d'" if "superseded_rel d' \<subseteq> superseded_rel d" "codicil_rel d' \<subseteq> codicil_rel d"
    using that assms(4) unfolding lineage_ok_def by (blast intro: acyclic_subset)
  from assms(1,2) show ?thesis
  proof (cases rule: registry_kinds)
    case (drafted will)
    have "superseded_rel d' \<subseteq> superseded_rel d \<union> will_ids d \<times> {Will_ID will}"
      unfolding drafted(1) by (auto simp: superseded_rel_def superseding_def supersede_row_def will_ids_def split: if_splits)
    moreover have "acyclic (superseded_rel d \<union> will_ids d \<times> {Will_ID will})"
      using assms(4) drafted(2) lineage_ids(1) [of d] by (intro acyclic_add_top) (auto simp: lineage_ok_def)
    moreover have "codicil_rel d' \<subseteq> codicil_rel d"
      using drafted(5) unfolding drafted(1) by (auto simp: codicil_rel_def superseding_def supersede_row_def split: if_splits)
    ultimately show ?thesis using assms(4) unfolding lineage_ok_def by (blast intro: acyclic_subset)
  next
    case (codicil will p r)
    have "superseded_rel d' \<subseteq> superseded_rel d" unfolding codicil(1) by (auto simp: superseded_rel_def)
    moreover have "codicil_rel d' \<subseteq> insert (Will_ID will, p) (codicil_rel d)"
      using codicil(5) unfolding codicil(1) by (auto simp: codicil_rel_def)
    moreover have "(p, Will_ID will) \<notin> (codicil_rel d)\<^sup>*"
    proof
      assume "(p, Will_ID will) \<in> (codicil_rel d)\<^sup>*"
      then have "p = Will_ID will \<or> Will_ID will \<in> Range (codicil_rel d)" by (blast elim: rtranclE)
      moreover have "p \<in> will_ids d" using find_will_mem [OF codicil(6)] by (auto simp: will_ids_def)
      ultimately show False using codicil(2) lineage_ids(3) [OF assms(3)] by blast
    qed
    ultimately show ?thesis using assms(4) unfolding lineage_ok_def by (meson acyclic_insert acyclic_subset)
  next
    case (row r r')
    have "\<exists>q \<in> set (will_t d). wr_id q = wr_id u \<and> wr_superseded_by q = wr_superseded_by u \<and>
        wr_parent_will_id q = wr_parent_will_id u" if "u \<in> set (will_t d')" for u
    proof -
      from that obtain q where "q \<in> set (will_t d)" "u = (if wr_id q = wr_id r' then r' else q)"
        by (auto simp: row(4) in_put_row)
      then show ?thesis using row_change_facts [OF row(2)] find_will_mem [OF row(1)] by (metis (no_types))
    qed
    note old = this
    show ?thesis
    proof (rule same)
      show "superseded_rel d' \<subseteq> superseded_rel d" unfolding superseded_rel_def using old by clarsimp metis
      show "codicil_rel d' \<subseteq> codicil_rel d" unfolding codicil_rel_def using old by clarsimp metis
    qed
  qed (rule same; auto simp: superseded_rel_def codicil_rel_def)+
qed

section \<open>Together\<close>

definition registry_ok :: "db \<Rightarrow> bool" where
  "registry_ok d \<longleftrightarrow> keys_ok d \<and> primary_keys_ok d \<and> rows_ok d \<and> witnesses_ok d \<and> single_ok d \<and> family_ok d \<and>
     lineage_ok d \<and> refs_ok d"

lemma registry_ok_empty [simp]: "registry_ok empty_db"
  by (simp add: registry_ok_def empty_db_def keys_ok_def rows_ok_def witnesses_ok_def single_ok_def
      family_ok_def refs_ok_def primary_keys_ok_def lineage_ok_def superseded_rel_def codicil_rel_def acyclic_def)

interpretation registry_inv: step_invariant reg_step registry_ok
  by unfold_locales
    (auto simp: reg_step_def registry_ok_def
      intro: keys_ok_step rows_ok_step witnesses_ok_step single_ok_step family_ok_step refs_ok_step
        primary_keys_ok_step lineage_ok_step)

interpretation registry_keys: step_invariant reg_step keys_ok
  by unfold_locales (auto simp: reg_step_def intro: keys_ok_step)

section \<open>Consequences for single wills\<close>

lemma distinct_at_most_one:
  assumes "distinct xs" and "\<And>x y. x \<in> set xs \<Longrightarrow> y \<in> set xs \<Longrightarrow> x = y"
  shows "length xs \<le> 1"
proof (cases xs)
  case (Cons x ys)
  show ?thesis
  proof (cases ys)
    case (Cons y zs)
    with assms(1) assms(2) [of x y] \<open>xs = x # ys\<close> show ?thesis by simp
  qed (simp add: Cons)
qed simp

lemma active_ids_single:
  assumes "registry_ok d"
  shows "length (active_ids flt d) \<le> 1"
proof (rule distinct_at_most_one)
  show "distinct (active_ids flt d)"
    using assms by (simp add: active_ids_def registry_ok_def keys_ok_def distinct_map_filter)
  show "x = y" if "x \<in> set (active_ids flt d)" "y \<in> set (active_ids flt d)" for x y
  proof -
    from that obtain r q where "r \<in> set (will_t d)" "active_of flt r" "wr_id r = x"
        "q \<in> set (will_t d)" "active_of flt q" "wr_id q = y"
      by (auto simp: active_ids_def)
    with single_ok_old [of d r q flt] assms show ?thesis by (simp add: registry_ok_def)
  qed
qed

lemma attested:
  assumes "registry_ok d" "r \<in> set (will_t d)" "executed r"
  shows "wr_testator_signed_at r \<noteq> None \<and>
    2 \<le> length (filter (\<lambda>x. wsr_will_id x = wr_id r \<and> wsr_flt x \<noteq> wr_testator_flt r) (witness_t d))"
proof -
  have "wsr_flt x \<noteq> wr_testator_flt r" if "x \<in> set (witness_t d)" "wsr_will_id x = wr_id r" for x
  proof -
    from assms(1) that obtain q where q: "q \<in> set (will_t d)" "wr_id q = wr_id r" "wr_testator_flt q \<noteq> wsr_flt x"
      unfolding registry_ok_def witnesses_ok_def by metis
    have keys: "keys_ok d" using assms(1) by (simp add: registry_ok_def)
    from find_will_iff [OF keys, of "wr_id r"] q assms(2) have "q = r" by (metis option.inject)
    with q show ?thesis by simp
  qed
  then have "filter (\<lambda>x. wsr_will_id x = wr_id r \<and> wsr_flt x \<noteq> wr_testator_flt r) (witness_t d) =
      sql_where wsr_will_id (wr_id r) (witness_t d)"
    unfolding sql_where_def by (intro filter_cong) auto
  with assms show ?thesis by (auto simp: registry_ok_def rows_ok_def row_ok_def witness_count_def)
qed

end
