(* ===== verification/Lifecycle.thy ===== *)
theory Lifecycle
  imports Registry_Invariants
begin

text \<open>
  The state machine of a will, and what a run never changes: the state of a stored will moves only
  along the edges of \<open>lifecycle_edge\<close>, a will that has left the draft state keeps its content, and
  the audit log only grows.
\<close>

section \<open>The state machine\<close>

fun lifecycle_edge :: "WillStatus \<Rightarrow> WillStatus \<Rightarrow> bool" where
  "lifecycle_edge WillStatusDraft s = (s = WillStatusLocked \<or> s = WillStatusSuperseded)"
| "lifecycle_edge WillStatusLocked s =
     (s = WillStatusSuperseded \<or> s = WillStatusDeathNotified \<or> s = WillStatusUnlockedDead)"
| "lifecycle_edge WillStatusDeathNotified s = (s = WillStatusUnlockedDead)"
| "lifecycle_edge _ s = False"

definition status_in :: "WillID \<Rightarrow> db \<Rightarrow> WillStatus option" where
  "status_in k d = map_option (\<lambda>r. status_of_text (wr_status r)) (find_will k d)"

lemma row_change_edge:
  "row_change n r r' \<Longrightarrow> status_of_text (wr_status r') = status_of_text (wr_status r) \<or>
     lifecycle_edge (status_of_text (wr_status r)) (status_of_text (wr_status r'))"
  by (auto elim!: row_changeE simp: row_defs)

lemma supersede_edge:
  "active_of f r \<Longrightarrow> lifecycle_edge (status_of_text (wr_status r)) (status_of_text (wr_status (supersede_row n r)))"
  by (auto simp: active_of_def supersede_row_def)

text \<open>The row of a will after a step.\<close>

definition row_kept :: "will_row \<Rightarrow> will_row \<Rightarrow> bool" where
  "row_kept r u \<longleftrightarrow> wr_id u = wr_id r \<and> wr_testator_flt u = wr_testator_flt r \<and>
     wr_testator_full_name u = wr_testator_full_name r \<and>
     wr_testator_assurance_level u = wr_testator_assurance_level r \<and>
     wr_vault_ciphertext u = wr_vault_ciphertext r \<and> wr_vault_nonce u = wr_vault_nonce r \<and>
     wr_vault_alg u = wr_vault_alg r \<and> wr_is_codicil u = wr_is_codicil r \<and>
     wr_parent_will_id u = wr_parent_will_id r \<and> wr_audit_note u = wr_audit_note r \<and>
     wr_vault_unlock_delay_days u = wr_vault_unlock_delay_days r \<and>
     (wr_status r \<noteq> ''draft'' \<longrightarrow> wr_testator_signed_at u = wr_testator_signed_at r \<and>
        wr_testator_payload_hash u = wr_testator_payload_hash r) \<and>
     (status_of_text (wr_status u) = status_of_text (wr_status r) \<or>
        lifecycle_edge (status_of_text (wr_status r)) (status_of_text (wr_status u)))"

lemma row_kept_refl [simp]: "row_kept r r"
  by (simp add: row_kept_def)

lemma row_kept_change: "row_change n r r' \<Longrightarrow> row_kept r r'"
  using row_change_edge [of n r r'] unfolding row_kept_def
  by (auto elim!: row_changeE simp: row_defs)

lemma row_kept_supersede: "active_of f r \<Longrightarrow> row_kept r (supersede_row n r)"
  using supersede_edge [of f r n] unfolding row_kept_def by (simp add: supersede_row_def)

lemma find_will_step:
  assumes "registry a d d'" "keys_ok d" "find_will k d = Some r"
  obtains u where "find_will k d' = Some u" "row_kept r u"
proof -
  note mem = find_will_mem [OF assms(3)]
  have found: "find_will k d' = Some u" if "u \<in> set (will_t d')" "wr_id u = k" for u
    using keys_ok_step [OF assms(1,2)] that by (simp add: find_will_iff)
  have kept: thesis if "r \<in> set (will_t d')"
    using found [OF that] mem by (intro \<open>\<And>u. find_will k d' = Some u \<Longrightarrow> row_kept r u \<Longrightarrow> thesis\<close> [of r]) auto
  from assms(1,2) show thesis
  proof (cases rule: registry_kinds)
    case (drafted will)
    let ?u = "superseding (Will_ID will) (active_ids (RealMeFLT (Testator will)) d) r"
    have "?u \<in> set (will_t d')" using drafted(1) mem by simp
    moreover have "row_kept r ?u"
      using mem row_kept_supersede by (simp add: superseding_active [OF assms(2)])
    ultimately show thesis using found mem by (intro that [of ?u]) auto
  next
    case (row q q')
    show thesis
    proof (cases "wr_id q = k")
      case True
      with row(1) assms(3) have "q = r" by simp
      with row mem have "find_will k d' = Some q'" by (intro found) (auto simp: in_put_row)
      with row \<open>q = r\<close> show thesis by (intro that [of q']) (auto intro: row_kept_change)
    next
      case False
      with row mem have "find_will k d' = Some r" by (intro found) (auto simp: in_put_row intro!: bexI [of _ r])
      then show thesis by (intro that [of r]) auto
    qed
  qed (rule kept; simp add: mem)+
qed

lemma status_step:
  assumes "reg_step d d'" "keys_ok d" "status_in k d = Some s"
  shows "\<exists>s'. status_in k d' = Some s' \<and> (s' = s \<or> lifecycle_edge s s')"
proof -
  from assms obtain a r where a: "registry a d d'" and r: "find_will k d = Some r"
      "s = status_of_text (wr_status r)"
    by (auto simp: reg_step_def status_in_def)
  from find_will_step [OF a assms(2) r(1)] obtain u where "find_will k d' = Some u" "row_kept r u" .
  with r show ?thesis by (auto simp: status_in_def row_kept_def)
qed

lemma status_run:
  assumes "reg_step\<^sup>*\<^sup>* d d'" "keys_ok d" "status_in k d = Some s"
  shows "\<exists>s'. status_in k d' = Some s' \<and> lifecycle_edge\<^sup>*\<^sup>* s s'"
  using assms(1)
proof (induction rule: rtranclp_induct)
  case base
  with assms(3) show ?case by blast
next
  case (step d1 d2)
  then obtain s1 where s1: "status_in k d1 = Some s1" "lifecycle_edge\<^sup>*\<^sup>* s s1" by blast
  from registry_keys.inv_steps [OF step(1) assms(2)] have "keys_ok d1" .
  from status_step [OF step(2) this s1(1)] s1(2) show ?case by (auto intro: rtranclp.rtrancl_into_rtrancl)
qed

text \<open>The final states have no way out.\<close>

lemma lifecycle_final:
  "lifecycle_edge\<^sup>*\<^sup>* WillStatusSuperseded s \<Longrightarrow> s = WillStatusSuperseded"
  "lifecycle_edge\<^sup>*\<^sup>* WillStatusUnlockedDead s \<Longrightarrow> s = WillStatusUnlockedDead"
  by (erule converse_rtranclpE; simp)+

lemma lifecycle_no_way_back:
  "lifecycle_edge\<^sup>*\<^sup>* s t \<Longrightarrow> s \<noteq> WillStatusDraft \<Longrightarrow> t \<noteq> WillStatusDraft"
  by (induction rule: rtranclp_induct) (auto elim: lifecycle_edge.elims)

section \<open>Content is fixed once the draft state is left\<close>

record will_content =
  wc_clauses :: "clause_row list"
  wc_beneficiaries :: "beneficiary_row list"
  wc_executors :: "executor_row list"
  wc_witnesses :: "witness_row list"
  wc_assets :: "asset_row list"
  wc_properties :: "property_row list"
  wc_vault :: "(string \<times> string \<times> string) option"
  wc_signature :: "(gotime option \<times> string option) option"
  wc_testator :: "string option"

definition content_of :: "WillID \<Rightarrow> db \<Rightarrow> will_content" where
  "content_of k d = \<lparr>wc_clauses = sql_where cr_will_id k (clause_t d),
     wc_beneficiaries = sql_where br_will_id k (beneficiary_t d),
     wc_executors = sql_where er_will_id k (executor_t d),
     wc_witnesses = sql_where wsr_will_id k (witness_t d),
     wc_assets = sql_where dr_will_id k (asset_t d),
     wc_properties = sql_where pr_will_id k (property_t d),
     wc_vault = map_option (\<lambda>r. (wr_vault_ciphertext r, wr_vault_nonce r, wr_vault_alg r)) (find_will k d),
     wc_signature = map_option (\<lambda>r. (wr_testator_signed_at r, wr_testator_payload_hash r)) (find_will k d),
     wc_testator = map_option wr_testator_flt (find_will k d)\<rparr>"

lemma sql_where_append [simp]: "sql_where col k (t @ u) = sql_where col k t @ sql_where col k u"
  by (simp add: sql_where_def)

lemma sql_where_none: "(\<And>r. r \<in> set t \<Longrightarrow> col r \<noteq> k) \<Longrightarrow> sql_where col k t = []"
  by (simp add: sql_where_def filter_empty_conv)

text \<open>The parts of the content that live in other tables.\<close>

lemma tables_step:
  assumes "registry a d d'" "keys_ok d" "find_will k d = Some r"
  shows "sql_where cr_will_id k (clause_t d') = sql_where cr_will_id k (clause_t d)"
    "sql_where br_will_id k (beneficiary_t d') = sql_where br_will_id k (beneficiary_t d)"
    "sql_where er_will_id k (executor_t d') = sql_where er_will_id k (executor_t d)"
    "wr_status r \<noteq> ''draft'' \<Longrightarrow> sql_where wsr_will_id k (witness_t d') = sql_where wsr_will_id k (witness_t d)"
    "wr_status r \<noteq> ''draft'' \<Longrightarrow> sql_where dr_will_id k (asset_t d') = sql_where dr_will_id k (asset_t d)"
    "wr_status r \<noteq> ''draft'' \<Longrightarrow> sql_where pr_will_id k (property_t d') = sql_where pr_will_id k (property_t d)"
proof -
  have fresh: "Will_ID will \<noteq> k" if "Will_ID will \<notin> will_ids d" for will
    using that find_will_ids [OF assms(3)] by blast
  note new_rows = with_will_rows_def clause_row_of_def beneficiary_row_of_def executor_row_of_def
  show "sql_where cr_will_id k (clause_t d') = sql_where cr_will_id k (clause_t d)"
    "sql_where br_will_id k (beneficiary_t d') = sql_where br_will_id k (beneficiary_t d)"
    "sql_where er_will_id k (executor_t d') = sql_where er_will_id k (executor_t d)"
    using assms(1,2) by (cases rule: registry_kinds; auto simp: new_rows dest: fresh intro!: sql_where_none)+
  show "wr_status r \<noteq> ''draft'' \<Longrightarrow> sql_where wsr_will_id k (witness_t d') = sql_where wsr_will_id k (witness_t d)"
    "wr_status r \<noteq> ''draft'' \<Longrightarrow> sql_where dr_will_id k (asset_t d') = sql_where dr_will_id k (asset_t d)"
    "wr_status r \<noteq> ''draft'' \<Longrightarrow> sql_where pr_will_id k (property_t d') = sql_where pr_will_id k (property_t d)"
    using assms by (cases rule: registry_kinds; auto intro!: sql_where_none)+
qed

lemma content_step:
  assumes "registry a d d'" "keys_ok d" "find_will k d = Some r" "wr_status r \<noteq> ''draft''"
  shows "content_of k d' = content_of k d"
proof -
  from find_will_step [OF assms(1-3)] obtain u where "find_will k d' = Some u" "row_kept r u" .
  with tables_step [OF assms(1-3)] assms(3,4) show ?thesis
    by (simp add: content_of_def row_kept_def)
qed

lemma content_run:
  assumes "reg_step\<^sup>*\<^sup>* d d'" "keys_ok d" "status_in k d = Some s" "s \<noteq> WillStatusDraft"
  shows "content_of k d' = content_of k d"
  using assms(1)
proof (induction rule: rtranclp_induct)
  case (step d1 d2)
  from registry_keys.inv_steps [OF step(1) assms(2)] have keys: "keys_ok d1" .
  from status_run [OF step(1) assms(2,3)] obtain r where
    r: "find_will k d1 = Some r" "lifecycle_edge\<^sup>*\<^sup>* s (status_of_text (wr_status r))"
    by (auto simp: status_in_def)
  from lifecycle_no_way_back [OF r(2) assms(4)] have "wr_status r \<noteq> ''draft''" by auto
  with r(1) step(2,3) keys content_step show ?case by (auto simp: reg_step_def)
qed simp

section \<open>The audit log only grows\<close>

lemma log_step: "registry a d d' \<Longrightarrow> keys_ok d \<Longrightarrow> \<exists>rows. audit_t d' = audit_t d @ rows"
  by (cases rule: registry_kinds [of a d d'], assumption, assumption) auto

lemma log_run:
  assumes "reg_step\<^sup>*\<^sup>* d d'" "keys_ok d"
  shows "\<exists>rows. audit_t d' = audit_t d @ rows"
  using assms(1)
proof (induction rule: rtranclp_induct)
  case (step d1 d2)
  from registry_keys.inv_steps [OF step(1) assms(2)] step(2) obtain rows where
    "audit_t d2 = audit_t d1 @ rows" unfolding reg_step_def using log_step by blast
  with step(3) show ?case by auto
qed simp

end
