(* ===== verification/Go_Url.thy ===== *)
theory Go_Url
  imports Go_Prelude "HOL-Library.List_Lexorder" "HOL-Library.Char_ord"
begin

text \<open>
  The parts of \<open>net/url\<close> the program uses: escaping of query components and path segments, encoded
  parameter lists and their parsing, and when a URL string is accepted.  A string is a list of
  bytes.
\<close>

section \<open>Escaping\<close>

definition hex_upper :: "nat \<Rightarrow> char" where
  "hex_upper n = char_of (if n < 10 then 48 + n else 55 + n)"

definition percent :: "char \<Rightarrow> string" where
  "percent c = [CHR ''%'', hex_upper (of_char c div 16), hex_upper (of_char c mod 16)]"

definition unreserved :: "char \<Rightarrow> bool" where
  "unreserved c \<longleftrightarrow> (let n = (of_char c :: nat) in
     48 \<le> n \<and> n \<le> 57 \<or> 65 \<le> n \<and> n \<le> 90 \<or> 97 \<le> n \<and> n \<le> 122 \<or> c \<in> set ''-_.~'')"

definition query_escape_char :: "char \<Rightarrow> string" where
  "query_escape_char c =
     (if unreserved c then [c] else if c = CHR '' '' then ''+'' else percent c)"

definition url_QueryEscape :: "string \<Rightarrow> string" where
  "url_QueryEscape s = concat (map query_escape_char s)"

definition path_escape_char :: "char \<Rightarrow> string" where
  "path_escape_char c = (if unreserved c \<or> c \<in> set ''$&+:=@'' then [c] else percent c)"

definition url_PathEscape :: "string \<Rightarrow> string" where
  "url_PathEscape s = concat (map path_escape_char s)"

section \<open>Unescaping\<close>

definition is_hex :: "char \<Rightarrow> bool" where
  "is_hex c \<longleftrightarrow> (let n = (of_char c :: nat) in
     48 \<le> n \<and> n \<le> 57 \<or> 65 \<le> n \<and> n \<le> 70 \<or> 97 \<le> n \<and> n \<le> 102)"

definition unhex :: "char \<Rightarrow> nat" where
  "unhex c = (let n = of_char c in if n \<le> 57 then n - 48 else if n \<le> 70 then n - 55 else n - 87)"

text \<open>With \<open>query\<close> a \<open>+\<close> stands for a space, as in a query component.\<close>

fun url_unescape :: "bool \<Rightarrow> string \<Rightarrow> string option" where
  "url_unescape query [] = Some []"
| "url_unescape query (c # s) =
     (if c = CHR ''%''
      then (case s of
          a # b # r \<Rightarrow> if is_hex a \<and> is_hex b
            then map_option ((#) (char_of (unhex a * 16 + unhex b))) (url_unescape query r) else None
        | _ \<Rightarrow> None)
      else map_option ((#) (if query \<and> c = CHR ''+'' then CHR '' '' else c)) (url_unescape query s))"

definition url_QueryUnescape :: "string \<Rightarrow> string option" where
  "url_QueryUnescape s = url_unescape True s"

lemma hex_upper_unhex:
  assumes "n < 16"
  shows "is_hex (hex_upper n)" "unhex (hex_upper n) = n"
  using assms by (auto simp: is_hex_def unhex_def hex_upper_def Let_def)

lemma char_nibbles: "(of_char c :: nat) div 16 < 16" "(of_char c :: nat) mod 16 < 16"
  using less_mult_imp_div_less [of "of_char c" 16 16] nat_of_char_less_256 [of c] by simp_all

lemma unescape_percent:
  "url_unescape q (percent c @ s) = map_option ((#) c) (url_unescape q s)"
  by (simp add: percent_def hex_upper_unhex [OF char_nibbles(1)] hex_upper_unhex [OF char_nibbles(2)])

lemma unreserved_plain:
  assumes "unreserved c"
  shows "c \<noteq> CHR ''%''" "c \<noteq> CHR ''+''" "c \<noteq> CHR ''&''" "c \<noteq> CHR ''=''" "c \<noteq> CHR '';''" "c \<noteq> CHR ''#''"
    "c \<noteq> CHR ''?''" "c \<noteq> CHR ''/''"
  using assms by (auto simp: unreserved_def)

lemma unescape_char: "url_unescape True (query_escape_char c @ s) = map_option ((#) c) (url_unescape True s)"
  by (auto simp: query_escape_char_def unescape_percent dest: unreserved_plain)

lemma unescape_path_char:
  "url_unescape False (path_escape_char c @ s) = map_option ((#) c) (url_unescape False s)"
  by (auto simp: path_escape_char_def unescape_percent dest: unreserved_plain)

lemma QueryUnescape_Escape [simp]: "url_QueryUnescape (url_QueryEscape s) = Some s"
  unfolding url_QueryUnescape_def url_QueryEscape_def
  by (induction s) (simp_all add: unescape_char)

lemma PathUnescape_Escape: "url_unescape False (url_PathEscape s) = Some s"
  unfolding url_PathEscape_def by (induction s) (simp_all add: unescape_path_char)

interpretation query_codec: codec url_QueryEscape "\<lambda>s. the (url_QueryUnescape s)" "\<lambda>_. True"
  by unfold_locales simp

interpretation path_codec: codec url_PathEscape "\<lambda>s. the (url_unescape False s)" "\<lambda>_. True"
  by unfold_locales (simp add: PathUnescape_Escape)

text \<open>No escaped component holds a separator.\<close>

lemma hex_upper_plain: "n < 16 \<Longrightarrow> unreserved (hex_upper n)"
  by (auto simp: unreserved_def hex_upper_def Let_def)

lemma percent_set: "set (percent c) \<subseteq> {CHR ''%''} \<union> {x. unreserved x}"
  by (simp add: percent_def hex_upper_plain [OF char_nibbles(1)] hex_upper_plain [OF char_nibbles(2)])

lemma QueryEscape_set: "set (url_QueryEscape s) \<subseteq> {CHR ''%'', CHR ''+''} \<union> {x. unreserved x}"
  using percent_set by (fastforce simp: url_QueryEscape_def query_escape_char_def split: if_splits)

lemma QueryEscape_plain:
  assumes "c \<in> set (url_QueryEscape s)"
  shows "c \<noteq> CHR ''&''" "c \<noteq> CHR ''=''" "c \<noteq> CHR '';''" "c \<noteq> CHR ''#''" "c \<noteq> CHR ''?''" "c \<noteq> CHR ''/''"
  using subsetD [OF QueryEscape_set assms] by (auto dest: unreserved_plain)

section \<open>Parameter lists\<close>

text \<open>\<open>url.Values\<close> with one value per key; \<open>Set\<close> replaces, \<open>Encode\<close> sorts by key.\<close>

type_synonym url_values = "(string \<times> string) list"

definition values_Set :: "string \<Rightarrow> string \<Rightarrow> url_values \<Rightarrow> url_values" where
  "values_Set k v ps = filter (\<lambda>p. fst p \<noteq> k) ps @ [(k, v)]"

definition encode_pair :: "string \<times> string \<Rightarrow> string" where
  "encode_pair p = url_QueryEscape (fst p) @ ''='' @ url_QueryEscape (snd p)"

definition values_Encode :: "url_values \<Rightarrow> string" where
  "values_Encode ps = strings_Join (map encode_pair (sort_key fst ps)) ''&''"

text \<open>\<open>strings.Cut\<close> at a character: what is before it, and what is after it (empty if it is absent).\<close>

definition cut_at :: "char \<Rightarrow> string \<Rightarrow> string \<times> string" where
  "cut_at c s = (takeWhile (\<lambda>x. x \<noteq> c) s, drop 1 (dropWhile (\<lambda>x. x \<noteq> c) s))"

lemma cut_at_sep: "c \<notin> set a \<Longrightarrow> cut_at c (a @ c # b) = (a, b)"
  by (induction a) (auto simp: cut_at_def)

lemma cut_at_none: "c \<notin> set a \<Longrightarrow> cut_at c a = (a, [])"
  by (induction a) (auto simp: cut_at_def)

text \<open>One setting of a query; a malformed one is skipped, as \<open>URL.Query\<close> does.\<close>

definition parse_pair :: "string \<Rightarrow> (string \<times> string) option" where
  "parse_pair s =
     (if CHR '';'' \<in> set s \<or> s = [] then None
      else (case cut_at (CHR ''='') s of (k, v) \<Rightarrow>
        (case url_QueryUnescape k of None \<Rightarrow> None | Some k \<Rightarrow>
        (case url_QueryUnescape v of None \<Rightarrow> None | Some v \<Rightarrow> Some (k, v)))))"

function url_ParseQuery :: "string \<Rightarrow> url_values" where
  "url_ParseQuery s =
     (if s = [] then []
      else (case cut_at (CHR ''&'') s of (p, rest) \<Rightarrow>
        (case parse_pair p of None \<Rightarrow> url_ParseQuery rest | Some kv \<Rightarrow> kv # url_ParseQuery rest)))"
  by pat_completeness auto
termination
proof (relation "measure length", simp)
  fix s p rest assume "s \<noteq> ([] :: string)" "(p, rest) = cut_at (CHR ''&'') s"
  then have "rest = drop 1 (dropWhile (\<lambda>x. x \<noteq> CHR ''&'') s)" by (simp add: cut_at_def)
  moreover have "length (dropWhile (\<lambda>x. x \<noteq> CHR ''&'') s) \<le> length s" by (rule length_dropWhile_le)
  ultimately have "length rest < length s" using \<open>s \<noteq> []\<close> by (cases s) auto
  then show "(rest, s) \<in> measure length" "(rest, s) \<in> measure length" by simp_all
qed

declare url_ParseQuery.simps [simp del]

definition values_Get :: "string \<Rightarrow> url_values \<Rightarrow> string" where
  "values_Get k ps = (case map_of ps k of None \<Rightarrow> '''' | Some v \<Rightarrow> v)"

lemma encode_pair_plain: "c \<in> set (encode_pair p) \<Longrightarrow> c \<noteq> CHR ''&'' \<and> c \<noteq> CHR '';'' \<and> c \<noteq> CHR ''#'' \<and> c \<noteq> CHR ''?''"
  by (auto simp: encode_pair_def dest: QueryEscape_plain)

lemma parse_encode_pair: "parse_pair (encode_pair p) = Some p"
proof -
  have "CHR ''='' \<notin> set (url_QueryEscape (fst p))" using QueryEscape_plain(2) by blast
  then have "cut_at (CHR ''='') (encode_pair p) = (url_QueryEscape (fst p), url_QueryEscape (snd p))"
    by (simp add: encode_pair_def cut_at_sep)
  moreover have "CHR '';'' \<notin> set (encode_pair p)" "encode_pair p \<noteq> []"
    using encode_pair_plain by (blast, simp add: encode_pair_def)
  ultimately show ?thesis by (simp add: parse_pair_def)
qed

lemma ParseQuery_pairs: "url_ParseQuery (strings_Join (map encode_pair ps) ''&'') = ps"
proof (induction ps)
  case Nil
  show ?case by (simp add: url_ParseQuery.simps)
next
  case (Cons p ps)
  have amp: "CHR ''&'' \<notin> set (encode_pair p)" using encode_pair_plain by blast
  have ne: "encode_pair p \<noteq> []" by (simp add: encode_pair_def)
  show ?case
  proof (cases ps)
    case Nil
    with amp ne show ?thesis
      by (simp add: url_ParseQuery.simps [of "encode_pair p"] cut_at_none parse_encode_pair url_ParseQuery.simps)
  next
    case (Cons q qs)
    then have "strings_Join (map encode_pair (p # ps)) ''&'' = encode_pair p @ CHR ''&'' # strings_Join (map encode_pair ps) ''&''"
      by simp
    with amp ne Cons.IH show ?thesis
      by (simp add: url_ParseQuery.simps [of "encode_pair p @ _"] cut_at_sep parse_encode_pair)
  qed
qed

text \<open>What a server reads from an encoded query is the parameter list.\<close>

lemma ParseQuery_Encode: "url_ParseQuery (values_Encode ps) = sort_key fst ps"
  unfolding values_Encode_def by (rule ParseQuery_pairs)

lemma map_of_sort_key:
  fixes f :: "'a \<times> 'b \<Rightarrow> 'c :: linorder"
  assumes "distinct (map fst ps)"
  shows "map_of (sort_key f ps) = map_of ps"
  using assms by (subst map_of_inject_set) (auto simp: distinct_map)

lemma values_Get_Encode:
  "distinct (map fst ps) \<Longrightarrow> values_Get k (url_ParseQuery (values_Encode ps)) = values_Get k ps"
  by (simp add: values_Get_def ParseQuery_Encode map_of_sort_key)

lemma values_Set_distinct [simp]: "distinct (map fst ps) \<Longrightarrow> distinct (map fst (values_Set k v ps))"
  by (auto simp: values_Set_def distinct_map inj_on_def)

lemma values_Get_Set: "values_Get k (values_Set k' v ps) = (if k = k' then v else values_Get k ps)"
proof -
  have "map_of (values_Set k' v ps) k = (if k = k' then Some v else map_of ps k)"
    by (induction ps) (auto simp: values_Set_def)
  then show ?thesis by (simp add: values_Get_def)
qed

section \<open>Which URL strings are accepted\<close>

text \<open>
  \<open>http.NewRequest\<close> parses its URL.  Every client calls it with a fixed, well-formed
  \<open>https://host\<close> followed by a path that starts with a slash; then the rest of the string can
  only fail by a control byte before the fragment or by a malformed percent escape in the path or
  the fragment.  (The query is not examined.)
\<close>

definition is_control :: "char \<Rightarrow> bool" where
  "is_control c \<longleftrightarrow> (let n = (of_char c :: nat) in n < 32 \<or> n = 127)"

definition url_accepted :: "string \<Rightarrow> bool" where
  "url_accepted s = (case cut_at (CHR ''#'') s of (u, frag) \<Rightarrow>
     list_all (\<lambda>c. \<not> is_control c) u \<and>
     url_unescape False (fst (cut_at (CHR ''?'') u)) \<noteq> None \<and> url_unescape False frag \<noteq> None)"

end
