(* ===== verification/Json_Strings.thy ===== *)
theory Json_Strings
  imports Go_Url
begin

text \<open>
  The string literals of \<open>encoding/json\<close>: how \<open>Marshal\<close> writes them and the decoder reads them.
  Strings are bytes, so UTF-8 is written out.
\<close>

section \<open>UTF-8\<close>

abbreviation byte :: "char \<Rightarrow> nat" where
  "byte c \<equiv> of_char c"

definition in_bytes :: "nat \<Rightarrow> nat \<Rightarrow> char \<Rightarrow> bool" where
  "in_bytes lo hi c \<longleftrightarrow> lo \<le> byte c \<and> byte c \<le> hi"

definition utf8_two :: "char \<Rightarrow> char \<Rightarrow> bool" where
  "utf8_two c c1 \<longleftrightarrow> in_bytes 0xC2 0xDF c \<and> in_bytes 0x80 0xBF c1"

definition utf8_three :: "char \<Rightarrow> char \<Rightarrow> char \<Rightarrow> bool" where
  "utf8_three c c1 c2 \<longleftrightarrow> in_bytes 0xE0 0xEF c \<and> in_bytes 0x80 0xBF c2 \<and>
     in_bytes (if byte c = 0xE0 then 0xA0 else 0x80) (if byte c = 0xED then 0x9F else 0xBF) c1"

definition utf8_four :: "char \<Rightarrow> char \<Rightarrow> char \<Rightarrow> char \<Rightarrow> bool" where
  "utf8_four c c1 c2 c3 \<longleftrightarrow> in_bytes 0xF0 0xF4 c \<and> in_bytes 0x80 0xBF c2 \<and> in_bytes 0x80 0xBF c3 \<and>
     in_bytes (if byte c = 0xF0 then 0x90 else 0x80) (if byte c = 0xF4 then 0x8F else 0xBF) c1"

text \<open>The number of bytes of the character a text starts with; 0 if it is not well-formed.\<close>

definition utf8_len :: "string \<Rightarrow> nat" where
  "utf8_len s = (case s of
       [] \<Rightarrow> 0
     | c # s \<Rightarrow> if byte c < 0x80 then 1 else (case s of
           [] \<Rightarrow> 0
         | c1 # s \<Rightarrow> if utf8_two c c1 then 2 else (case s of
               [] \<Rightarrow> 0
             | c2 # s \<Rightarrow> if utf8_three c c1 c2 then 3 else (case s of
                   [] \<Rightarrow> 0
                 | c3 # s \<Rightarrow> if utf8_four c c1 c2 c3 then 4 else 0))))"

lemma utf8_len_bound: "utf8_len s \<le> length s"
  by (simp add: utf8_len_def split: list.split)

lemma utf8_len_ascii [simp]: "byte c < 0x80 \<Longrightarrow> utf8_len (c # s) = 1"
  by (simp add: utf8_len_def)

text \<open>The shapes of a character.\<close>

lemma utf8_len_cases:
  assumes "utf8_len s = n" "n \<noteq> 0"
  obtains c s' where "s = c # s'" "n = 1" "byte c < 0x80"
  | c c1 s' where "s = c # c1 # s'" "n = 2" "\<not> byte c < 0x80" "utf8_two c c1"
  | c c1 c2 s' where "s = c # c1 # c2 # s'" "n = 3" "\<not> byte c < 0x80" "\<not> utf8_two c c1" "utf8_three c c1 c2"
  | c c1 c2 c3 s' where "s = c # c1 # c2 # c3 # s'" "n = 4" "\<not> byte c < 0x80" "\<not> utf8_two c c1"
      "\<not> utf8_three c c1 c2" "utf8_four c c1 c2 c3"
  using assms by (simp add: utf8_len_def split: list.splits if_splits)

text \<open>It looks at no byte beyond the character.\<close>

lemma utf8_len_take:
  assumes "utf8_len s = n" "n \<noteq> 0"
  shows "utf8_len (take n s @ t) = n"
  using assms by (cases rule: utf8_len_cases) (simp_all add: utf8_len_def)

lemma drop_shorter [termination_simp]: "s \<noteq> [] \<Longrightarrow> n \<noteq> 0 \<Longrightarrow> length (drop n s) < length s"
  by simp

function valid_utf8 :: "string \<Rightarrow> bool" where
  "valid_utf8 s = (if s = [] then True else if utf8_len s = 0 then False else valid_utf8 (drop (utf8_len s) s))"
  by auto
termination
  by (relation "measure length") auto

declare valid_utf8.simps [simp del]

lemma valid_utf8_simps [simp]:
  "valid_utf8 []" "byte c < 0x80 \<Longrightarrow> valid_utf8 (c # s) = valid_utf8 s"
  by (subst valid_utf8.simps; simp)+

definition utf8_encode :: "nat \<Rightarrow> string" where
  "utf8_encode n = map char_of
     (if n < 0x80 then [n]
      else if n < 0x800 then [0xC0 + n div 64, 0x80 + n mod 64]
      else if n < 0x10000 then [0xE0 + n div 4096, 0x80 + n div 64 mod 64, 0x80 + n mod 64]
      else [0xF0 + n div 262144, 0x80 + n div 4096 mod 64, 0x80 + n div 64 mod 64, 0x80 + n mod 64])"

text \<open>U+FFFD.\<close>

definition replacement :: string where
  "replacement = [CHR 0xEF, CHR 0xBF, CHR 0xBD]"

section \<open>Writing a string\<close>

text \<open>An ASCII byte within quotes; \<open><\<close>, \<open>>\<close> and \<open>&\<close> are escaped for HTML.\<close>

definition json_ascii :: "char \<Rightarrow> string" where
  "json_ascii c = (if c = CHR 0x22 \<or> c = CHR 0x5C then [CHR 0x5C, c]
     else if byte c = 8 then [CHR 0x5C, CHR ''b''] else if byte c = 12 then [CHR 0x5C, CHR ''f'']
     else if byte c = 10 then [CHR 0x5C, CHR ''n''] else if byte c = 13 then [CHR 0x5C, CHR ''r'']
     else if byte c = 9 then [CHR 0x5C, CHR ''t'']
     else if byte c < 0x20 \<or> c \<in> set ''<>&''
     then [CHR 0x5C, CHR ''u'', CHR ''0'', CHR ''0'', hex_digit (byte c div 16), hex_digit (byte c mod 16)]
     else [c])"

text \<open>A longer character; the line separators U+2028 and U+2029 are escaped.\<close>

definition json_rune :: "string \<Rightarrow> string" where
  "json_rune u = (if u = [CHR 0xE2, CHR 0x80, CHR 0xA8] then CHR 0x5C # ''u2028''
     else if u = [CHR 0xE2, CHR 0x80, CHR 0xA9] then CHR 0x5C # ''u2029'' else u)"

function json_escape :: "string \<Rightarrow> string" where
  "json_escape [] = []"
| "json_escape (c # s) =
     (if byte c < 0x80 then json_ascii c @ json_escape s
      else if utf8_len (c # s) = 0 then (CHR 0x5C # ''ufffd'') @ json_escape s
      else json_rune (take (utf8_len (c # s)) (c # s)) @ json_escape (drop (utf8_len (c # s)) (c # s)))"
  by pat_completeness auto
termination
  by (relation "measure length") (auto simp: drop_Cons')

declare json_escape.simps(2) [simp del]

definition json_quote :: "string \<Rightarrow> string" where
  "json_quote s = CHR 0x22 # json_escape s @ [CHR 0x22]"

section \<open>Reading a string\<close>

fun hex4 :: "string \<Rightarrow> (nat \<times> string) option" where
  "hex4 (a # b # c # d # s) = (if list_all is_hex [a, b, c, d]
     then Some (((unhex a * 16 + unhex b) * 16 + unhex c) * 16 + unhex d, s) else None)"
| "hex4 _ = None"

text \<open>
  What the digits after \<open>\\u\<close> stand for: a surrogate pair is one character, a lone half is not
  well-formed.
\<close>

definition json_unicode :: "string \<Rightarrow> (string \<times> string) option" where
  "json_unicode s = (case hex4 s of
       None \<Rightarrow> None
     | Some (n, s) \<Rightarrow>
         if n < 0xD800 \<or> 0xE000 \<le> n then Some (utf8_encode n, s)
         else (case s of
             a # b # s' \<Rightarrow> if a = CHR 0x5C \<and> b = CHR ''u''
               then (case hex4 s' of
                   None \<Rightarrow> None
                 | Some (m, s'') \<Rightarrow> if n < 0xDC00 \<and> 0xDC00 \<le> m \<and> m < 0xE000
                     then Some (utf8_encode (0x10000 + (n - 0xD800) * 0x400 + (m - 0xDC00)), s'')
                     else Some (replacement, s))
               else Some (replacement, s)
           | _ \<Rightarrow> Some (replacement, s)))"

definition json_simple_escape :: "char \<Rightarrow> char option" where
  "json_simple_escape c = (if c \<in> {CHR 0x22, CHR 0x5C, CHR ''/''} then Some c
     else if c = CHR ''b'' then Some (char_of (8 :: nat)) else if c = CHR ''f'' then Some (char_of (12 :: nat))
     else if c = CHR ''n'' then Some (char_of (10 :: nat)) else if c = CHR ''r'' then Some (char_of (13 :: nat))
     else if c = CHR ''t'' then Some (char_of (9 :: nat)) else None)"

lemma hex4_shorter: "hex4 s = Some (n, s') \<Longrightarrow> length s' < length s"
  by (cases s rule: hex4.cases) (auto split: if_splits)

lemma json_unicode_shorter [termination_simp]: "json_unicode s = Some (u, s') \<Longrightarrow> length s' < length s"
  by (auto simp: json_unicode_def split: option.splits prod.splits if_splits list.splits dest!: hex4_shorter)

text \<open>The rest of a string literal after its opening quote: its value, and what follows.\<close>

function json_string :: "string \<Rightarrow> (string \<times> string) option" where
  "json_string [] = None"
| "json_string (c # s) =
     (if c = CHR 0x22 then Some ([], s)
      else if c = CHR 0x5C then (case s of
          [] \<Rightarrow> None
        | e # s' \<Rightarrow> if e = CHR ''u''
            then (case json_unicode s' of None \<Rightarrow> None
                | Some (u, s'') \<Rightarrow> map_option (map_prod ((@) u) id) (json_string s''))
            else (case json_simple_escape e of None \<Rightarrow> None
                | Some x \<Rightarrow> map_option (map_prod ((#) x) id) (json_string s')))
      else if byte c < 0x20 then None
      else if utf8_len (c # s) = 0 then map_option (map_prod ((@) replacement) id) (json_string s)
      else map_option (map_prod ((@) (take (utf8_len (c # s)) (c # s))) id)
             (json_string (drop (utf8_len (c # s)) (c # s))))"
  by pat_completeness auto
termination
  by (relation "measure length") (auto simp: drop_Cons' dest!: json_unicode_shorter)

declare json_string.simps(2) [simp del]

section \<open>Reading undoes writing\<close>

lemma hex_digit_unhex: "n < 16 \<Longrightarrow> is_hex (hex_digit n) \<and> unhex (hex_digit n) = n"
  by (auto simp: hex_digit_def is_hex_def unhex_def Let_def)

lemma json_string_simple:
  "json_simple_escape e = Some x \<Longrightarrow> json_string (CHR 0x5C # e # s) = map_option (map_prod ((#) x) id) (json_string s)"
  by (subst json_string.simps) (auto simp: json_simple_escape_def split: if_splits)

lemma json_string_unicode:
  "json_unicode s = Some (u, s') \<Longrightarrow>
     json_string (CHR 0x5C # CHR ''u'' # s) = map_option (map_prod ((@) u) id) (json_string s')"
  by (subst json_string.simps) simp

lemma json_unicode_ascii:
  assumes "n < 128"
  shows "json_unicode (CHR ''0'' # CHR ''0'' # hex_digit (n div 16) # hex_digit (n mod 16) # s) = Some ([char_of n], s)"
proof -
  have z: "is_hex CHR ''0''" "unhex CHR ''0'' = 0" by (simp_all add: is_hex_def unhex_def)
  have "n div 16 < 16" "n mod 16 < 16" using assms by simp_all
  then show ?thesis using assms hex_digit_unhex [of "n div 16"] hex_digit_unhex [of "n mod 16"]
    by (simp add: json_unicode_def z utf8_encode_def)
qed

lemma json_string_ascii:
  assumes "byte c < 0x80"
  shows "json_string (json_ascii c @ s) = map_option (map_prod ((#) c) id) (json_string s)"
proof -
  have code: "char_of (byte c) = c" by simp
  consider (simple) e where "json_ascii c = [CHR 0x5C, e]" "json_simple_escape e = Some c"
    | (hex) "json_ascii c = [CHR 0x5C, CHR ''u'', CHR ''0'', CHR ''0'', hex_digit (byte c div 16), hex_digit (byte c mod 16)]"
    | (plain) "json_ascii c = [c]" "\<not> byte c < 0x20" "c \<noteq> CHR 0x22" "c \<noteq> CHR 0x5C"
  proof (cases "c = CHR 0x22 \<or> c = CHR 0x5C")
    case True
    then show ?thesis by (intro simple [of c]) (auto simp: json_ascii_def json_simple_escape_def)
  next
    case False
    consider "byte c = 8" | "byte c = 12" | "byte c = 10" | "byte c = 13" | "byte c = 9"
      | "byte c \<notin> {8, 12, 10, 13, 9}" by auto
    then show ?thesis
    proof cases
      case 1
      show ?thesis by (rule simple [of "CHR ''b''"]) (use False 1 code in \<open>simp_all add: json_ascii_def json_simple_escape_def\<close>)
    next
      case 2
      show ?thesis by (rule simple [of "CHR ''f''"]) (use False 2 code in \<open>simp_all add: json_ascii_def json_simple_escape_def\<close>)
    next
      case 3
      show ?thesis by (rule simple [of "CHR ''n''"]) (use False 3 code in \<open>simp_all add: json_ascii_def json_simple_escape_def\<close>)
    next
      case 4
      show ?thesis by (rule simple [of "CHR ''r''"]) (use False 4 code in \<open>simp_all add: json_ascii_def json_simple_escape_def\<close>)
    next
      case 5
      show ?thesis by (rule simple [of "CHR ''t''"]) (use False 5 code in \<open>simp_all add: json_ascii_def json_simple_escape_def\<close>)
    next
      case 6
      then show ?thesis using False
        by (cases "byte c < 0x20 \<or> c \<in> set ''<>&''") (rule hex plain; simp add: json_ascii_def; fail)+
    qed
  qed
  then show ?thesis
  proof cases
    case simple
    then show ?thesis using json_string_simple by simp
  next
    case hex
    have "(@) [c] = (#) c" by auto
    then show ?thesis using hex json_string_unicode [OF json_unicode_ascii [OF assms]] by simp
  next
    case plain
    have "(@) [c] = (#) c" by auto
    then show ?thesis using plain assms by (subst plain(1), subst append.simps, subst json_string.simps) simp
  qed
qed

lemma json_string_rune:
  assumes "utf8_len u = length u" "u \<noteq> []" "\<not> byte (hd u) < 0x80"
  shows "json_string (json_rune u @ s) = map_option (map_prod ((@) u) id) (json_string s)"
proof -
  have sep: "json_unicode (CHR ''2'' # CHR ''0'' # CHR ''2'' # CHR ''8'' # s) = Some ([CHR 0xE2, CHR 0x80, CHR 0xA8], s)"
    "json_unicode (CHR ''2'' # CHR ''0'' # CHR ''2'' # CHR ''9'' # s) = Some ([CHR 0xE2, CHR 0x80, CHR 0xA9], s)"
    by (simp_all add: json_unicode_def is_hex_def unhex_def utf8_encode_def char_of_def bit_iff_odd)
  obtain c t where u: "u = c # t" using assms(2) by (cases u) auto
  have "utf8_len (u @ s) = length u" using utf8_len_take [OF assms(1)] assms(2) by simp
  then have raw: "json_string (u @ s) = map_option (map_prod ((@) u) id) (json_string s)"
    using assms u by (subst u, subst append.simps, subst json_string.simps) auto
  show ?thesis
    using json_string_unicode [OF sep(1)] json_string_unicode [OF sep(2)] raw by (auto simp: json_rune_def)
qed

lemma json_string_escape: "valid_utf8 s \<Longrightarrow> json_string (json_escape s @ CHR 0x22 # t) = Some (s, t)"
proof (induction s rule: json_escape.induct)
  case 1
  then show ?case by (simp add: json_string.simps)
next
  case (2 c s)
  show ?case
  proof (cases "byte c < 0x80")
    case True
    then show ?thesis using 2 by (simp add: json_escape.simps json_string_ascii)
  next
    case False
    define n where "n = utf8_len (c # s)"
    have n: "n \<noteq> 0" "valid_utf8 (drop n (c # s))"
      using 2(4) valid_utf8.simps [of "c # s"] by (auto simp: n_def split: if_splits)
    have "n \<le> length (c # s)" using utf8_len_bound [of "c # s"] by (simp only: n_def)
    then have "utf8_len (take n (c # s)) = length (take n (c # s))"
      using utf8_len_take [of "c # s" n "[]"] n(1) by (simp add: n_def)
    moreover have "hd (take n (c # s)) = c" "take n (c # s) \<noteq> []" using n(1) by (cases n; simp)+
    ultimately have "json_string (json_rune (take n (c # s)) @ r) = map_option (map_prod ((@) (take n (c # s))) id) (json_string r)" for r
      using False json_string_rune by metis
    moreover have "json_string (json_escape (drop n (c # s)) @ CHR 0x22 # t) = Some (drop n (c # s), t)"
      by (rule 2(3) [folded n_def, OF False n])
    ultimately show ?thesis using False n(1)
      by (subst json_escape.simps) (simp add: n_def [symmetric] del: take_Cons' drop_Cons')
  qed
qed

section \<open>Texts that are well-formed\<close>

lemma valid_utf8_append: "valid_utf8 s \<Longrightarrow> valid_utf8 t \<Longrightarrow> valid_utf8 (s @ t)"
proof (induction s rule: valid_utf8.induct)
  case (1 s)
  show ?case
  proof (cases "s = []")
    case False
    define n where "n = utf8_len s"
    have n: "n \<noteq> 0" "valid_utf8 (drop n s)" "n \<le> length s"
      using 1(2) False valid_utf8.simps [of s] utf8_len_bound [of s] by (auto simp: n_def split: if_splits)
    then have "utf8_len (s @ t) = n" using utf8_len_take [of s n "drop n s @ t"] by (simp add: n_def flip: append_assoc)
    moreover have "valid_utf8 (drop n s @ t)" using 1 False n by (simp add: n_def)
    ultimately show ?thesis using False n by (subst valid_utf8.simps) simp
  qed (use 1 in simp)
qed

lemma valid_utf8_ascii: "list_all (\<lambda>c. byte c < 0x80) s \<Longrightarrow> valid_utf8 s"
  by (induction s) auto

lemma valid_utf8_escape: "valid_utf8 (json_escape s)"
proof (induction s rule: json_escape.induct)
  case (2 c s)
  have digit: "byte (hex_digit n) < 0x80" if "n < 16" for n
    using that by (auto simp: hex_digit_def)
  show ?case
  proof (cases "byte c < 0x80")
    case True
    then have "byte c div 16 < 16" "byte c mod 16 < 16" by auto
    then have "valid_utf8 (json_ascii c)" using True by (intro valid_utf8_ascii) (auto simp: json_ascii_def digit)
    then show ?thesis using True 2 by (simp add: json_escape.simps valid_utf8_append)
  next
    case False
    define n where "n = utf8_len (c # s)"
    have le: "n \<le> length (c # s)" using utf8_len_bound [of "c # s"] by (simp only: n_def)
    have "valid_utf8 (json_rune (take n (c # s)))" if "n \<noteq> 0"
    proof -
      have "utf8_len (take n (c # s)) = n" using utf8_len_take [of "c # s" n "[]"] that by (simp add: n_def)
      then have "valid_utf8 (take n (c # s))" using le that by (subst valid_utf8.simps) simp
      then show ?thesis by (simp add: json_rune_def)
    qed
    then show ?thesis using 2 False
      by (subst json_escape.simps) (simp add: n_def [symmetric] valid_utf8_append del: take_Cons' drop_Cons')
  qed
qed simp

lemma valid_utf8_quote [simp]: "valid_utf8 (json_quote s)"
  by (simp add: json_quote_def valid_utf8_append valid_utf8_escape)

text \<open>Digits are text.\<close>

lemma digits_utf8: "list_all is_digit s \<Longrightarrow> valid_utf8 s"
  by (rule valid_utf8_ascii) (auto simp: is_digit_def list_all_iff)

lemma pad_dec_digits: "list_all is_digit (pad_dec w n)"
proof (induction w arbitrary: n)
  case (Suc w)
  have "nat (n mod 10) < 10" by (simp add: nat_less_iff)
  then show ?case using Suc by (simp add: digit_of_dec_digit)
qed simp

end
