(* ===== verification/Go_Json.thy ===== *)
theory Go_Json
  imports Json_Strings
begin

text \<open>
  \<open>encoding/json\<close> on values: the compact text \<open>Marshal\<close> writes, the parser behind \<open>Unmarshal\<close> and
  \<open>Decoder.Decode\<close>, and the decoding of a parsed value into strings, integers, slices and structs.
\<close>

section \<open>Values and their text\<close>

text \<open>A number is its literal, an object its members in order.\<close>

datatype json = JNull | JBool bool | JNumber string | JString string | JArray "json list" | JObject "(string \<times> json) list"

fun json_text :: "json \<Rightarrow> string" where
  "json_text JNull = ''null''"
| "json_text (JBool b) = (if b then ''true'' else ''false'')"
| "json_text (JNumber t) = t"
| "json_text (JString s) = json_quote s"
| "json_text (JArray js) = ''['' @ strings_Join (map json_text js) '','' @ '']''"
| "json_text (JObject ms) = ''{'' @ strings_Join (map (\<lambda>(k, v). json_quote k @ '':'' @ json_text v) ms) '','' @ ''}''"

fun json_depth :: "json \<Rightarrow> nat" where
  "json_depth (JArray js) = Suc (foldr max (map json_depth js) 0)"
| "json_depth (JObject ms) = Suc (foldr max (map (\<lambda>(k, v). json_depth v) ms) 0)"
| "json_depth _ = 0"

section \<open>The parser\<close>

definition json_space :: "char \<Rightarrow> bool" where
  "json_space c \<longleftrightarrow> c = CHR '' '' \<or> byte c = 9 \<or> byte c = 10 \<or> byte c = 13"

definition skip_space :: "string \<Rightarrow> string" where
  "skip_space s = dropWhile json_space s"

text \<open>The parts of a number: what is read, and what is left.\<close>

definition number_sign :: "string \<Rightarrow> string \<times> string" where
  "number_sign s = (case s of c # t \<Rightarrow> if c = CHR ''-'' then ([c], t) else ([], s) | [] \<Rightarrow> ([], []))"

definition number_int :: "string \<Rightarrow> (string \<times> string) option" where
  "number_int s = (case s of
       [] \<Rightarrow> None
     | c # t \<Rightarrow> if c = CHR ''0'' then Some ([c], t)
         else if is_digit c then Some (takeWhile is_digit s, dropWhile is_digit s) else None)"

definition some_digits :: "string \<Rightarrow> string \<Rightarrow> (string \<times> string) option" where
  "some_digits pre s = (case takeWhile is_digit s of [] \<Rightarrow> None | ds \<Rightarrow> Some (pre @ ds, dropWhile is_digit s))"

definition number_frac :: "string \<Rightarrow> (string \<times> string) option" where
  "number_frac s = (case s of c # t \<Rightarrow> if c = CHR ''.'' then some_digits [c] t else Some ([], s) | [] \<Rightarrow> Some ([], []))"

definition number_exp :: "string \<Rightarrow> (string \<times> string) option" where
  "number_exp s = (case s of
       [] \<Rightarrow> Some ([], [])
     | c # t \<Rightarrow> if c \<in> set ''eE''
         then (case t of [] \<Rightarrow> None | d # u \<Rightarrow> if d \<in> set ''+-'' then some_digits [c, d] u else some_digits [c] t)
         else Some ([], s))"

definition json_number :: "string \<Rightarrow> (string \<times> string) option" where
  "json_number s = (case number_sign s of (g, s) \<Rightarrow> (case number_int s of
       None \<Rightarrow> None
     | Some (i, s) \<Rightarrow> (case number_frac s of
           None \<Rightarrow> None
         | Some (f, s) \<Rightarrow> map_option (map_prod (\<lambda>x. g @ i @ f @ x) id) (number_exp s))))"

text \<open>Values without parts.\<close>

definition json_leaf :: "string \<Rightarrow> (json \<times> string) option" where
  "json_leaf s =
     (if take 4 s = ''null'' then Some (JNull, drop 4 s)
      else if take 4 s = ''true'' then Some (JBool True, drop 4 s)
      else if take 5 s = ''false'' then Some (JBool False, drop 5 s)
      else if take 1 s = [CHR 0x22] then map_option (map_prod JString id) (json_string (drop 1 s))
      else map_option (map_prod JNumber id) (json_number s))"

text \<open>
  Items separated by commas up to a closing bracket, each read by \<open>p\<close>.  An item takes up at least a
  character, so the comparison of lengths always holds; it makes the recursion well-founded.
\<close>

lemma skip_space_le: "length (skip_space s) \<le> length s"
  by (simp add: skip_space_def length_dropWhile_le)

function json_list :: "(string \<Rightarrow> ('a \<times> string) option) \<Rightarrow> char \<Rightarrow> string \<Rightarrow> ('a list \<times> string) option" where
  "json_list p close s = (case p s of
       None \<Rightarrow> None
     | Some (x, s1) \<Rightarrow> (case skip_space s1 of
           [] \<Rightarrow> None
         | c # s2 \<Rightarrow>
             if c = close then Some ([x], s2)
             else if c = CHR '','' \<and> length s2 < length s
             then map_option (map_prod ((#) x) id) (json_list p close (skip_space s2))
             else None))"
  by pat_completeness auto
termination
  by (relation "measure (\<lambda>(p, c, s). length s)") (auto intro: le_less_trans [OF skip_space_le])

declare json_list.simps [simp del]

definition json_member :: "(string \<Rightarrow> (json \<times> string) option) \<Rightarrow> string \<Rightarrow> ((string \<times> json) \<times> string) option" where
  "json_member p s =
     (if take 1 s = [CHR 0x22]
      then (case json_string (drop 1 s) of
          None \<Rightarrow> None
        | Some (k, s1) \<Rightarrow> (case skip_space s1 of
              [] \<Rightarrow> None
            | c # s2 \<Rightarrow> if c = CHR '':'' then map_option (map_prod (Pair k) id) (p (skip_space s2)) else None))
      else None)"

definition json_node :: "(string \<Rightarrow> (json \<times> string) option) \<Rightarrow> string \<Rightarrow> (json \<times> string) option" where
  "json_node p s = (case s of
       [] \<Rightarrow> None
     | c # t \<Rightarrow>
         if c = CHR ''['' then (if take 1 (skip_space t) = '']'' then Some (JArray [], drop 1 (skip_space t))
           else map_option (map_prod JArray id) (json_list p (CHR '']'') (skip_space t)))
         else if c = CHR ''{'' then (if take 1 (skip_space t) = ''}'' then Some (JObject [], drop 1 (skip_space t))
           else map_option (map_prod JObject id) (json_list (json_member p) (CHR ''}'') (skip_space t)))
         else json_leaf s)"

text \<open>A value with at most \<open>n\<close> levels of brackets, and the text after it.\<close>

primrec json_value :: "nat \<Rightarrow> string \<Rightarrow> (json \<times> string) option" where
  "json_value 0 s = json_leaf s"
| "json_value (Suc n) s = json_node (json_value n) s"

definition maxNestingDepth :: nat where
  "maxNestingDepth = 10000"

text \<open>
  \<open>Unmarshal\<close> wants one value and nothing more; a \<open>Decoder\<close> reads the first value and leaves the
  rest.
\<close>

definition json_parse :: "string \<Rightarrow> json option" where
  "json_parse s = (case json_value maxNestingDepth (skip_space s) of
       None \<Rightarrow> None | Some (j, r) \<Rightarrow> if skip_space r = [] then Some j else None)"

definition json_first :: "string \<Rightarrow> json option" where
  "json_first s = map_option fst (json_value maxNestingDepth (skip_space s))"

section \<open>Decoding into Go values\<close>

text \<open>
  A decoder gets the value the variable holds and a JSON value; \<open>None\<close> is an error.  After a type
  error Go goes on to the end and then returns the error; no caller looks at the variable then.
  \<open>null\<close> leaves a variable as it is, and empties a slice.
\<close>

type_synonym 'a into = "'a \<Rightarrow> json \<Rightarrow> 'a option"

definition into_string :: "string into" where
  "into_string old j = (case j of JNull \<Rightarrow> Some old | JString s \<Rightarrow> Some s | _ \<Rightarrow> None)"

definition int_literal :: "string \<Rightarrow> int option" where
  "int_literal t = (case number_sign t of (g, ds) \<Rightarrow>
     let n = (if g = [] then number_value ds else - number_value ds)
     in if ds \<noteq> [] \<and> list_all is_digit ds \<and> in_int64 n then Some n else None)"

definition into_int :: "int into" where
  "into_int old j = (case j of JNull \<Rightarrow> Some old | JNumber t \<Rightarrow> int_literal t | _ \<Rightarrow> None)"

text \<open>
  A slice with the elements behind it: an array is decoded into the elements that are already there,
  those beyond the length included, and sets the length.
\<close>

type_synonym 'a slice = "'a list \<times> nat"

fun into_elems :: "'a \<Rightarrow> 'a into \<Rightarrow> 'a list \<Rightarrow> json list \<Rightarrow> 'a list option" where
  "into_elems z f bs [] = Some bs"
| "into_elems z f bs (j # js) = (case f (case bs of [] \<Rightarrow> z | b # _ \<Rightarrow> b) j of
       None \<Rightarrow> None | Some x \<Rightarrow> map_option ((#) x) (into_elems z f (tl bs) js))"

definition into_slice :: "'a \<Rightarrow> 'a into \<Rightarrow> 'a slice into" where
  "into_slice z f old j = (case j of
       JNull \<Rightarrow> Some ([], 0)
     | JArray js \<Rightarrow> if js = [] then Some ([], 0)
         else map_option (\<lambda>bs. (bs, length js)) (into_elems z f (fst old) js)
     | _ \<Rightarrow> None)"

definition slice_elems :: "'a slice \<Rightarrow> 'a list" where
  "slice_elems sl = take (snd sl) (fst sl)"

text \<open>
  The field a key names: the one with this name, or else the first whose name is the same but for
  case (the Kelvin sign and the long s fold to ASCII letters).
\<close>

definition upper :: "char \<Rightarrow> char" where
  "upper c = (if 97 \<le> byte c \<and> byte c \<le> 122 then char_of (byte c - 32) else c)"

fun fold_name :: "string \<Rightarrow> string" where
  "fold_name [] = []"
| "fold_name (c # s) =
     (if c = CHR 0xC5 \<and> take 1 s = [CHR 0xBF] then CHR ''S'' # fold_name (drop 1 s)
      else if c = CHR 0xE2 \<and> take 2 s = [CHR 0x84, CHR 0xAA] then CHR ''K'' # fold_name (drop 2 s)
      else upper c # fold_name s)"

definition field_of :: "string list \<Rightarrow> string \<Rightarrow> string option" where
  "field_of names key = (if key \<in> set names then Some key else find (\<lambda>n. fold_name n = fold_name key) names)"

text \<open>One field of a struct with the fields \<open>names\<close>: the members it gets, in order.\<close>

fun into_field :: "string list \<Rightarrow> string \<Rightarrow> 'a into \<Rightarrow> 'a \<Rightarrow> (string \<times> json) list \<Rightarrow> 'a option" where
  "into_field names n f old [] = Some old"
| "into_field names n f old ((k, j) # ms) =
     (if field_of names k = Some n
      then (case f old j of None \<Rightarrow> None | Some new \<Rightarrow> into_field names n f new ms)
      else into_field names n f old ms)"

definition into_struct :: "('a \<Rightarrow> (string \<times> json) list \<Rightarrow> 'a option) \<Rightarrow> 'a into" where
  "into_struct f old j = (case j of JNull \<Rightarrow> Some old | JObject ms \<Rightarrow> f old ms | _ \<Rightarrow> None)"

definition json_Unmarshal :: "'a into \<Rightarrow> 'a \<Rightarrow> string \<Rightarrow> 'a option" where
  "json_Unmarshal f zero s = Option.bind (json_parse s) (f zero)"

definition json_Decode :: "'a into \<Rightarrow> 'a \<Rightarrow> string \<Rightarrow> 'a option" where
  "json_Decode f zero s = Option.bind (json_first s) (f zero)"

section \<open>Reading undoes writing\<close>

text \<open>The values \<open>Marshal\<close> writes as they are: well-formed strings and complete number literals.\<close>

fun json_ok :: "json \<Rightarrow> bool" where
  "json_ok (JNumber t) = (json_number t = Some (t, []))"
| "json_ok (JString s) = valid_utf8 s"
| "json_ok (JArray js) = list_all json_ok js"
| "json_ok (JObject ms) = list_all (\<lambda>(k, v). valid_utf8 k \<and> json_ok v) ms"
| "json_ok _ = True"

text \<open>A text that does not go on with a number.\<close>

definition number_stop :: "string \<Rightarrow> bool" where
  "number_stop r \<longleftrightarrow> (case r of [] \<Rightarrow> True | c # _ \<Rightarrow> \<not> is_digit c \<and> c \<notin> set ''.eE'')"

lemma digits_append:
  "number_stop r \<Longrightarrow> takeWhile is_digit (s @ r) = takeWhile is_digit s"
  "number_stop r \<Longrightarrow> dropWhile is_digit (s @ r) = dropWhile is_digit s @ r"
  by (induction s) (auto simp: number_stop_def split: list.splits)

lemma some_digits_append:
  "some_digits p s = Some (x, y) \<Longrightarrow> number_stop r \<Longrightarrow> some_digits p (s @ r) = Some (x, y @ r)"
  by (auto simp: some_digits_def digits_append split: list.splits)

lemma number_int_append:
  "number_int s = Some (x, y) \<Longrightarrow> number_stop r \<Longrightarrow> number_int (s @ r) = Some (x, y @ r)"
  by (cases s) (auto simp: number_int_def digits_append split: if_splits)

lemma number_frac_append:
  assumes "number_frac s = Some (x, y)" "number_stop r"
  shows "number_frac (s @ r) = Some (x, y @ r)"
proof (cases s)
  case Nil
  then show ?thesis using assms by (auto simp: number_frac_def number_stop_def split: list.splits)
next
  case (Cons c t)
  then show ?thesis using assms some_digits_append [OF _ assms(2)] by (auto simp: number_frac_def split: if_splits)
qed

lemma number_exp_append:
  assumes "number_exp s = Some (x, y)" "number_stop r"
  shows "number_exp (s @ r) = Some (x, y @ r)"
proof (cases s)
  case Nil
  then show ?thesis using assms by (auto simp: number_exp_def number_stop_def split: list.splits)
next
  case (Cons c t)
  show ?thesis
  proof (cases t)
    case (Cons d u)
    have "some_digits p (d # u @ r) = Some (x, y @ r)" if "some_digits p (d # u) = Some (x, y)" for p
      using some_digits_append [OF that assms(2)] by simp
    then show ?thesis using assms \<open>s = c # t\<close> Cons some_digits_append [OF _ assms(2)]
      by (auto simp: number_exp_def split: if_splits)
  qed (use assms \<open>s = c # t\<close> in \<open>simp add: number_exp_def split: if_splits\<close>)
qed

lemma number_sign_append: "s \<noteq> [] \<Longrightarrow> number_sign (s @ r) = (fst (number_sign s), snd (number_sign s) @ r)"
  by (cases s) (auto simp: number_sign_def)

lemma json_number_append:
  assumes "json_number s = Some (x, y)" "number_stop r"
  shows "json_number (s @ r) = Some (x, y @ r)"
proof -
  obtain g s1 where g: "number_sign s = (g, s1)" by fastforce
  obtain i s2 f s3 e where p: "number_int s1 = Some (i, s2)" "number_frac s2 = Some (f, s3)"
      "number_exp s3 = Some (e, y)" "x = g @ i @ f @ e"
    using assms(1) by (auto simp: json_number_def g split: option.splits)
  have "s \<noteq> []" using p(1) g by (auto simp: number_sign_def number_int_def)
  then have "number_sign (s @ r) = (g, s1 @ r)" using number_sign_append g by simp
  then show ?thesis
    using number_int_append [OF p(1) assms(2)] number_frac_append [OF p(2) assms(2)] number_exp_append [OF p(3) assms(2)] p(4)
    by (simp add: json_number_def)
qed

text \<open>How a value starts.\<close>

lemma json_number_start:
  "json_number (c # t) = Some p \<Longrightarrow> c = CHR ''-'' \<or> is_digit c"
  by (auto simp: is_digit_def [of "CHR ''0''"] json_number_def number_sign_def number_int_def split: if_splits option.splits)

definition value_start :: "string \<Rightarrow> bool" where
  "value_start s \<longleftrightarrow> (case s of [] \<Rightarrow> False | c # _ \<Rightarrow> \<not> json_space c \<and> c \<noteq> CHR '']'' \<and> c \<noteq> CHR ''}'')"

lemma json_text_start: "json_ok j \<Longrightarrow> value_start (json_text j)"
proof (cases j)
  case (JNumber t)
  assume "json_ok j"
  then obtain c t' where "t = c # t'" "json_number (c # t') = Some (t, [])"
    using JNumber by (cases t) (auto simp: json_number_def number_sign_def number_int_def)
  with json_number_start [of c t'] show ?thesis
    by (auto simp: JNumber value_start_def json_space_def is_digit_def)
qed (auto simp: value_start_def json_space_def json_quote_def)

lemma value_start_append: "value_start s \<Longrightarrow> value_start (s @ r)"
  by (cases s) (simp_all add: value_start_def)

lemma value_start_Join: "value_start (enc (hd xs)) \<Longrightarrow> xs \<noteq> [] \<Longrightarrow> value_start (strings_Join (map enc xs) sep @ r)"
  by (induction xs rule: induct_list012) (simp_all add: value_start_append)

lemma skip_start: "value_start s \<Longrightarrow> skip_space (s @ r) = s @ r"
  by (cases s) (auto simp: value_start_def skip_space_def)

lemma json_quote_reads:
  "valid_utf8 k \<Longrightarrow> take 1 (json_quote k @ r) = [CHR 0x22] \<and> json_string (drop 1 (json_quote k @ r)) = Some (k, r)"
  by (simp add: json_quote_def json_string_escape)

text \<open>Leaves.\<close>

lemma json_leaf_reads:
  assumes "json_ok j" "json_depth j = 0" "number_stop r"
  shows "json_leaf (json_text j @ r) = Some (j, r)"
proof (cases j)
  case (JNumber t)
  then have t: "json_number (t @ r) = Some (t, r)" using assms(1) json_number_append [OF _ assms(3), of t t "[]"] by simp
  then obtain c u where "t @ r = c # u" by (cases "t @ r") (auto simp: json_number_def number_sign_def number_int_def)
  then show ?thesis using t json_number_start [of c u]
    by (auto simp: JNumber json_leaf_def is_digit_def)
next
  case (JString s)
  then show ?thesis using assms(1) json_quote_reads [of s r] by (auto simp: json_leaf_def json_quote_def)
qed (use assms(2) in \<open>auto simp: json_leaf_def\<close>)

lemma json_node_leaf:
  assumes "json_leaf s = Some x"
  shows "json_node p s = Some x"
proof (cases s)
  case Nil
  then show ?thesis using assms by (simp add: json_leaf_def json_number_def number_sign_def number_int_def)
next
  case (Cons c t)
  have no: "json_number (d # t) = None" if "d = CHR ''['' \<or> d = CHR ''{''" for d
    using that json_number_start [of d t] by (cases "json_number (d # t)") (auto simp: is_digit_def)
  have "json_leaf (CHR ''['' # t) = None" "json_leaf (CHR ''{'' # t) = None"
    by (simp_all add: json_leaf_def no)
  then show ?thesis using assms unfolding Cons json_node_def by auto
qed

text \<open>Items.\<close>

lemma json_list_reads:
  assumes "xs \<noteq> []" and "\<forall>x \<in> set xs. value_start (enc x) \<and> (\<forall>r. number_stop r \<longrightarrow> p (enc x @ r) = Some (x, r))"
    and "c \<in> set '']}''"
  shows "json_list p c (strings_Join (map enc xs) '','' @ c # r) = Some (xs, r)"
  using assms
proof (induction xs rule: induct_list012)
  case (2 x)
  have "number_stop (c # r)" "\<not> json_space c" using 2(3) by (auto simp: number_stop_def is_digit_def json_space_def)
  then show ?case using 2 by (simp add: json_list.simps skip_space_def)
next
  case (3 x y xs)
  let ?rest = "strings_Join (map enc (y # xs)) '','' @ c # r"
  have stop: "number_stop (CHR '','' # ?rest)" "skip_space (CHR '','' # ?rest) = CHR '','' # ?rest"
    by (simp_all add: number_stop_def is_digit_def skip_space_def json_space_def)
  have "value_start ?rest" by (rule value_start_Join) (use 3(4) in auto)
  then have "skip_space ?rest = ?rest" using skip_start [of ?rest "[]"] by simp
  moreover have "json_list p c ?rest = Some (y # xs, r)" using 3 by simp
  moreover have "p (enc x @ CHR '','' # ?rest) = Some (x, CHR '','' # ?rest)" using 3(4) stop(1) by simp
  moreover have "c \<noteq> CHR '',''" using 3(5) by auto
  ultimately show ?case using stop(2) by (simp add: json_list.simps)
qed simp

lemma json_member_reads:
  assumes "valid_utf8 k" "value_start (json_text v)" "p (json_text v @ r) = Some (v, r)"
  shows "json_member p (json_quote k @ '':'' @ json_text v @ r) = Some ((k, v), r)"
  using assms json_quote_reads [of k "'':'' @ json_text v @ r"] skip_start [of "json_text v" r]
  by (simp add: json_member_def skip_space_def json_space_def)

lemma json_depth_parts:
  "json_depth (JArray js) \<le> Suc n \<longleftrightarrow> (\<forall>j \<in> set js. json_depth j \<le> n)"
  "json_depth (JObject ms) \<le> Suc n \<longleftrightarrow> (\<forall>(k, v) \<in> set ms. json_depth v \<le> n)"
proof -
  have arr: "foldr max (map f xs) 0 \<le> n \<longleftrightarrow> (\<forall>x \<in> set xs. f x \<le> n)" for f :: "json \<Rightarrow> nat" and xs
    by (induction xs) auto
  show "json_depth (JArray js) \<le> Suc n \<longleftrightarrow> (\<forall>j \<in> set js. json_depth j \<le> n)" by (simp add: arr)
  have obj: "foldr max (map f xs) 0 \<le> n \<longleftrightarrow> (\<forall>x \<in> set xs. f x \<le> n)" for f :: "string \<times> json \<Rightarrow> nat" and xs
    by (induction xs) auto
  show "json_depth (JObject ms) \<le> Suc n \<longleftrightarrow> (\<forall>(k, v) \<in> set ms. json_depth v \<le> n)"
    by (auto simp: obj split: prod.splits)
qed

text \<open>The items of an array or object after its opening bracket.\<close>

lemma json_items_read:
  assumes "xs \<noteq> []" and "\<forall>x \<in> set xs. value_start (enc x) \<and> (\<forall>r. number_stop r \<longrightarrow> p (enc x @ r) = Some (x, r))"
    and "c \<in> set '']}''"
  shows "json_list p c (skip_space (strings_Join (map enc xs) '','' @ c # r)) = Some (xs, r)"
    and "take 1 (skip_space (strings_Join (map enc xs) '','' @ c # r)) \<noteq> [c]"
proof -
  let ?t = "strings_Join (map enc xs) '','' @ c # r"
  have start: "value_start ?t" by (rule value_start_Join) (use assms in auto)
  then have "skip_space ?t = ?t" using skip_start [of ?t "[]"] by simp
  moreover have "take 1 s \<noteq> [c]" if "value_start s" for s
    using that assms(3) by (cases s) (auto simp: value_start_def)
  ultimately show "json_list p c (skip_space ?t) = Some (xs, r)" "take 1 (skip_space ?t) \<noteq> [c]"
    using json_list_reads [OF assms] start by (simp_all del: take_append)
qed

lemma json_value_reads:
  "json_ok j \<Longrightarrow> json_depth j \<le> n \<Longrightarrow> number_stop r \<Longrightarrow> json_value n (json_text j @ r) = Some (j, r)"
proof (induction n arbitrary: j r)
  case 0
  then show ?case by (simp add: json_leaf_reads)
next
  case (Suc n)
  show ?case
  proof (cases j)
    case (JArray js)
    have "\<forall>x \<in> set js. value_start (json_text x) \<and> (\<forall>r. number_stop r \<longrightarrow> json_value n (json_text x @ r) = Some (x, r))"
      using Suc JArray json_text_start by (auto simp: json_depth_parts list_all_iff simp del: json_depth.simps)
    then show ?thesis using json_items_read [of js json_text "json_value n" "CHR '']''" r]
      by (cases "js = []") (simp_all add: JArray json_node_def skip_space_def json_space_def)
  next
    case (JObject ms)
    let ?enc = "\<lambda>(k, v). json_quote k @ '':'' @ json_text v"
    have "\<forall>x \<in> set ms. value_start (?enc x) \<and> (\<forall>r. number_stop r \<longrightarrow> json_member (json_value n) (?enc x @ r) = Some (x, r))"
    proof (intro ballI conjI allI impI; clarify)
      fix k v assume m: "(k, v) \<in> set ms"
      show "value_start (json_quote k @ '':'' @ json_text v)" by (simp add: json_quote_def value_start_def json_space_def)
      fix r assume r: "number_stop r"
      have v: "valid_utf8 k" "json_ok v" "json_depth v \<le> n"
        using Suc.prems(1,2) m JObject by (auto simp: json_depth_parts list_all_iff simp del: json_depth.simps)
      show "json_member (json_value n) ((json_quote k @ '':'' @ json_text v) @ r) = Some ((k, v), r)"
        using json_member_reads [where p = "json_value n", OF v(1) json_text_start [OF v(2)] Suc.IH [OF v(2,3) r]] by simp
    qed
    then show ?thesis using json_items_read [of ms ?enc "json_member (json_value n)" "CHR ''}''" r]
      by (cases "ms = []") (simp_all add: JObject json_node_def skip_space_def json_space_def)
  qed (use json_leaf_reads [OF Suc.prems(1) _ Suc.prems(3)] in \<open>simp_all add: json_node_leaf\<close>)
qed

lemma json_parse_text: "json_ok j \<Longrightarrow> json_depth j \<le> maxNestingDepth \<Longrightarrow> json_parse (json_text j) = Some j"
  and json_first_text: "json_ok j \<Longrightarrow> json_depth j \<le> maxNestingDepth \<Longrightarrow> json_first (json_text j) = Some j"
  using json_value_reads [of j maxNestingDepth "[]"] skip_start [OF json_text_start, of j "[]"]
  by (simp_all add: json_parse_def json_first_def number_stop_def skip_space_def)

section \<open>Integers\<close>

lemma dec_digit_zero: "dec_digit 0 = CHR ''0''"
  by (simp add: dec_digit_def char_of_def bit_iff_odd)

lemma dec_pos_first: "0 < n \<Longrightarrow> \<exists>c t. dec_pos n = c # t \<and> c \<noteq> CHR ''0''"
proof (induction n rule: dec_pos.induct)
  case (1 n)
  show ?case
  proof (cases "n < 10")
    case True
    then have "dec_digit (nat n) \<noteq> dec_digit 0" using 1(2) by (subst dec_digit_inj) auto
    then show ?thesis using True by (simp add: dec_pos.simps [of n] dec_digit_zero)
  next
    case False
    then show ?thesis using 1 by (fastforce simp: dec_pos.simps [of n])
  qed
qed

lemma number_int_dec_pos:
  assumes "0 \<le> n"
  shows "number_int (dec_pos n) = Some (dec_pos n, [])"
proof (cases "n = 0")
  case True
  then show ?thesis by (simp add: dec_pos.simps [of 0] dec_digit_zero number_int_def)
next
  case False
  then obtain c t where p: "dec_pos n = c # t" "c \<noteq> CHR ''0''" using assms dec_pos_first [of n] by auto
  moreover have "list_all is_digit (c # t)" using dec_pos_reads [OF assms] p(1) by simp
  moreover from this have "takeWhile is_digit t = t" "dropWhile is_digit t = []"
    by (simp_all add: takeWhile_eq_all_conv dropWhile_eq_Nil_conv list_all_iff)
  ultimately show ?thesis by (simp add: number_int_def)
qed

lemma dec_int_parts:
  "\<exists>g m. dec_int n = g @ dec_pos m \<and> number_sign (dec_int n) = (g, dec_pos m) \<and> 0 \<le> m \<and>
     n = (if g = [] then m else - m)"
proof (cases "n < 0")
  case True
  then show ?thesis by (intro exI [of _ "''-''"] exI [of _ "- n"]) (simp add: dec_int_def number_sign_def)
next
  case False
  then have "dec_pos n \<noteq> []" "list_all is_digit (dec_pos n)" using dec_pos_reads [of n] by simp_all
  then have "number_sign (dec_pos n) = ([], dec_pos n)"
    by (cases "dec_pos n") (auto simp: number_sign_def is_digit_def)
  then show ?thesis using False by (intro exI [of _ "[]"] exI [of _ n]) (simp add: dec_int_def)
qed

lemma json_number_dec_int [simp]: "json_number (dec_int n) = Some (dec_int n, [])"
proof -
  obtain g m where "dec_int n = g @ dec_pos m" "number_sign (dec_int n) = (g, dec_pos m)" "0 \<le> m"
    using dec_int_parts [of n] by blast
  then show ?thesis by (simp add: json_number_def number_int_dec_pos number_frac_def number_exp_def)
qed

lemma int_literal_dec_int [simp]: "in_int64 n \<Longrightarrow> int_literal (dec_int n) = Some n"
proof -
  assume n: "in_int64 n"
  obtain g m where "number_sign (dec_int n) = (g, dec_pos m)" "0 \<le> m" "n = (if g = [] then m else - m)"
    using dec_int_parts [of n] by blast
  then show ?thesis using n dec_pos_reads [of m] by (auto simp: int_literal_def Let_def)
qed

lemma Unmarshal_text [simp]:
  "json_ok j \<Longrightarrow> json_depth j \<le> 100 \<Longrightarrow> json_Unmarshal f z (json_text j) = f z j"
  "json_ok j \<Longrightarrow> json_depth j \<le> 100 \<Longrightarrow> json_Decode f z (json_text j) = f z j"
  by (simp_all add: json_Unmarshal_def json_Decode_def json_parse_text json_first_text maxNestingDepth_def)

text \<open>Members whose keys are the names of the fields.\<close>

lemma field_of_name [simp]: "key \<in> set names \<Longrightarrow> field_of names key = Some key"
  by (simp add: field_of_def)

end
