(* ===== verification/Death_Trigger.thy ===== *)
theory Death_Trigger
  imports Registry_Spec Go_Json
begin

text \<open>
  \<open>internal/services/death_trigger.go\<close>: the webhook the registrar of deaths calls.  The keyed hash is
  an argument: \<open>hmac key message\<close> is the hexadecimal HMAC-SHA256.
\<close>

section \<open>Responses\<close>

text \<open>
  What a handler writes: a status code and a body.  \<open>TextBody\<close> is \<open>http.Error\<close>, \<open>RedirectTo\<close> the
  location that \<open>http.Redirect\<close> sends (\<open>Http_Redirect\<close>), the others are the
  JSON values of the handlers, by what varies in them (\<open>Json_Answers\<close> adds the fixed parts).
\<close>

datatype body =
    NoBody
  | TextBody string
  | IdBody WillID
  | WillBody Will
  | AssetBody DigitalAssetClause
  | PropertyBody PropertyClause
  | AuditBody WillID "AuditEntry list"
  | QueuedBody int
  | CoolingOffBody "gotime option"
  | SkippedBody "gotime option"
  | DispatchedBody
  | NotImplementedBody
  | UnauthenticatedBody
  | IdentityBody string string string bool
  | RedirectTo string

record response =
  rs_status :: int
  rs_body :: body

definition respond :: "int \<Rightarrow> body \<Rightarrow> response" where
  "respond st b = \<lparr>rs_status = st, rs_body = b\<rparr>"

definition http_Error :: "string \<Rightarrow> int \<Rightarrow> response" where
  "http_Error msg st = respond st (TextBody msg)"

lemma respond_simps [simp]:
  "rs_status (respond st b) = st" "rs_body (respond st b) = b"
  "rs_status (http_Error m st) = st" "rs_body (http_Error m st) = TextBody m"
  by (simp_all add: respond_def http_Error_def)

section \<open>The webhook\<close>

record bdmDeathPayload =
  bdm_WillID :: string
  bdm_DelayDays :: int

definition bdm_fields :: "string list" where
  "bdm_fields = [''willId'', ''delayDays'']"

definition into_bdmDeathPayload :: "bdmDeathPayload into" where
  "into_bdmDeathPayload = into_struct (\<lambda>p ms.
     (case into_field bdm_fields ''willId'' into_string (bdm_WillID p) ms of None \<Rightarrow> None | Some k \<Rightarrow>
     (case into_field bdm_fields ''delayDays'' into_int (bdm_DelayDays p) ms of None \<Rightarrow> None | Some n \<Rightarrow>
        Some \<lparr>bdm_WillID = k, bdm_DelayDays = n\<rparr>)))"

definition decode_payload :: "string \<Rightarrow> bdmDeathPayload option" where
  "decode_payload = json_Unmarshal into_bdmDeathPayload \<lparr>bdm_WillID = '''', bdm_DelayDays = 0\<rparr>"

definition validSignature :: "(string \<Rightarrow> string \<Rightarrow> string) \<Rightarrow> string \<Rightarrow> string \<Rightarrow> string \<Rightarrow> bool" where
  "validSignature hmac secret body sigHeader \<longleftrightarrow> ''sha256='' @ hmac secret body = sigHeader"

definition DeathTrigger_NotifyDeath :: "WillID \<Rightarrow> int \<Rightarrow> world \<Rightarrow> goerror option \<times> world" where
  "DeathTrigger_NotifyDeath wid delayDays w =
     (case time_Now w of (now, w) \<Rightarrow> WillService_NotifyDeath wid delayDays now w)"

text \<open>\<open>1<<20\<close>, the limit of the reader.\<close>

definition webhook_limit :: nat where
  "webhook_limit = 2 ^ 20"

definition HandleBDMNotification ::
  "(string \<Rightarrow> string \<Rightarrow> string) \<Rightarrow> string \<Rightarrow>
     string option \<Rightarrow> string \<Rightarrow> world \<Rightarrow> response \<times> world" where
  "HandleBDMNotification hmac secret rawBody sigHeader w =
     (case rawBody of
        None \<Rightarrow> (http_Error ''read error'' 400, w)
      | Some raw \<Rightarrow>
        let body = take webhook_limit raw in
        if 0 < length secret \<and> \<not> validSignature hmac secret body sigHeader
        then (http_Error ''invalid signature'' 401, w)
        else (case decode_payload body of
            None \<Rightarrow> (http_Error ''bad request'' 400, w)
          | Some payload \<Rightarrow>
              if bdm_WillID payload = '''' then (http_Error ''bad request'' 400, w)
              else (case DeathTrigger_NotifyDeath (bdm_WillID payload) (bdm_DelayDays payload) w of
                  (Some _, w) \<Rightarrow> (http_Error ''internal server error'' 500, w)
                | (None, w) \<Rightarrow> (respond 204 NoBody, w))))"

lemma NotifyDeath_now_refines:
  "takes (\<lambda>a. if n = 0 then a = ActUnlockedAtNotice k (w_clock w 0)
       else a = ActDeathNotified k (w_clock w 0) (time_AddDays (w_clock w 0) n))
     (w_db w) (w_db (snd (DeathTrigger_NotifyDeath k n w)))"
proof -
  obtain w1 where n: "time_Now w = (w_clock w 0, w1)" by (simp add: time_Now_def)
  then have "w_db w1 = w_db w" using store_keeps(1) by blast
  with NotifyDeath_refines [of n k "w_clock w 0" w1] show ?thesis
    by (simp add: DeathTrigger_NotifyDeath_def n)
qed

text \<open>The body the registrar writes: an object with the two fields.\<close>

definition notice_json :: "bdmDeathPayload \<Rightarrow> json" where
  "notice_json p = JObject [(''willId'', JString (bdm_WillID p)), (''delayDays'', JNumber (dec_int (bdm_DelayDays p)))]"

lemma decode_notice: "valid_utf8 (bdm_WillID p) \<Longrightarrow> in_int64 (bdm_DelayDays p) \<Longrightarrow> decode_payload (json_text (notice_json p)) = Some p"
  unfolding decode_payload_def
  by (subst Unmarshal_text) (simp_all add: notice_json_def into_bdmDeathPayload_def into_struct_def bdm_fields_def into_string_def into_int_def)

text \<open>The notice a webhook call carries, if it passes the checks.\<close>

definition accepted_notice ::
  "(string \<Rightarrow> string \<Rightarrow> string) \<Rightarrow> string \<Rightarrow>
     string option \<Rightarrow> string \<Rightarrow> bdmDeathPayload option" where
  "accepted_notice hmac secret rawBody sigHeader =
     (case rawBody of
        None \<Rightarrow> None
      | Some raw \<Rightarrow>
          if secret \<noteq> '''' \<and> \<not> validSignature hmac secret (take webhook_limit raw) sigHeader then None
          else (case decode_payload (take webhook_limit raw) of
              None \<Rightarrow> None
            | Some p \<Rightarrow> if bdm_WillID p = '''' then None else Some p))"

lemma webhook_cases:
  "HandleBDMNotification hmac secret raw sig w =
     (case accepted_notice hmac secret raw sig of
        None \<Rightarrow> (fst (HandleBDMNotification hmac secret raw sig w), w)
      | Some p \<Rightarrow> (case DeathTrigger_NotifyDeath (bdm_WillID p) (bdm_DelayDays p) w of
            (Some _, w) \<Rightarrow> (http_Error ''internal server error'' 500, w)
          | (None, w) \<Rightarrow> (respond 204 NoBody, w)))"
  by (auto simp: HandleBDMNotification_def accepted_notice_def Let_def split: option.splits)

lemma webhook_refines:
  "takes (\<lambda>a. \<exists>p. accepted_notice hmac secret raw sig = Some p \<and>
       (if bdm_DelayDays p = 0 then a = ActUnlockedAtNotice (bdm_WillID p) (w_clock w 0)
        else a = ActDeathNotified (bdm_WillID p) (w_clock w 0)
               (time_AddDays (w_clock w 0) (bdm_DelayDays p))))
     (w_db w) (w_db (snd (HandleBDMNotification hmac secret raw sig w)))"
proof (cases "accepted_notice hmac secret raw sig")
  case None
  then have "snd (HandleBDMNotification hmac secret raw sig w) = w"
    by (subst webhook_cases) simp
  then show ?thesis by simp
next
  case (Some p)
  then have "snd (HandleBDMNotification hmac secret raw sig w) =
      snd (DeathTrigger_NotifyDeath (bdm_WillID p) (bdm_DelayDays p) w)"
    by (subst webhook_cases) (simp split: prod.split option.split)
  with NotifyDeath_now_refines [of "bdm_DelayDays p" "bdm_WillID p" w] Some show ?thesis
    by simp
qed

lemma webhook_rejected:
  assumes "secret \<noteq> ''''" and "\<not> validSignature hmac secret (take webhook_limit raw) sig"
  shows "HandleBDMNotification hmac secret (Some raw) sig w = (http_Error ''invalid signature'' 401, w)"
  using assms by (simp add: HandleBDMNotification_def Let_def)

end
