(* ===== verification/RealMe_Identity.thy ===== *)
theory RealMe_Identity
  imports Go_Time
begin

text \<open>
  \<open>packages/realme-go/realme.go\<close> and \<open>attributes.go\<close>: the identity a RealMe assertion yields.  The
  assertion is what the SAML library hands over after validating the response: its authentication
  statements and attribute statements, as far as the code reads them.
\<close>

section \<open>Identity\<close>

text \<open>\<open>AssuranceLevel\<close> is an \<open>int\<close> type; a session token may carry any value of it.\<close>

type_synonym AssuranceLevel = int

definition LevelNone :: AssuranceLevel where "LevelNone = 0"
definition LevelLogin :: AssuranceLevel where "LevelLogin = 1"
definition LevelVerified :: AssuranceLevel where "LevelVerified = 2"

lemmas levels = LevelNone_def LevelLogin_def LevelVerified_def

definition AssuranceLevel_String :: "AssuranceLevel \<Rightarrow> string" where
  "AssuranceLevel_String l =
     (if l = LevelLogin then ''login'' else if l = LevelVerified then ''verified'' else ''none'')"

record Address =
  Unit :: string
  Number :: string
  Street :: string
  Suburb :: string
  City :: string
  Postcode :: string
  Country :: string

record Identity =
  Id_FLT :: string
  Id_AssuranceLevel :: AssuranceLevel
  AuthnInstant :: gotime
  SessionIndex :: string
  Id_FullName :: string
  DateOfBirth :: gotime
  PlaceOfBirth :: string
  Gender :: string
  Id_Address :: "Address option"

text \<open>The zero \<open>time.Time\<close>: 0001-01-01T00:00:00Z.\<close>

definition zero_time :: gotime where
  "zero_time = GoTime 0 0"

definition Identity_IsVerified :: "Identity \<Rightarrow> bool" where
  "Identity_IsVerified i \<longleftrightarrow> Id_AssuranceLevel i \<ge> LevelVerified"

definition Address_Line1 :: "Address \<Rightarrow> string" where
  "Address_Line1 a =
     (if Unit a \<noteq> '''' then Unit a @ ''/'' @ Number a @ '' '' @ Street a
      else Number a @ '' '' @ Street a)"

section \<open>The date layout \<open>2006-01-02\<close>\<close>

definition format_date :: "gotime \<Rightarrow> string" where
  "format_date t = (case date_of t of (y, m, d) \<Rightarrow>
     year_text y @ ''-'' @ pad_dec 2 (int m) @ ''-'' @ pad_dec 2 (int d))"

text \<open>Days from 0001-01-01 to the first of January of a year, and of a month in it.\<close>

definition days_before_year :: "int \<Rightarrow> int" where
  "days_before_year y = 365 * (y - 1) + (y - 1) div 4 - (y - 1) div 100 + (y - 1) div 400"

definition days_in :: "int \<Rightarrow> nat \<Rightarrow> nat" where
  "days_in y m = month_lengths y ! (m - 1)"

definition time_Date :: "int \<Rightarrow> nat \<Rightarrow> nat \<Rightarrow> gotime" where
  "time_Date y m d = GoTime
     ((days_before_year y + int (sum_list (take (m - 1) (month_lengths y))) + int d - 1) * 86400) 0"

text \<open>
  \<open>time.Parse("2006-01-02", s)\<close>: four digits, a hyphen, two digits, a hyphen, two digits, nothing
  after; the month and the day of the month are checked.
\<close>

definition parse_date :: "string \<Rightarrow> gotime option" where
  "parse_date s =
     (let ys = take 4 s; ms = take 2 (drop 5 s); ds = take 2 (drop 8 s);
          y = number_value ys; m = nat (number_value ms); d = nat (number_value ds)
      in if length s = 10 \<and> list_all is_digit (ys @ ms @ ds) \<and> s ! 4 = CHR ''-'' \<and> s ! 7 = CHR ''-''
           \<and> 1 \<le> m \<and> m \<le> 12 \<and> 1 \<le> d \<and> d \<le> days_in y m
         then Some (time_Date y m d) else None)"

section \<open>Reading an assertion\<close>

record AuthnStatement =
  as_AuthnInstant :: gotime
  as_SessionIndex :: string
  as_ClassRef :: "string option"

record Attribute =
  at_Name :: string
  at_Values :: "string list"

record Assertion =
  AuthnStatements :: "AuthnStatement list"
  AttributeStatements :: "Attribute list list"

definition attr_prefix :: string where
  "attr_prefix = ''urn:nzl:govt:ict:stds:authn:safeb64:attribute:igovt:IVS:Assertion:''"

definition AttrFLT :: string where "AttrFLT = attr_prefix @ ''Identity:FLT''"
definition AttrFullName :: string where "AttrFullName = attr_prefix @ ''Identity:FullName''"
definition AttrDateOfBirth :: string where "AttrDateOfBirth = attr_prefix @ ''Identity:DateOfBirth''"
definition AttrPlaceOfBirth :: string where "AttrPlaceOfBirth = attr_prefix @ ''Identity:PlaceOfBirth''"
definition AttrGender :: string where "AttrGender = attr_prefix @ ''Identity:Gender''"
definition AttrAddressUnit :: string where "AttrAddressUnit = attr_prefix @ ''Address:Unit''"
definition AttrAddressNumber :: string where "AttrAddressNumber = attr_prefix @ ''Address:Number''"
definition AttrAddressStreet :: string where "AttrAddressStreet = attr_prefix @ ''Address:Street''"
definition AttrAddressSuburb :: string where "AttrAddressSuburb = attr_prefix @ ''Address:Suburb''"
definition AttrAddressCity :: string where "AttrAddressCity = attr_prefix @ ''Address:City''"
definition AttrAddressPostcode :: string where "AttrAddressPostcode = attr_prefix @ ''Address:Postcode''"
definition AttrAddressCountry :: string where "AttrAddressCountry = attr_prefix @ ''Address:Country''"

text \<open>\<open>strings.Contains\<close>, and \<open>strings.ToLower\<close> on ASCII letters.\<close>

fun strings_HasPrefix :: "string \<Rightarrow> string \<Rightarrow> bool" where
  "strings_HasPrefix s [] = True"
| "strings_HasPrefix [] (p # ps) = False"
| "strings_HasPrefix (c # s) (p # ps) = (c = p \<and> strings_HasPrefix s ps)"

fun strings_Contains :: "string \<Rightarrow> string \<Rightarrow> bool" where
  "strings_Contains [] sub = (sub = [])"
| "strings_Contains (c # s) sub = (strings_HasPrefix (c # s) sub \<or> strings_Contains s sub)"

definition ascii_lower :: "char \<Rightarrow> char" where
  "ascii_lower c = (if 65 \<le> (of_char c :: nat) \<and> (of_char c :: nat) \<le> 90 then char_of (of_char c + 32 :: nat) else c)"

definition strings_ToLower :: "string \<Rightarrow> string" where
  "strings_ToLower s = map ascii_lower s"

text \<open>The level an authentication context class stands for.\<close>

definition class_level :: "string option \<Rightarrow> AssuranceLevel" where
  "class_level ref = (case ref of
       None \<Rightarrow> LevelNone
     | Some r \<Rightarrow> if strings_Contains r ''ModStrength'' then LevelVerified
                 else if strings_Contains r ''LowStrength'' then LevelLogin
                 else LevelLogin)"

text \<open>The attribute map: a later attribute of the same name overwrites, one without values does not.\<close>

definition attribute_map :: "Attribute list list \<Rightarrow> string \<rightharpoonup> string" where
  "attribute_map stmts = foldl (\<lambda>m a. case at_Values a of [] \<Rightarrow> m | v # _ \<Rightarrow> m(at_Name a \<mapsto> v))
     Map.empty (concat stmts)"

definition attr_value :: "(string \<rightharpoonup> string) \<Rightarrow> string \<Rightarrow> string" where
  "attr_value m k = (case m k of None \<Rightarrow> '''' | Some v \<Rightarrow> v)"

definition extractIdentity :: "Assertion option \<Rightarrow> goerror + Identity" where
  "extractIdentity assertion =
     (case assertion of
        None \<Rightarrow> Inl (Errorf ''realme: nil assertion'')
      | Some a \<Rightarrow>
        let (instant, session, level) =
              (case AuthnStatements a of
                 [] \<Rightarrow> (zero_time, '''', LevelNone)
               | stmt # _ \<Rightarrow> (as_AuthnInstant stmt, as_SessionIndex stmt, class_level (as_ClassRef stmt)));
            attrs = attr_value (attribute_map (AttributeStatements a));
            i = \<lparr>Id_FLT = attrs AttrFLT, Id_AssuranceLevel = level, AuthnInstant = instant,
                 SessionIndex = session, Id_FullName = '''', DateOfBirth = zero_time,
                 PlaceOfBirth = '''', Gender = '''', Id_Address = None\<rparr>
        in if Id_FLT i = '''' then Inl (Errorf ''realme: assertion missing FLT attribute'')
           else if level \<ge> LevelVerified
           then let dob = attrs AttrDateOfBirth;
                    addr = \<lparr>Unit = attrs AttrAddressUnit, Number = attrs AttrAddressNumber,
                      Street = attrs AttrAddressStreet, Suburb = attrs AttrAddressSuburb,
                      City = attrs AttrAddressCity, Postcode = attrs AttrAddressPostcode,
                      Country = attrs AttrAddressCountry\<rparr>
                in Inr (i\<lparr>Id_FullName := attrs AttrFullName, PlaceOfBirth := attrs AttrPlaceOfBirth,
                     Gender := strings_ToLower (attrs AttrGender),
                     DateOfBirth := (if dob \<noteq> '''' then (case parse_date dob of
                        Some t \<Rightarrow> t | None \<Rightarrow> zero_time) else zero_time),
                     Id_Address := (if Street addr \<noteq> '''' \<or> City addr \<noteq> '''' then Some addr else None)\<rparr>)
           else Inr i)"

section \<open>What an identity guarantees\<close>

lemma extract_FLT: "extractIdentity a = Inr i \<Longrightarrow> Id_FLT i \<noteq> ''''"
  by (auto simp: extractIdentity_def Let_def split: option.splits prod.splits if_splits)

text \<open>An identity below the verified level carries none of the verified attributes.\<close>

lemma extract_unverified:
  "extractIdentity a = Inr i \<Longrightarrow> \<not> Identity_IsVerified i \<Longrightarrow>
     Id_FullName i = '''' \<and> DateOfBirth i = zero_time \<and> PlaceOfBirth i = '''' \<and> Gender i = '''' \<and>
     Id_Address i = None"
  by (auto simp: extractIdentity_def Let_def Identity_IsVerified_def
      split: option.splits prod.splits if_splits)

text \<open>Only a statement whose class contains \<open>ModStrength\<close> makes an identity verified.\<close>

lemma extract_verified:
  "extractIdentity (Some a) = Inr i \<Longrightarrow> Identity_IsVerified i \<Longrightarrow>
     \<exists>stmt rest ref. AuthnStatements a = stmt # rest \<and> as_ClassRef stmt = Some ref \<and>
       strings_Contains ref ''ModStrength''"
  by (auto simp: extractIdentity_def Let_def Identity_IsVerified_def class_level_def levels
      split: option.splits prod.splits if_splits list.splits)

end
