(* ===== verification/Handlers.thy ===== *)
theory Handlers
  imports Death_Trigger RealMe_Identity
begin

text \<open>
  \<open>internal/handlers\<close>: one definition per endpoint.  A handler gets the identity the middleware put
  in the request's context (\<open>None\<close> is nil), the \<open>id\<close> of the URL, and the decoded JSON body
  (\<open>None\<close> is a decoding error).
\<close>

section \<open>Shared helpers\<close>

definition identityClaims :: "Identity \<Rightarrow> IdentityClaims" where
  "identityClaims i = \<lparr>RealMeFLT = Id_FLT i, FullName = Id_FullName i,
     AssuranceLevel = AssuranceLevel_String (Id_AssuranceLevel i), IsVerified = Identity_IsVerified i\<rparr>"

definition handleServiceErr :: "goerror \<Rightarrow> response" where
  "handleServiceErr err =
     (if errors_Is err ErrWillNotFound then http_Error ''not found'' 404
      else if errors_Is err ErrForbidden then http_Error ''forbidden'' 403
      else if errors_Is err ErrInvalidState then http_Error ''invalid state for this operation'' 409
      else http_Error ''internal server error'' 500)"

text \<open>\<open>requireVerified\<close> only looks whether the context holds an identity.\<close>

definition requireVerified :: "Identity option \<Rightarrow> (Identity \<Rightarrow> world \<Rightarrow> response \<times> world) \<Rightarrow> world \<Rightarrow> response \<times> world" where
  "requireVerified identity next w =
     (case identity of None \<Rightarrow> (http_Error ''unauthenticated'' 401, w) | Some i \<Rightarrow> next i w)"

definition no_content :: "goerror option \<times> world \<Rightarrow> response \<times> world" where
  "no_content res = (case res of (Some e, w) \<Rightarrow> (handleServiceErr e, w) | (None, w) \<Rightarrow> (respond 204 NoBody, w))"

section \<open>will.go\<close>

definition WillHandler_Create :: "Identity option \<Rightarrow> CreateWillRequest option \<Rightarrow> world \<Rightarrow> response \<times> world" where
  "WillHandler_Create identity req = requireVerified identity (\<lambda>i w.
     (case req of
        None \<Rightarrow> (http_Error ''invalid json'' 400, w)
      | Some req \<Rightarrow> (case WillService_CreateDraft (identityClaims i) req w of
            (Inl e, w) \<Rightarrow> (http_Error (error_text e) 400, w)
          | (Inr wid, w) \<Rightarrow> (respond 201 (IdBody wid), w))))"

definition WillHandler_GetByID :: "WillID \<Rightarrow> world \<Rightarrow> response \<times> world" where
  "WillHandler_GetByID wid w =
     (case WillService_GetByID wid w of
        (Inl e, w) \<Rightarrow> (handleServiceErr e, w)
      | (Inr will, w) \<Rightarrow> (respond 200 (WillBody will), w))"

definition WillHandler_SignTestator :: "Identity option \<Rightarrow> WillID \<Rightarrow> string option \<Rightarrow> world \<Rightarrow> response \<times> world" where
  "WillHandler_SignTestator identity wid payloadHash = requireVerified identity (\<lambda>i w.
     (case payloadHash of
        None \<Rightarrow> (http_Error ''payloadHash required'' 400, w)
      | Some h \<Rightarrow> if h = '''' then (http_Error ''payloadHash required'' 400, w)
          else no_content (WillService_SignTestator wid (identityClaims i) h w)))"

definition WillHandler_SignWitness :: "Identity option \<Rightarrow> WillID \<Rightarrow> string option \<Rightarrow> world \<Rightarrow> response \<times> world" where
  "WillHandler_SignWitness identity wid payloadHash = requireVerified identity (\<lambda>i w.
     (case payloadHash of
        None \<Rightarrow> (http_Error ''payloadHash required'' 400, w)
      | Some h \<Rightarrow> if h = '''' then (http_Error ''payloadHash required'' 400, w)
          else no_content (WillService_SignWitness wid (identityClaims i) h w)))"

definition WillHandler_Lock :: "WillID \<Rightarrow> world \<Rightarrow> response \<times> world" where
  "WillHandler_Lock wid w =
     (case time_Now w of (now, w) \<Rightarrow> no_content (WillService_Lock wid now w))"

definition WillHandler_CreateCodicil ::
  "Identity option \<Rightarrow> WillID \<Rightarrow> CreateWillRequest option \<Rightarrow> world \<Rightarrow> response \<times> world" where
  "WillHandler_CreateCodicil identity wid req = requireVerified identity (\<lambda>i w.
     (case req of
        None \<Rightarrow> (http_Error ''invalid json'' 400, w)
      | Some req \<Rightarrow> (case WillService_CreateCodicil wid (identityClaims i) req w of
            (Inl e, w) \<Rightarrow> (handleServiceErr e, w)
          | (Inr cid, w) \<Rightarrow> (respond 201 (IdBody cid), w))))"

definition WillHandler_ConfirmLiveness :: "Identity option \<Rightarrow> WillID \<Rightarrow> world \<Rightarrow> response \<times> world" where
  "WillHandler_ConfirmLiveness identity wid = requireVerified identity (\<lambda>i w.
     no_content (WillService_ConfirmLiveness wid (identityClaims i) w))"

definition WillHandler_AddDigitalAssetClause ::
  "Identity option \<Rightarrow> WillID \<Rightarrow> DigitalAssetClause option \<Rightarrow> world \<Rightarrow> response \<times> world" where
  "WillHandler_AddDigitalAssetClause identity wid clause = requireVerified identity (\<lambda>i w.
     (case clause of
        None \<Rightarrow> (http_Error ''invalid json'' 400, w)
      | Some c \<Rightarrow>
          if asset_text (AssetType c) = '''' \<or> Platform c = '''' \<or> Instruction c = ''''
          then (http_Error ''assetType, platform, and instruction are required'' 400, w)
          else (case WillService_AddDigitalAssetClause wid (identityClaims i) c w of
              ((_, Some e), w) \<Rightarrow> (handleServiceErr e, w)
            | ((created, None), w) \<Rightarrow> (respond 201 (AssetBody created), w))))"

definition WillHandler_AddPropertyClause ::
  "PropertyVerifier option \<Rightarrow> Identity option \<Rightarrow> WillID \<Rightarrow> (string \<times> string) option \<Rightarrow> world \<Rightarrow>
     response \<times> world" where
  "WillHandler_AddPropertyClause linzVerifier identity wid req = requireVerified identity (\<lambda>i w.
     (case req of
        None \<Rightarrow> (http_Error ''titleReference required'' 400, w)
      | Some (titleReference, beneficiaryID) \<Rightarrow>
          if titleReference = '''' then (http_Error ''titleReference required'' 400, w)
          else (case WillService_AddPropertyClause linzVerifier wid (identityClaims i)
                       titleReference beneficiaryID w of
              ((_, Some e), w) \<Rightarrow> (handleServiceErr e, w)
            | ((clause, None), w) \<Rightarrow> (respond 201 (PropertyBody clause), w))))"

definition WillHandler_GetAuditLog :: "WillID \<Rightarrow> world \<Rightarrow> response \<times> world" where
  "WillHandler_GetAuditLog wid w =
     (case AuditService_GetByWillID wid w of
        ((_, Some e), w) \<Rightarrow> (http_Error ''internal server error'' 500, w)
      | ((entries, None), w) \<Rightarrow> (respond 200 (AuditBody wid entries), w))"

section \<open>executor.go\<close>

text \<open>The loop with its flag.\<close>

fun nominated_loop :: "Executor list \<Rightarrow> string \<Rightarrow> bool \<Rightarrow> bool" where
  "nominated_loop [] flt anyFLTStored = (\<not> anyFLTStored)"
| "nominated_loop (e # es) flt anyFLTStored =
     (if FLT e \<noteq> '''' then (if FLT e = flt then True else nominated_loop es flt True)
      else nominated_loop es flt anyFLTStored)"

definition isNominatedExecutor :: "Executor list \<Rightarrow> string \<Rightarrow> bool" where
  "isNominatedExecutor executors flt = nominated_loop executors flt False"

text \<open>The answer once the will is as it will be served.\<close>

definition executor_answer :: "Will \<Rightarrow> Identity \<Rightarrow> response" where
  "executor_answer will i =
     (if Status will \<noteq> WillStatusUnlockedDead then http_Error ''will vault is not unlocked'' 403
      else if \<not> isNominatedExecutor (Executors will) (Id_FLT i)
      then http_Error ''you are not a nominated executor for this will'' 403
      else respond 200 (WillBody will))"

definition ExecutorHandler_GetWill :: "Identity option \<Rightarrow> WillID \<Rightarrow> world \<Rightarrow> response \<times> world" where
  "ExecutorHandler_GetWill identity wid w =
     (case identity of
        None \<Rightarrow> (http_Error ''unauthenticated'' 401, w)
      | Some i \<Rightarrow>
     (case WillService_GetByID wid w of
        (Inl e, w) \<Rightarrow> (if errors_Is e ErrWillNotFound then http_Error ''not found'' 404
                      else http_Error ''internal server error'' 500, w)
      | (Inr will, w) \<Rightarrow>
          if Status will = WillStatusDeathNotified
          then (case time_Now w of (now, w) \<Rightarrow>
             if (case UnlockAfter will of None \<Rightarrow> False | Some u \<Rightarrow> \<not> time_Before now u)
             then (case WillService_CompleteUnlock wid now w of
                 (Some e, w) \<Rightarrow> (http_Error ''internal server error'' 500, w)
               | (None, w) \<Rightarrow> (case WillService_GetByID wid w of
                     (Inl e, w) \<Rightarrow> (http_Error ''internal server error'' 500, w)
                   | (Inr will, w) \<Rightarrow> (executor_answer will i, w)))
             else (respond 202 (CoolingOffBody (UnlockAfter will)), w))
          else (executor_answer will i, w)))"

section \<open>beneficiary.go and liveness.go\<close>

definition BeneficiaryHandler_NotifyAll :: "WillID \<Rightarrow> world \<Rightarrow> response \<times> world" where
  "BeneficiaryHandler_NotifyAll wid w =
     (case WillService_GetByID wid w of
        (Inl e, w) \<Rightarrow> (if errors_Is e ErrWillNotFound then http_Error ''not found'' 404
                      else http_Error ''internal server error'' 500, w)
      | (Inr will, w) \<Rightarrow>
          if Status will \<noteq> WillStatusUnlockedDead
          then (http_Error ''will vault is not yet unlocked'' 403, w)
          else (respond 202 (QueuedBody (int (length (Beneficiaries will)))), w))"

text \<open>\<open>time.Since(t)\<close> reads the clock again.\<close>

definition LivenessHandler_SendReminder :: "WillID \<Rightarrow> world \<Rightarrow> response \<times> world" where
  "LivenessHandler_SendReminder wid w =
     (case WillService_GetByID wid w of
        (Inl e, w) \<Rightarrow> (if errors_Is e ErrWillNotFound then http_Error ''not found'' 404
                      else http_Error ''internal server error'' 500, w)
      | (Inr will, w) \<Rightarrow>
          if Status will \<noteq> WillStatusDraft \<and> Status will \<noteq> WillStatusLocked
          then (http_Error ''will is not in an active state requiring a liveness check'' 409, w)
          else (case (case LivenessNotifiedAt will of
                        None \<Rightarrow> (False, w)
                      | Some t \<Rightarrow> (case time_Now w of (now, w) \<Rightarrow> (time_Sub now t < hours24, w))) of
              (True, w) \<Rightarrow> (respond 200 (SkippedBody (LivenessNotifiedAt will)), w)
            | (False, w) \<Rightarrow> (case WillService_RecordLivenessReminder wid w of
                  (Some e, w) \<Rightarrow> (http_Error ''internal server error'' 500, w)
                | (None, w) \<Rightarrow> (respond 202 DispatchedBody, w))))"

definition BulkCheckLiveness :: "world \<Rightarrow> response \<times> world" where
  "BulkCheckLiveness w = (respond 200 NotImplementedBody, w)"

section \<open>auth.go\<close>

definition AuthHandler_Status :: "Identity option \<Rightarrow> world \<Rightarrow> response \<times> world" where
  "AuthHandler_Status identity w =
     (case identity of
        None \<Rightarrow> (respond 200 UnauthenticatedBody, w)
      | Some i \<Rightarrow> (respond 200 (IdentityBody (Id_FLT i) (Id_FullName i)
          (AssuranceLevel_String (Id_AssuranceLevel i)) (Identity_IsVerified i)), w))"

section \<open>Every handler takes its own action only\<close>

lemma requireVerified_refines:
  assumes "\<And>i w. identity = Some i \<Longrightarrow> takes (P i) (w_db w) (w_db (snd (next i w)))"
  shows "takes (\<lambda>a. \<exists>i. identity = Some i \<and> P i a) (w_db w)
    (w_db (snd (requireVerified identity next w)))"
  using assms by (auto simp: requireVerified_def intro: takes_mono split: option.split)

lemma no_content_snd [simp]: "snd (no_content res) = snd res"
  by (auto simp: no_content_def split: prod.splits option.splits)

lemma snd_case_sum [simp]:
  "snd (case res of (Inl e, w) \<Rightarrow> (f e, w) | (Inr x, w) \<Rightarrow> (g x, w)) = snd res"
  by (auto split: prod.splits sum.splits)

lemma snd_case_err [simp]:
  "snd (case res of ((x, Some e), w) \<Rightarrow> (f e, w) | ((x, None), w) \<Rightarrow> (g x, w)) = snd res"
  by (auto split: prod.splits option.splits)

lemma claims_FLT [simp]: "RealMeFLT (identityClaims i) = Id_FLT i"
  by (simp add: identityClaims_def)

lemma Create_handler_refines:
  "takes (\<lambda>a. \<exists>i. identity = Some i \<and> (\<exists>q will. req = Some q \<and> a = ActDraft will \<and>
       Testator will = identityClaims i \<and> carries will q))
     (w_db w) (w_db (snd (WillHandler_Create identity req w)))"
  unfolding WillHandler_Create_def
  by (rule requireVerified_refines) (simp add: CreateDraft_refines split: option.split)

lemma SignTestator_handler_refines:
  "takes (\<lambda>a. \<exists>i. identity = Some i \<and> (\<exists>t hh. h = Some hh \<and> a = ActTestatorSigned k (Id_FLT i) t hh))
     (w_db w) (w_db (snd (WillHandler_SignTestator identity k h w)))"
  unfolding WillHandler_SignTestator_def
proof (rule requireVerified_refines)
  fix i v
  show "takes (\<lambda>a. \<exists>t hh. h = Some hh \<and> a = ActTestatorSigned k (Id_FLT i) t hh) (w_db v)
      (w_db (snd (case h of None \<Rightarrow> (http_Error ''payloadHash required'' 400, v)
        | Some h \<Rightarrow> if h = '''' then (http_Error ''payloadHash required'' 400, v)
            else no_content (WillService_SignTestator k (identityClaims i) h v))))"
    using SignTestator_refines [of k "identityClaims i" _ v] by (auto split: option.split)
qed

lemma SignWitness_handler_refines:
  "takes (\<lambda>a. \<exists>i. identity = Some i \<and> (\<exists>t hh. h = Some hh \<and>
       a = ActWitnessSigned (witness_row_of k hh t (identityClaims i))))
     (w_db w) (w_db (snd (WillHandler_SignWitness identity k h w)))"
  unfolding WillHandler_SignWitness_def
proof (rule requireVerified_refines)
  fix i v
  show "takes (\<lambda>a. \<exists>t hh. h = Some hh \<and> a = ActWitnessSigned (witness_row_of k hh t (identityClaims i)))
      (w_db v) (w_db (snd (case h of None \<Rightarrow> (http_Error ''payloadHash required'' 400, v)
        | Some h \<Rightarrow> if h = '''' then (http_Error ''payloadHash required'' 400, v)
            else no_content (WillService_SignWitness k (identityClaims i) h v))))"
    using SignWitness_refines [of k _ "identityClaims i" v] by (auto split: option.split)
qed

lemma Lock_handler_refines:
  "takes (\<lambda>a. a = ActLocked k (w_clock w 0)) (w_db w) (w_db (snd (WillHandler_Lock k w)))"
  using Lock_refines [of k "w_clock w 0" "snd (time_Now w)"]
  by (simp add: WillHandler_Lock_def time_Now_def)

lemma CreateCodicil_handler_refines:
  "takes (\<lambda>a. \<exists>i. identity = Some i \<and> (\<exists>q will. req = Some q \<and> a = ActCodicil will \<and>
       Testator will = identityClaims i \<and> ParentWillID will = Some k \<and> carries will q))
     (w_db w) (w_db (snd (WillHandler_CreateCodicil identity k req w)))"
  unfolding WillHandler_CreateCodicil_def
  by (rule requireVerified_refines) (simp add: CreateCodicil_refines split: option.split)

lemma ConfirmLiveness_handler_refines:
  "takes (\<lambda>a. \<exists>i. identity = Some i \<and> (\<exists>t. a = ActConfirmed k (Id_FLT i) t))
     (w_db w) (w_db (snd (WillHandler_ConfirmLiveness identity k w)))"
  unfolding WillHandler_ConfirmLiveness_def
proof (rule requireVerified_refines)
  fix i v
  show "takes (\<lambda>a. \<exists>t. a = ActConfirmed k (Id_FLT i) t) (w_db v)
      (w_db (snd (no_content (WillService_ConfirmLiveness k (identityClaims i) v))))"
    using ConfirmLiveness_refines [of k "identityClaims i" v] by simp
qed

lemma AddDigitalAssetClause_handler_refines:
  "takes (\<lambda>a. \<exists>i. identity = Some i \<and> (\<exists>cl j. c = Some cl \<and>
       a = ActAssetAdded (Id_FLT i) (asset_row_of (cl\<lparr>DA_ID := j, DA_WillID := k\<rparr>))))
     (w_db w) (w_db (snd (WillHandler_AddDigitalAssetClause identity k c w)))"
  unfolding WillHandler_AddDigitalAssetClause_def
proof (rule requireVerified_refines, goal_cases)
  case (1 i v)
  then show ?case
    using AddDigitalAssetClause_refines [of "identityClaims i" k _ v] by (simp split: option.split)
qed

lemma AddPropertyClause_handler_refines:
  "takes (\<lambda>a. \<exists>i. identity = Some i \<and> (\<exists>p. req = Some (TitleReference p, PC_BeneficiaryID p) \<and>
       a = ActPropertyAdded (Id_FLT i) (property_row_of p) \<and> PC_WillID p = k))
     (w_db w) (w_db (snd (WillHandler_AddPropertyClause v identity k req w)))"
  unfolding WillHandler_AddPropertyClause_def
proof (rule requireVerified_refines, goal_cases)
  case (1 i u)
  then show ?case
    using AddPropertyClause_refines [where c = "identityClaims i" and k = k and w = u and v = v] by (auto split: option.split)
qed

lemma read_handlers_unchanged [simp]:
  "w_db (snd (WillHandler_GetByID k w)) = w_db w"
  "w_db (snd (WillHandler_GetAuditLog k w)) = w_db w"
  "w_db (snd (BeneficiaryHandler_NotifyAll k w)) = w_db w"
  "w_db (snd (BulkCheckLiveness w)) = w_db w"
  "w_db (snd (AuthHandler_Status identity w)) = w_db w"
proof -
  show "w_db (snd (WillHandler_GetByID k w)) = w_db w"
    by (simp add: WillHandler_GetByID_def)
  show "w_db (snd (WillHandler_GetAuditLog k w)) = w_db w"
    by (auto simp: WillHandler_GetAuditLog_def AuditService_GetByWillID_def AuditRepo_GetByWillID_def
        dest: keeps split: prod.splits sum.splits option.splits)
  show "w_db (snd (BeneficiaryHandler_NotifyAll k w)) = w_db w"
    using GetByID_unchanged [of k w]
    by (auto simp: BeneficiaryHandler_NotifyAll_def split: prod.splits sum.splits simp del: GetByID_unchanged)
  show "w_db (snd (BulkCheckLiveness w)) = w_db w" by (simp add: BulkCheckLiveness_def)
  show "w_db (snd (AuthHandler_Status identity w)) = w_db w"
    by (simp add: AuthHandler_Status_def split: option.split)
qed

lemma ExecutorGetWill_refines:
  "takes (\<lambda>a. identity \<noteq> None \<and> a = ActUnlocked k (w_clock w 0))
     (w_db w) (w_db (snd (ExecutorHandler_GetWill identity k w)))"
proof (cases identity)
  case (Some i)
  obtain res w1 where g: "WillService_GetByID k w = (res, w1)" by fastforce
  have clock: "w_clock w1 = w_clock w" using WillService_GetByID_clock [of k w] by (simp add: g)
  obtain w2 where n: "time_Now w1 = (w_clock w 0, w2)" by (simp add: time_Now_def clock)
  obtain e w3 where c: "WillService_CompleteUnlock k (w_clock w 0) w2 = (e, w3)" by fastforce
  obtain res' w4 where g': "WillService_GetByID k w3 = (res', w4)" by fastforce
  have db: "w_db w1 = w_db w" "w_db w2 = w_db w" "w_db w4 = w_db w3"
    using GetByID_unchanged [of k w] GetByID_unchanged [of k w3] store_keeps(1) [OF n] by (simp_all add: g g')
  have "takes (\<lambda>a. a = ActUnlocked k (w_clock w 0)) (w_db w) (w_db w3)"
    using CompleteUnlock_refines [of k "w_clock w 0" w2] by (simp add: c db)
  with db show ?thesis
    by (auto simp: ExecutorHandler_GetWill_def Some g n c g' split: sum.splits option.splits prod.splits)
qed (simp add: ExecutorHandler_GetWill_def)

lemma SendReminder_refines:
  "takes (\<lambda>a. \<exists>t. a = ActReminded k t) (w_db w) (w_db (snd (LivenessHandler_SendReminder k w)))"
proof -
  obtain res w1 where g: "WillService_GetByID k w = (res, w1)" by fastforce
  have db: "w_db w1 = w_db w" using GetByID_unchanged [of k w] by (simp add: g)
  show ?thesis
  proof (cases res)
    case (Inl e)
    then show ?thesis using db by (simp add: LivenessHandler_SendReminder_def g)
  next
    case (Inr will)
    define fresh where "fresh = (case LivenessNotifiedAt will of None \<Rightarrow> (False, w1)
        | Some t \<Rightarrow> (case time_Now w1 of (now, w) \<Rightarrow> (time_Sub now t < hours24, w)))"
    obtain b w2 where f: "fresh = (b, w2)" by fastforce
    then have "w_db w2 = w_db w"
      using db by (auto simp: fresh_def dest: store_keeps(1) split: option.splits prod.splits)
    with RecordLivenessReminder_refines [of k w2] have "takes (\<lambda>a. \<exists>t. a = ActReminded k t) (w_db w)
        (w_db (snd (case (b, w2) of (True, w) \<Rightarrow> (respond 200 (SkippedBody (LivenessNotifiedAt will)), w)
            | (False, w) \<Rightarrow> (case WillService_RecordLivenessReminder k w of
                  (Some e, w) \<Rightarrow> (http_Error ''internal server error'' 500, w)
                | (None, w) \<Rightarrow> (respond 202 DispatchedBody, w)))))"
      by (cases b) (auto split: prod.splits option.splits)
    then show ?thesis
      using db f by (simp add: LivenessHandler_SendReminder_def g Inr fresh_def)
  qed
qed

end
