(* ===== verification/Http_Redirect.thy ===== *)
theory Http_Redirect
  imports Go_Url Death_Trigger
begin

text \<open>
  \<open>http.Redirect\<close> of the standard library, which every redirect of the program goes through: a URL
  that names neither a scheme nor a host is made absolute and its path is cleaned, any other is sent
  as it is; bytes outside ASCII are escaped.  A string is a list of bytes.
\<close>

section \<open>Paths\<close>

fun split_slash :: "string \<Rightarrow> string list" where
  "split_slash [] = [[]]"
| "split_slash (c # s) = (if c = CHR ''/'' then [] # split_slash s
     else (case split_slash s of [] \<Rightarrow> [[c]] | x # xs \<Rightarrow> (c # x) # xs))"

text \<open>The elements of a cleaned path; \<open>out\<close> are those kept so far, the latest first.\<close>

fun clean_elements :: "bool \<Rightarrow> string list \<Rightarrow> string list \<Rightarrow> string list" where
  "clean_elements rooted out [] = rev out"
| "clean_elements rooted out (s # ss) =
     (if s = '''' \<or> s = ''.'' then clean_elements rooted out ss
      else if s \<noteq> ''..'' then clean_elements rooted (s # out) ss
      else (case out of
          x # up \<Rightarrow> if x \<noteq> ''..'' then clean_elements rooted up ss
                    else clean_elements rooted (''..'' # out) ss
        | [] \<Rightarrow> clean_elements rooted (if rooted then [] else [''..'']) ss))"

text \<open>\<open>path.Clean\<close>, and the directory that \<open>path.Split\<close> returns.\<close>

definition path_Clean :: "string \<Rightarrow> string" where
  "path_Clean p =
     (let rooted = (take 1 p = ''/''); elements = clean_elements rooted [] (split_slash p) in
      if rooted then ''/'' @ strings_Join elements ''/''
      else if elements = [] then ''.'' else strings_Join elements ''/'')"

definition path_Split_dir :: "string \<Rightarrow> string" where
  "path_Split_dir p = rev (dropWhile (\<lambda>c. c \<noteq> CHR ''/'') (rev p))"

section \<open>Which URLs are local\<close>

text \<open>\<open>getScheme\<close> of \<open>net/url\<close>: an error, or the scheme (empty if there is none) and the rest.\<close>

definition is_letter :: "char \<Rightarrow> bool" where
  "is_letter c \<longleftrightarrow> (let n = (of_char c :: nat) in 65 \<le> n \<and> n \<le> 90 \<or> 97 \<le> n \<and> n \<le> 122)"

fun scheme_from :: "string \<Rightarrow> string \<Rightarrow> string \<Rightarrow> goerror + string \<times> string" where
  "scheme_from url seen [] = Inr ('''', url)"
| "scheme_from url seen (c # s) =
     (if is_letter c then scheme_from url (seen @ [c]) s
      else if is_digit c \<or> c \<in> set ''+-.''
      then (if seen = [] then Inr ('''', url) else scheme_from url (seen @ [c]) s)
      else if c = CHR '':''
      then (if seen = [] then Inl (Errorf ''missing protocol scheme'') else Inr (seen, s))
      else Inr ('''', url))"

definition getScheme :: "string \<Rightarrow> goerror + string \<times> string" where
  "getScheme url = scheme_from url '''' url"

definition userinfo_char :: "char \<Rightarrow> bool" where
  "userinfo_char c \<longleftrightarrow> is_letter c \<or> is_digit c \<or> c \<in> set ''-._:~!$&()*+,;=%@'' \<or> c = CHR 0x27"

text \<open>
  An authority with an empty host: nothing, or user information before the last \<open>@\<close>, which has to
  be well formed.
\<close>

definition hostless :: "string \<Rightarrow> bool" where
  "hostless authority \<longleftrightarrow> authority = '''' \<or>
     (last authority = CHR ''@'' \<and> list_all userinfo_char (butlast authority) \<and>
      url_unescape False (butlast authority) \<noteq> None)"

text \<open>
  \<open>url.Parse\<close> accepts the URL and finds neither a scheme nor a host.  (The query is not examined, and
  a non-empty host text never yields an empty host.)
\<close>

definition local_url :: "string \<Rightarrow> bool" where
  "local_url url = (case cut_at (CHR ''#'') url of (u, frag) \<Rightarrow>
     list_all (\<lambda>c. \<not> is_control c) u \<and> url_unescape False frag \<noteq> None \<and>
     (case getScheme u of
        Inl _ \<Rightarrow> False
      | Inr (scheme, rest) \<Rightarrow> scheme = '''' \<and>
          (let rest = fst (cut_at (CHR ''?'') rest) in
           if take 1 rest \<noteq> ''/''
           then CHR '':'' \<notin> set (fst (cut_at (CHR ''/'') rest)) \<and> url_unescape False rest \<noteq> None
           else if take 2 rest = ''//'' \<and> take 3 rest \<noteq> ''///''
           then hostless (takeWhile (\<lambda>c. c \<noteq> CHR ''/'') (drop 2 rest)) \<and>
             url_unescape False (dropWhile (\<lambda>c. c \<noteq> CHR ''/'') (drop 2 rest)) \<noteq> None
           else url_unescape False rest \<noteq> None)))"

section \<open>The header\<close>

definition ascii :: "char \<Rightarrow> bool" where
  "ascii c \<longleftrightarrow> (of_char c :: nat) < 128"

definition hexEscapeNonASCII :: "string \<Rightarrow> string" where
  "hexEscapeNonASCII s = concat (map (\<lambda>c. if ascii c then [c]
     else [CHR ''%'', hex_digit (of_char c div 16), hex_digit (of_char c mod 16)]) s)"

definition ends_in_slash :: "string \<Rightarrow> bool" where
  "ends_in_slash s \<longleftrightarrow> s \<noteq> '''' \<and> last s = CHR ''/''"

text \<open>A local URL in a request for \<open>oldpath\<close>: made absolute, its path cleaned, its trailing slash and query kept.\<close>

definition cleaned_path :: "string \<Rightarrow> string" where
  "cleaned_path p = (let q = path_Clean p in if ends_in_slash p \<and> \<not> ends_in_slash q then q @ ''/'' else q)"

definition absolute_url :: "string \<Rightarrow> string \<Rightarrow> string" where
  "absolute_url oldpath url =
     (let url = (if take 1 url \<noteq> ''/'' then path_Split_dir (if oldpath = '''' then ''/'' else oldpath) @ url else url)
      in cleaned_path (takeWhile (\<lambda>c. c \<noteq> CHR ''?'') url) @ dropWhile (\<lambda>c. c \<noteq> CHR ''?'') url)"

definition redirect_location :: "string \<Rightarrow> string \<Rightarrow> string" where
  "redirect_location oldpath url =
     hexEscapeNonASCII (if local_url url then absolute_url oldpath url else url)"

definition http_Redirect :: "string \<Rightarrow> string \<Rightarrow> int \<Rightarrow> response" where
  "http_Redirect oldpath url code = respond code (RedirectTo (redirect_location oldpath url))"

lemma http_Redirect_status [simp]: "rs_status (http_Redirect p u n) = n"
  by (simp add: http_Redirect_def)

section \<open>What is left as it is\<close>

lemma hexEscape_ascii: "list_all ascii s \<Longrightarrow> hexEscapeNonASCII s = s"
  by (induction s) (simp_all add: hexEscapeNonASCII_def)

text \<open>A path whose elements are proper, up to a trailing slash, is clean.\<close>

definition proper_element :: "string \<Rightarrow> bool" where
  "proper_element s \<longleftrightarrow> s \<notin> {'''', ''.'', ''..''}"

definition clean_path :: "string \<Rightarrow> bool" where
  "clean_path p = (case split_slash p of
       s # rest \<Rightarrow> s = '''' \<and> rest \<noteq> [] \<and> list_all proper_element (butlast rest) \<and>
         (last rest = '''' \<or> proper_element (last rest))
     | [] \<Rightarrow> False)"

lemma split_slash_nonempty [simp]: "split_slash s \<noteq> []"
  by (induction s) (auto split: list.split)

lemma join_split: "strings_Join (split_slash s) ''/'' = s"
proof (induction s)
  case (Cons c s)
  obtain x xs where s: "split_slash s = x # xs" by (cases "split_slash s") auto
  with Cons show ?case by (cases xs) auto
qed simp

lemma split_no_slash: "x \<in> set (split_slash s) \<Longrightarrow> CHR ''/'' \<notin> set x"
  by (induction s arbitrary: x) (auto split: if_splits list.splits)

lemma clean_elements_proper:
  "list_all proper_element xs \<Longrightarrow> clean_elements r out (xs @ ys) = clean_elements r (rev xs @ out) ys"
  by (induction xs arbitrary: out) (auto simp: proper_element_def)

lemma join_last: "xs \<noteq> [] \<Longrightarrow> last xs \<noteq> '''' \<Longrightarrow> last (strings_Join xs sep) = last (last xs)"
proof (induction xs sep rule: strings_Join.induct)
  case (3 x y xs sep)
  moreover have "strings_Join (y # xs) sep \<noteq> []"
    using 3(3) by (induction "y # xs" sep arbitrary: y xs rule: strings_Join.induct) (auto split: if_splits)
  ultimately show ?case by (auto split: if_splits)
qed simp_all

lemma join_snoc: "xs \<noteq> [] \<Longrightarrow> strings_Join (xs @ [y]) sep = strings_Join xs sep @ sep @ y"
  by (induction xs sep rule: strings_Join.induct) auto

lemma cleaned_clean:
  assumes "clean_path p"
  shows "cleaned_path p = p"
proof -
  obtain rest where split: "split_slash p = '''' # rest" and ne: "rest \<noteq> []"
    and proper: "list_all proper_element (butlast rest)" and final: "last rest = '''' \<or> proper_element (last rest)"
    using assms by (auto simp: clean_path_def split: list.splits)
  obtain xs l where rest: "rest = xs @ [l]" using ne by (metis append_butlast_last_id)
  have p: "p = ''/'' @ strings_Join rest ''/''" using join_split [of p] split ne by (cases rest) auto
  then have rooted: "(take 1 p = ''/'') = True" by simp
  have elements: "clean_elements True [] (split_slash p) = (if l = '''' then xs else xs @ [l])"
    using proper final by (auto simp: split rest clean_elements_proper proper_element_def)
  show ?thesis
  proof (cases "l = ''''")
    case False
    then have "path_Clean p = ''/'' @ strings_Join rest ''/''"
      unfolding path_Clean_def Let_def rooted by (simp add: elements rest)
    also have "\<dots> = p" by (rule p [symmetric])
    finally show ?thesis by (simp add: cleaned_path_def)
  next
    case True
    then have clean: "path_Clean p = ''/'' @ strings_Join xs ''/''"
      unfolding path_Clean_def Let_def rooted by (simp add: elements)
    show ?thesis
    proof (cases "xs = []")
      case True
      then show ?thesis using clean p \<open>l = ''''\<close> by (simp add: cleaned_path_def rest)
    next
      case False
      then have last: "last xs \<noteq> ''''" using proper by (simp add: rest list_all_iff proper_element_def)
      have "last xs \<in> set (split_slash p)" using False by (simp add: split rest)
      then have "CHR ''/'' \<notin> set (last xs)" by (rule split_no_slash)
      with last False have "last (strings_Join xs ''/'') \<noteq> CHR ''/''" by (metis join_last last_in_set)
      moreover have "strings_Join xs ''/'' \<noteq> ''''"
        using False last by (induction xs "''/''" rule: strings_Join.induct) (auto split: if_splits)
      ultimately have "\<not> ends_in_slash (path_Clean p)" by (simp add: clean ends_in_slash_def)
      moreover have slash: "p = path_Clean p @ ''/''"
        unfolding clean using p False \<open>l = ''''\<close> by (simp add: rest join_snoc)
      then have "ends_in_slash p" unfolding ends_in_slash_def by (metis append_is_Nil_conv last_snoc list.discI)
      ultimately show ?thesis using slash by (simp add: cleaned_path_def)
    qed
  qed
qed

text \<open>An ASCII address with a clean path before its query, if it has one, is sent as it is.\<close>

definition clean_address :: "string \<Rightarrow> bool" where
  "clean_address u \<longleftrightarrow> list_all ascii u \<and> clean_path (takeWhile (\<lambda>c. c \<noteq> CHR ''?'') u)"

lemma clean_path_rooted: "clean_path p \<Longrightarrow> take 1 p = ''/''"
  by (cases p) (auto simp: clean_path_def split: if_splits list.splits)

lemma redirect_clean:
  assumes "clean_address u"
  shows "redirect_location oldpath u = u"
proof -
  let ?p = "takeWhile (\<lambda>c. c \<noteq> CHR ''?'') u"
  have "take 1 ?p = ''/''" using assms unfolding clean_address_def by (intro clean_path_rooted) (rule conjunct2)
  then have "take 1 u = ''/''" by (cases u) (auto split: if_splits)
  then have "absolute_url oldpath u = u"
    using assms by (simp add: absolute_url_def clean_address_def cleaned_clean)
  then show ?thesis using assms by (simp add: redirect_location_def clean_address_def hexEscape_ascii)
qed

text \<open>So is any ASCII URL with a scheme, whatever its host.\<close>

lemma redirect_foreign:
  assumes "getScheme (fst (cut_at (CHR ''#'') u)) = Inr (scheme, rest)" and "scheme \<noteq> ''''" and "list_all ascii u"
  shows "redirect_location oldpath u = u"
  using assms by (auto simp: redirect_location_def local_url_def hexEscape_ascii split: prod.splits)

text \<open>Escaped query components are ASCII.\<close>

lemma unreserved_ascii: "unreserved c \<Longrightarrow> ascii c"
  by (auto simp: unreserved_def ascii_def Let_def)

lemma QueryEscape_ascii: "list_all ascii (url_QueryEscape s)"
proof -
  have "ascii (CHR ''%'')" "ascii (CHR ''+'')" by (simp_all add: ascii_def)
  then show ?thesis unfolding list_all_iff using QueryEscape_set [of s] unreserved_ascii by blast
qed

text \<open>Examples of what is not.\<close>

lemma redirect_examples:
  "redirect_location ''/auth/login'' ''/api/wills/..'' = ''/api''"
  "redirect_location ''/auth/login'' ''wills?a=/../b'' = ''/auth/wills?a=/../b''"
  "redirect_location ''/auth/login'' ''//evil.example/..'' = ''//evil.example/..''"
  by code_simp+

end
