(* ===== verification/RealMe_Middleware.thy ===== *)
theory RealMe_Middleware
  imports Death_Trigger RealMe_Identity Http_Redirect
begin

text \<open>
  \<open>packages/realme-go/middleware.go\<close>: the gate in front of the will routes.  The session is what the
  store's \<open>GetSession\<close> returned for the request (\<open>None\<close> is an error or no session).
\<close>

text \<open>
  The login paths begin with a slash, so \<open>http.Redirect\<close> does not look at the path of the request
  (here \<open>/\<close>).
\<close>

definition redirectToLogin :: "string \<Rightarrow> string \<Rightarrow> response" where
  "redirectToLogin requestURI loginPath =
     http_Redirect ''/'' (loginPath @ ''?return='' @ url_QueryEscape requestURI) 302"

lemma redirectToLogin_status [simp]: "rs_status (redirectToLogin u p) = 302"
  by (simp add: redirectToLogin_def)

lemma redirectToLogin_target:
  assumes "clean_path p" "list_all ascii p" "CHR ''?'' \<notin> set p"
  shows "redirectToLogin u p = respond 302 (RedirectTo (p @ ''?return='' @ url_QueryEscape u))"
proof -
  let ?u = "p @ ''?return='' @ url_QueryEscape u"
  have "list_all ascii ''?return=''" by code_simp
  then have "list_all ascii ?u" using assms(2) QueryEscape_ascii by simp
  moreover have "takeWhile (\<lambda>c. c \<noteq> CHR ''?'') ?u = p" by (subst takeWhile_append2) (use assms(3) in auto)
  ultimately have "clean_address ?u" using assms(1) by (simp add: clean_address_def)
  then show ?thesis by (simp add: redirectToLogin_def http_Redirect_def redirect_clean)
qed

text \<open>What the gates send: the login page with the escaped address of the request.\<close>

lemma redirectToLogin_sent:
  "redirectToLogin u ''/auth/realme/login'' =
     respond 302 (RedirectTo (''/auth/realme/login?return='' @ url_QueryEscape u))"
  "redirectToLogin u ''/auth/realme/verified'' =
     respond 302 (RedirectTo (''/auth/realme/verified?return='' @ url_QueryEscape u))"
proof -
  have "clean_path ''/auth/realme/login''" "clean_path ''/auth/realme/verified''"
    and "list_all ascii ''/auth/realme/login''" "list_all ascii ''/auth/realme/verified''" by code_simp+
  then show "redirectToLogin u ''/auth/realme/login'' =
      respond 302 (RedirectTo (''/auth/realme/login?return='' @ url_QueryEscape u))"
    and "redirectToLogin u ''/auth/realme/verified'' =
      respond 302 (RedirectTo (''/auth/realme/verified?return='' @ url_QueryEscape u))"
    by (simp_all add: redirectToLogin_target)
qed

definition requireAssuranceLevel ::
  "AssuranceLevel \<Rightarrow> string \<Rightarrow> Identity option \<Rightarrow> string \<Rightarrow>
     (Identity option \<Rightarrow> world \<Rightarrow> response \<times> world) \<Rightarrow> world \<Rightarrow> response \<times> world" where
  "requireAssuranceLevel required redirectTo session requestURI next w =
     (case session of
        None \<Rightarrow> (redirectToLogin requestURI ''/auth/realme/login'', w)
      | Some identity \<Rightarrow>
          if Id_AssuranceLevel identity < required
          then (redirectToLogin requestURI redirectTo, w)
          else next (Some identity) w)"

definition RequireLogin ::
  "Identity option \<Rightarrow> string \<Rightarrow> (Identity option \<Rightarrow> world \<Rightarrow> response \<times> world) \<Rightarrow> world \<Rightarrow> response \<times> world" where
  "RequireLogin = requireAssuranceLevel LevelLogin ''/auth/realme/login''"

definition RequireVerified ::
  "Identity option \<Rightarrow> string \<Rightarrow> (Identity option \<Rightarrow> world \<Rightarrow> response \<times> world) \<Rightarrow> world \<Rightarrow> response \<times> world" where
  "RequireVerified = requireAssuranceLevel LevelVerified ''/auth/realme/verified''"

definition RequireAssuranceLevel ::
  "AssuranceLevel \<Rightarrow> Identity option \<Rightarrow> string \<Rightarrow> (Identity option \<Rightarrow> world \<Rightarrow> response \<times> world) \<Rightarrow>
     world \<Rightarrow> response \<times> world" where
  "RequireAssuranceLevel level = requireAssuranceLevel level
     (if level \<ge> LevelVerified then ''/auth/realme/verified'' else ''/auth/realme/login'')"

text \<open>
  A gate in front of a handler: the handler runs only for a session of the level, and gets that
  session's identity; otherwise nothing happens but a redirect.
\<close>

locale gate =
  fixes guard :: "Identity option \<Rightarrow> string \<Rightarrow> (Identity option \<Rightarrow> world \<Rightarrow> response \<times> world) \<Rightarrow>
      world \<Rightarrow> response \<times> world"
    and level :: AssuranceLevel
  assumes admits: "level \<le> Id_AssuranceLevel i \<Longrightarrow> guard (Some i) uri h w = h (Some i) w"
    and turns_away: "s = None \<or> (\<exists>i. s = Some i \<and> Id_AssuranceLevel i < level) \<Longrightarrow>
      snd (guard s uri h w) = w \<and> rs_status (fst (guard s uri h w)) = 302"
begin

lemma passed:
  assumes "rs_status (fst (guard s uri h w)) \<noteq> 302"
  obtains i where "s = Some i" "level \<le> Id_AssuranceLevel i" "guard s uri h w = h (Some i) w"
  using assms turns_away [of s uri h w] admits by (cases s) (auto simp: not_less [symmetric])

lemma guard_cases: "snd (guard s uri h w) = w \<or> (\<exists>i. s = Some i \<and> guard s uri h w = h (Some i) w)"
  using turns_away [of s uri h w] admits by (cases s) (auto simp: not_less [symmetric])

end

lemma gate_requireAssuranceLevel: "gate (requireAssuranceLevel l target) l"
  by unfold_locales (auto simp: requireAssuranceLevel_def)

interpretation verified: gate RequireVerified LevelVerified
  unfolding RequireVerified_def by (rule gate_requireAssuranceLevel)

interpretation logged_in: gate RequireLogin LevelLogin
  unfolding RequireLogin_def by (rule gate_requireAssuranceLevel)

interpretation any_level: gate "RequireAssuranceLevel l" l for l
  unfolding RequireAssuranceLevel_def by (rule gate_requireAssuranceLevel)

end
