(* ===== verification/Server.thy ===== *)
theory Server
  imports Handlers RealMe_Middleware
begin

text \<open>
  \<open>cmd/server/main.go\<close>: the routes, which of them stand behind \<open>RequireVerified\<close>, and the handler of
  each.  The router and the HTTP server deliver a request as its endpoint with the decoded parts of
  the URL and the body.
\<close>

record server =
  sv_secret :: string
  sv_hmac :: "string \<Rightarrow> string \<Rightarrow> string"
  sv_linz :: "PropertyVerifier option"

datatype endpoint =
    EpAuthStatus
  | EpCreate "CreateWillRequest option"
  | EpGet WillID
  | EpSignTestator WillID "string option"
  | EpSignWitness WillID "string option"
  | EpLock WillID
  | EpCodicil WillID "CreateWillRequest option"
  | EpConfirm WillID
  | EpDigitalAsset WillID "DigitalAssetClause option"
  | EpProperty WillID "(string \<times> string) option"
  | EpAudit WillID
  | EpExecutor WillID
  | EpNotifyBeneficiaries WillID
  | EpLivenessCheck
  | EpRemind WillID
  | EpDeath "string option" string

record request =
  rq_endpoint :: endpoint
  rq_session :: "Identity option"
  rq_uri :: string

fun behind_verified :: "endpoint \<Rightarrow> bool" where
  "behind_verified EpAuthStatus = False"
| "behind_verified EpLivenessCheck = False"
| "behind_verified (EpRemind _) = False"
| "behind_verified (EpDeath _ _) = False"
| "behind_verified _ = True"

fun route :: "server \<Rightarrow> endpoint \<Rightarrow> Identity option \<Rightarrow> world \<Rightarrow> response \<times> world" where
  "route s EpAuthStatus i = AuthHandler_Status i"
| "route s (EpCreate req) i = WillHandler_Create i req"
| "route s (EpGet k) i = WillHandler_GetByID k"
| "route s (EpSignTestator k h) i = WillHandler_SignTestator i k h"
| "route s (EpSignWitness k h) i = WillHandler_SignWitness i k h"
| "route s (EpLock k) i = WillHandler_Lock k"
| "route s (EpCodicil k req) i = WillHandler_CreateCodicil i k req"
| "route s (EpConfirm k) i = WillHandler_ConfirmLiveness i k"
| "route s (EpDigitalAsset k c) i = WillHandler_AddDigitalAssetClause i k c"
| "route s (EpProperty k req) i = WillHandler_AddPropertyClause (sv_linz s) i k req"
| "route s (EpAudit k) i = WillHandler_GetAuditLog k"
| "route s (EpExecutor k) i = ExecutorHandler_GetWill i k"
| "route s (EpNotifyBeneficiaries k) i = BeneficiaryHandler_NotifyAll k"
| "route s EpLivenessCheck i = BulkCheckLiveness"
| "route s (EpRemind k) i = LivenessHandler_SendReminder k"
| "route s (EpDeath raw sig) i = HandleBDMNotification (sv_hmac s) (sv_secret s) raw sig"

text \<open>A route without the gate has no identity in its context.\<close>

definition serve :: "server \<Rightarrow> request \<Rightarrow> world \<Rightarrow> response \<times> world" where
  "serve s rq w =
     (if behind_verified (rq_endpoint rq)
      then RequireVerified (rq_session rq) (rq_uri rq) (route s (rq_endpoint rq)) w
      else route s (rq_endpoint rq) None w)"

fun serve_all :: "server \<Rightarrow> request list \<Rightarrow> world \<Rightarrow> response list \<times> world" where
  "serve_all s [] w = ([], w)"
| "serve_all s (rq # rqs) w =
     (case serve s rq w of (rs, w) \<Rightarrow> (case serve_all s rqs w of (rss, w) \<Rightarrow> (rs # rss, w)))"

section \<open>Which actions a request may take\<close>

text \<open>
  The one action each endpoint stands for: whose it is (the identity \<open>i\<close> of the session), on which
  will, and, where the time matters, at which clock reading \<open>now\<close>.
\<close>

definition own_action :: "server \<Rightarrow> endpoint \<Rightarrow> Identity option \<Rightarrow> gotime \<Rightarrow> action \<Rightarrow> bool" where
  "own_action s ep i now a \<longleftrightarrow> (case ep of
       EpCreate req \<Rightarrow> \<exists>p. i = Some p \<and> (\<exists>q will. req = Some q \<and> a = ActDraft will \<and>
         Testator will = identityClaims p \<and> carries will q)
     | EpSignTestator k h \<Rightarrow> \<exists>p. i = Some p \<and> (\<exists>t hh. h = Some hh \<and> a = ActTestatorSigned k (Id_FLT p) t hh)
     | EpSignWitness k h \<Rightarrow> \<exists>p. i = Some p \<and> (\<exists>t hh. h = Some hh \<and>
         a = ActWitnessSigned (witness_row_of k hh t (identityClaims p)))
     | EpLock k \<Rightarrow> i \<noteq> None \<and> a = ActLocked k now
     | EpCodicil k req \<Rightarrow> \<exists>p. i = Some p \<and> (\<exists>q will. req = Some q \<and> a = ActCodicil will \<and>
         Testator will = identityClaims p \<and> ParentWillID will = Some k \<and> carries will q)
     | EpConfirm k \<Rightarrow> \<exists>p. i = Some p \<and> (\<exists>t. a = ActConfirmed k (Id_FLT p) t)
     | EpDigitalAsset k c \<Rightarrow> \<exists>p. i = Some p \<and> (\<exists>cl j. c = Some cl \<and>
         a = ActAssetAdded (Id_FLT p) (asset_row_of (cl\<lparr>DA_ID := j, DA_WillID := k\<rparr>)))
     | EpProperty k req \<Rightarrow> \<exists>p. i = Some p \<and> (\<exists>x. req = Some (TitleReference x, PC_BeneficiaryID x) \<and>
         a = ActPropertyAdded (Id_FLT p) (property_row_of x) \<and> PC_WillID x = k)
     | EpExecutor k \<Rightarrow> i \<noteq> None \<and> a = ActUnlocked k now
     | EpRemind k \<Rightarrow> \<exists>t. a = ActReminded k t
     | EpDeath raw sig \<Rightarrow> \<exists>p. accepted_notice (sv_hmac s) (sv_secret s) raw sig = Some p \<and>
         (if bdm_DelayDays p = 0 then a = ActUnlockedAtNotice (bdm_WillID p) now
          else a = ActDeathNotified (bdm_WillID p) now (time_AddDays now (bdm_DelayDays p)))
     | _ \<Rightarrow> False)"

text \<open>The identity of a session at the verified level.\<close>

definition verified_session :: "request \<Rightarrow> Identity option" where
  "verified_session rq = (case rq_session rq of None \<Rightarrow> None
     | Some i \<Rightarrow> if LevelVerified \<le> Id_AssuranceLevel i then Some i else None)"

text \<open>The identity a request acts under: a verified session, on the routes behind the gate only.\<close>

definition acting :: "request \<Rightarrow> Identity option" where
  "acting rq = (if behind_verified (rq_endpoint rq)
     then (case rq_session rq of None \<Rightarrow> None
           | Some i \<Rightarrow> if LevelVerified \<le> Id_AssuranceLevel i then Some i else None)
     else None)"

lemmas handler_refines = Create_handler_refines SignTestator_handler_refines
  SignWitness_handler_refines Lock_handler_refines CreateCodicil_handler_refines
  ConfirmLiveness_handler_refines AddDigitalAssetClause_handler_refines
  AddPropertyClause_handler_refines ExecutorGetWill_refines SendReminder_refines webhook_refines

text \<open>The handlers behind the gate rely on it: \<open>Lock\<close> does not look at the identity at all.\<close>

lemma route_refines:
  assumes "\<not> behind_verified ep \<or> i \<noteq> None"
  shows "takes (own_action s ep i (w_clock w 0)) (w_db w) (w_db (snd (route s ep i w)))"
  by (insert assms, cases ep; simp; rule takes_mono, rule handler_refines, auto simp: own_action_def split: if_splits)

lemma own_action_anonymous: "own_action s ep None now a \<Longrightarrow> own_action s ep i now a"
  by (cases ep) (auto simp: own_action_def)

lemma serve_turned_away:
  "behind_verified (rq_endpoint rq) \<Longrightarrow> acting rq = None \<Longrightarrow> snd (serve s rq w) = w"
  by (auto simp: serve_def acting_def not_le verified.turns_away split: option.splits if_splits)

lemma serve_acting:
  assumes "\<not> behind_verified (rq_endpoint rq) \<or> acting rq \<noteq> None"
  shows "serve s rq w = route s (rq_endpoint rq) (acting rq) w"
  using assms by (auto simp: serve_def acting_def verified.admits split: option.splits if_splits)

lemma serve_run:
  "takes (own_action s (rq_endpoint rq) (verified_session rq) (w_clock w 0)) (w_db w) (w_db (snd (serve s rq w)))"
proof (cases "behind_verified (rq_endpoint rq) \<and> acting rq = None")
  case True
  then show ?thesis by (simp add: serve_turned_away)
next
  case False
  then have "takes (own_action s (rq_endpoint rq) (acting rq) (w_clock w 0)) (w_db w) (w_db (snd (serve s rq w)))"
    by (subst serve_acting) (auto intro: route_refines)
  moreover have "acting rq = None \<or> acting rq = verified_session rq"
    by (simp add: acting_def verified_session_def)
  ultimately show ?thesis by (metis takes_mono own_action_anonymous)
qed

lemma serve_refines: "reg_step\<^sup>*\<^sup>* (w_db w) (w_db (snd (serve s rq w)))"
  by (rule takes_steps) (rule serve_run)

lemma serve_all_refines: "reg_step\<^sup>*\<^sup>* (w_db w) (w_db (snd (serve_all s rqs w)))"
proof (induction rqs arbitrary: w)
  case (Cons rq rqs)
  obtain rs w1 where 1: "serve s rq w = (rs, w1)" by fastforce
  have "reg_step\<^sup>*\<^sup>* (w_db w) (w_db w1)" using serve_refines [of w s rq] by (simp add: 1)
  with Cons.IH [of w1] show ?case by (auto simp: 1 split: prod.splits)
qed simp

end
