(* ===== verification/Served_Calls.thy ===== *)
theory Served_Calls
  imports Lifecycle Server
begin

text \<open>
  The operations when every round trip is served: then each is a function of the stored rows and
  the clock, and these lemmas say which.  They are what the branch-by-branch properties of the
  services and handlers rest on.
\<close>

definition healthy :: "world \<Rightarrow> bool" where
  "healthy w \<longleftrightarrow> (\<forall>n. w_outcomes w n = Served)"

definition advanced :: "world \<Rightarrow> world" where
  "advanced w = snd (next_outcome w)"

lemma advanced_simps [simp]:
  "w_db (advanced w) = w_db w" "w_clock (advanced w) = w_clock w" "w_rand (advanced w) = w_rand w"
  "w_sha256 (advanced w) = w_sha256 w" "healthy w \<Longrightarrow> healthy (advanced w)"
  "healthy w \<Longrightarrow> healthy (w\<lparr>w_db := d\<rparr>)"
  by (simp_all add: advanced_def next_outcome_def healthy_def)

lemma healthy_next: "healthy w \<Longrightarrow> next_outcome w = (Served, advanced w)"
  by (simp add: healthy_def advanced_def next_outcome_def)

lemma healthy_pool:
  assumes "healthy w"
  shows "pool_QueryRow q w = (case q (w_db w) of None \<Rightarrow> (Inl ErrNoRows, advanced w)
      | Some r \<Rightarrow> (Inr r, advanced w))"
    and "pool_Query qs w = (Inr (qs (w_db w), None), advanced w)"
    and "pool_Exec st w = (case st (w_db w) of Inl e \<Rightarrow> (Some e, advanced w)
      | Inr d \<Rightarrow> (None, (advanced w)\<lparr>w_db := d\<rparr>))"
  using assms by (simp_all add: pool_QueryRow_def pool_Query_def pool_Exec_def healthy_next)

lemma healthy_Now: "healthy w \<Longrightarrow> healthy (snd (time_Now w))"
  by (simp add: healthy_def time_Now_def)

text \<open>The will a read returns.\<close>

definition stored_will :: "WillID \<Rightarrow> db \<Rightarrow> will_row \<Rightarrow> Will" where
  "stored_will k d r = will_of_row r
     (map clause_of_row (sort_key cr_index (sql_where cr_will_id k (clause_t d))))
     (map beneficiary_of_row (sql_where br_will_id k (beneficiary_t d)))
     (executors_of k d) (signatures_of k d)"

lemma healthy_GetByID:
  assumes "healthy w"
  obtains w' where "healthy w'" "w_db w' = w_db w" "w_clock w' = w_clock w" "w_rand w' = w_rand w"
    "w_sha256 w' = w_sha256 w"
    "WillRepo_GetByID k w = (case find_will k (w_db w) of None \<Rightarrow> Inl ErrWillNotFound
       | Some r \<Rightarrow> Inr (stored_will k (w_db w) r), w')"
proof (cases "find_will k (w_db w)")
  case None
  then show thesis using assms
    by (intro that [of "advanced w"]) (simp_all add: WillRepo_GetByID_def healthy_pool)
next
  case (Some r)
  then show thesis using assms
    by (intro that [of "advanced (advanced (advanced (advanced (advanced w))))"])
      (simp_all add: WillRepo_GetByID_def healthy_pool fetch_defs swallow_def stored_will_def
        executors_of_def signatures_of_def)
qed

lemma stored_will_simps [simp]:
  "Status (stored_will k d r) = status_of_text (wr_status r)"
  "RealMeFLT (Testator (stored_will k d r)) = wr_testator_flt r"
  "TestatorSignedAt (stored_will k d r) = wr_testator_signed_at r"
  "WitnessSignatures (stored_will k d r) = signatures_of k d"
  "Executors (stored_will k d r) = executors_of k d"
  "UnlockAfter (stored_will k d r) = wr_unlock_after r"
  "LivenessNotifiedAt (stored_will k d r) = wr_liveness_notified_at r"
  "VaultCiphertext (stored_will k d r) = wr_vault_ciphertext r"
  "VaultNonce (stored_will k d r) = wr_vault_nonce r"
  "VaultAlg (stored_will k d r) = wr_vault_alg r"
  by (simp_all add: stored_will_def will_of_row_def)

text \<open>The updates succeed.\<close>

lemma healthy_upd:
  assumes "healthy w"
  shows "WillRepo_UpdateStatus k s l u w =
      (None, (advanced w)\<lparr>w_db := upd_will k (status_row (s, l, u)) (w_db w)\<rparr>)"
    and "WillRepo_NotifyDeath k n t w = (None, (advanced w)\<lparr>w_db := upd_will k (death_row (n, t)) (w_db w)\<rparr>)"
    and "RecordTestatorSignature k h n w = (None, (advanced w)\<lparr>w_db := upd_will k (signed_row (n, h)) (w_db w)\<rparr>)"
    and "RecordLivenessConfirmation k n w = (None, (advanced w)\<lparr>w_db := upd_will k (confirmed_row n) (w_db w)\<rparr>)"
    and "WillRepo_RecordLivenessReminder k n w = (None, (advanced w)\<lparr>w_db := upd_will k (reminded_row n) (w_db w)\<rparr>)"
  using assms by (simp_all add: WillRepo_UpdateStatus_def WillRepo_NotifyDeath_def
      RecordTestatorSignature_def RecordLivenessConfirmation_def WillRepo_RecordLivenessReminder_def
      healthy_pool)

lemma healthy_clock:
  assumes "healthy w"
  obtains w' where "time_Now w = (w_clock w 0, w')" "healthy w'" "w_db w' = w_db w"
    "w_sha256 w' = w_sha256 w"
  using assms by (auto simp: time_Now_def healthy_def)

section \<open>Results of the read endpoints\<close>

text \<open>A read of the full will: the stored will with its asset clauses.\<close>

definition full_will :: "WillID \<Rightarrow> db \<Rightarrow> will_row \<Rightarrow> Will" where
  "full_will k d r = (stored_will k d r)\<lparr>DigitalAssetClauses := assets_of k d,
     PropertyClauses := properties_of k d\<rparr>"

lemma full_will_simps [simp]:
  "Status (full_will k d r) = status_of_text (wr_status r)"
  "Executors (full_will k d r) = executors_of k d"
  "UnlockAfter (full_will k d r) = wr_unlock_after r"
  "LivenessNotifiedAt (full_will k d r) = wr_liveness_notified_at r"
  "VaultCiphertext (full_will k d r) = wr_vault_ciphertext r" "VaultNonce (full_will k d r) = wr_vault_nonce r"
  "VaultAlg (full_will k d r) = wr_vault_alg r"
  by (simp_all add: full_will_def)

lemma healthy_Service_GetByID:
  assumes "healthy w"
  obtains w' where "healthy w'" "w_db w' = w_db w" "w_clock w' = w_clock w" "w_sha256 w' = w_sha256 w"
    "WillService_GetByID k w = (case find_will k (w_db w) of None \<Rightarrow> Inl ErrWillNotFound
       | Some r \<Rightarrow> Inr (full_will k (w_db w) r), w')"
proof -
  obtain w1 where w1: "healthy w1" "w_db w1 = w_db w" "w_clock w1 = w_clock w" "w_sha256 w1 = w_sha256 w"
    and g: "WillRepo_GetByID k w = (case find_will k (w_db w) of None \<Rightarrow> Inl ErrWillNotFound
       | Some r \<Rightarrow> Inr (stored_will k (w_db w) r), w1)"
    using healthy_GetByID [OF assms] by metis
  show thesis
  proof (cases "find_will k (w_db w)")
    case None
    with w1 show thesis by (intro that [of w1]) (simp_all add: WillService_GetByID_def g)
  next
    case (Some r)
    with w1 show thesis
      by (intro that [of "advanced (advanced w1)"])
        (simp_all add: WillService_GetByID_def g GetDigitalAssetsByWillID_def
          GetPropertyClausesByWillID_def healthy_pool full_will_def)
  qed
qed

section \<open>Who is a nominated executor\<close>

lemma nominated_loop_iff:
  "nominated_loop es flt b \<longleftrightarrow> (\<exists>e \<in> set es. FLT e \<noteq> '''' \<and> FLT e = flt) \<or>
     (\<not> b \<and> (\<forall>e \<in> set es. FLT e = ''''))"
  by (induction es arbitrary: b) auto

lemma isNominatedExecutor_iff:
  "isNominatedExecutor es flt \<longleftrightarrow> (\<exists>e \<in> set es. FLT e \<noteq> '''' \<and> FLT e = flt) \<or> (\<forall>e \<in> set es. FLT e = '''')"
  by (simp add: isNominatedExecutor_def nominated_loop_iff)

section \<open>The executor endpoint\<close>

definition executor_status :: "WillID \<Rightarrow> db \<Rightarrow> Identity \<Rightarrow> int" where
  "executor_status k d i = (if isNominatedExecutor (executors_of k d) (Id_FLT i) then 200 else 403)"

lemma executor_answer_status:
  "rs_status (executor_answer will i) =
     (if Status will = WillStatusUnlockedDead \<and> isNominatedExecutor (Executors will) (Id_FLT i)
      then 200 else 403)"
  by (simp add: executor_answer_def)

lemma executor_answer_body: "rs_status (executor_answer will i) = 200 \<Longrightarrow> rs_body (executor_answer will i) = WillBody will"
  by (simp add: executor_answer_def split: if_splits)

lemma find_will_upd:
  "(\<And>r. wr_id (f r) = wr_id r) \<Longrightarrow> find_will k (upd_will k f d) = map_option f (find_will k d)"
  unfolding find_will_def upd_will_def by (simp add: will_tab.upd_sel)

lemma executors_upd_will [simp]: "executors_of k (upd_will j f d) = executors_of k d"
  by (simp add: executors_of_def)

lemma executors_log [simp]: "executors_of k (d\<lparr>audit_t := t\<rparr>) = executors_of k d"
  by (simp add: executors_of_def)

text \<open>Writing the audit entry keeps the environment healthy and the other tables as they are.\<close>

lemma healthy_Record: "healthy w \<Longrightarrow> healthy (AuditService_Record k ev a p w)"
proof -
  assume h: "healthy w"
  obtain w1 where n: "time_Now w = (w_clock w 0, w1)" "healthy w1" using h by (rule healthy_clock)
  show ?thesis
    using n by (auto simp: AuditService_Record_def record_unfold GetLatestEntryID_def healthy_pool
        split: option.splits sum.splits)
qed

lemma CompleteUnlock_effect_served:
  assumes "healthy w" "find_will k (w_db w) = Some r" "wr_status r = ''death_notified''"
    "\<forall>u. wr_unlock_after r = Some u \<longrightarrow> u \<le> t"
  obtains w' rows where "WillService_CompleteUnlock k t w = (None, w')" "healthy w'"
    "w_db w' = (upd_will k (status_row (WillStatusUnlockedDead, None, Some t)) (w_db w))
       \<lparr>audit_t := audit_t (w_db w) @ rows\<rparr>"
proof -
  obtain w1 where w1: "healthy w1" "w_db w1 = w_db w"
    and g: "WillRepo_GetByID k w = (case find_will k (w_db w) of
      None \<Rightarrow> Inl ErrWillNotFound | Some r \<Rightarrow> Inr (stored_will k (w_db w) r), w1)"
    using healthy_GetByID [OF assms(1)] by metis
  define v where "v = (advanced w1)\<lparr>w_db := upd_will k (status_row (WillStatusUnlockedDead, None, Some t)) (w_db w)\<rparr>"
  have op: "WillService_CompleteUnlock k t w = (None, AuditService_Record k AuditEventVaultUnlocked '''' '''' v)"
    using assms(2-4) w1 unfolding v_def
    by (auto simp: WillService_CompleteUnlock_def g status_reads healthy_upd time_Before_iff not_less
        split: option.splits)
  obtain rows where "w_db (AuditService_Record k AuditEventVaultUnlocked '''' '''' v) =
      w_db v\<lparr>audit_t := audit_t (w_db v) @ rows\<rparr>"
    using audit_svc.only_log by blast
  with op w1 show thesis
    by (intro that [of "AuditService_Record k AuditEventVaultUnlocked '''' '''' v" rows])
      (simp_all add: v_def healthy_Record)
qed

text \<open>The request that opens an elapsed vault answers with the will it has just unlocked.\<close>

lemma ExecutorGetWill_elapsed:
  assumes "healthy w" "find_will k (w_db w) = Some r" "wr_status r = ''death_notified''"
    "wr_unlock_after r = Some u" "u \<le> w_clock w 0"
  obtains d rows where "fst (ExecutorHandler_GetWill (Some i) k w) =
      executor_answer (full_will k d (status_row (WillStatusUnlockedDead, None, Some (w_clock w 0)) r)) i"
    "d = (upd_will k (status_row (WillStatusUnlockedDead, None, Some (w_clock w 0))) (w_db w))\<lparr>audit_t := rows\<rparr>"
proof -
  obtain w1 where w1: "healthy w1" "w_db w1 = w_db w" "w_clock w1 = w_clock w" "w_sha256 w1 = w_sha256 w"
    and g: "WillService_GetByID k w = (case find_will k (w_db w) of None \<Rightarrow> Inl ErrWillNotFound
       | Some r \<Rightarrow> Inr (full_will k (w_db w) r), w1)"
    using healthy_Service_GetByID [OF assms(1)] by metis
  obtain w2 where w2: "time_Now w1 = (w_clock w1 0, w2)" "healthy w2" "w_db w2 = w_db w1"
    using w1(1) by (rule healthy_clock)
  have found: "find_will k (w_db w2) = Some r" using assms(2) w1 w2 by simp
  obtain w3 rows where c: "WillService_CompleteUnlock k (w_clock w 0) w2 = (None, w3)" and "healthy w3"
    and d3: "w_db w3 = (upd_will k (status_row (WillStatusUnlockedDead, None, Some (w_clock w 0))) (w_db w2))
       \<lparr>audit_t := audit_t (w_db w2) @ rows\<rparr>"
    by (rule CompleteUnlock_effect_served [OF w2(2) found, of "w_clock w 0"]) (use assms(3-5) in simp_all)
  obtain w4 where g': "WillService_GetByID k w3 = (case find_will k (w_db w3) of None \<Rightarrow> Inl ErrWillNotFound
      | Some r \<Rightarrow> Inr (full_will k (w_db w3) r), w4)"
    using healthy_Service_GetByID [OF \<open>healthy w3\<close>] by metis
  have "find_will k (w_db w3) = Some (status_row (WillStatusUnlockedDead, None, Some (w_clock w 0)) r)"
    using found find_will_upd [of "status_row (WillStatusUnlockedDead, None, Some (w_clock w 0))" k "w_db w2"]
    by (simp add: d3 find_will_def)
  then have "fst (ExecutorHandler_GetWill (Some i) k w) =
      executor_answer (full_will k (w_db w3) (status_row (WillStatusUnlockedDead, None, Some (w_clock w 0)) r)) i"
    using assms(2-5) w1 w2 c g'
    by (simp add: ExecutorHandler_GetWill_def g status_reads time_Before_iff not_less)
  then show thesis by (rule that) (simp add: d3 w2 w1)
qed

lemma ExecutorGetWill_result:
  assumes "healthy w"
  shows "rs_status (fst (ExecutorHandler_GetWill (Some i) k w)) = (case find_will k (w_db w) of
      None \<Rightarrow> 404
    | Some r \<Rightarrow>
        if wr_status r = ''unlocked_at_death'' \<or>
           wr_status r = ''death_notified'' \<and> (\<exists>u. wr_unlock_after r = Some u \<and> u \<le> w_clock w 0)
        then executor_status k (w_db w) i
        else if wr_status r = ''death_notified'' then 202 else 403)"
proof -
  obtain w1 where w1: "healthy w1" "w_db w1 = w_db w" "w_clock w1 = w_clock w" "w_sha256 w1 = w_sha256 w"
    and g: "WillService_GetByID k w = (case find_will k (w_db w) of None \<Rightarrow> Inl ErrWillNotFound
       | Some r \<Rightarrow> Inr (full_will k (w_db w) r), w1)"
    using healthy_Service_GetByID [OF assms] by metis
  show ?thesis
  proof (cases "find_will k (w_db w)")
    case None
    then show ?thesis by (simp add: ExecutorHandler_GetWill_def g)
  next
    case (Some r)
    obtain w2 where w2: "time_Now w1 = (w_clock w1 0, w2)" "healthy w2" "w_db w2 = w_db w1"
      using w1(1) by (rule healthy_clock)
    show ?thesis
    proof (cases "wr_status r = ''death_notified'' \<and> (\<exists>u. wr_unlock_after r = Some u \<and> u \<le> w_clock w 0)")
      case False
      then show ?thesis
        using Some w1 w2 by (auto simp: ExecutorHandler_GetWill_def g status_reads executor_answer_status
            executor_status_def time_Before_iff not_less split: option.splits)
    next
      case True
      then obtain u where u: "wr_status r = ''death_notified''" "wr_unlock_after r = Some u" "u \<le> w_clock w 0"
        by blast
      show ?thesis
        by (rule ExecutorGetWill_elapsed [OF assms Some u, of i])
          (use Some u in \<open>simp add: executor_answer_status executor_status_def status_row_def\<close>)
    qed
  qed
qed

end
