(* ===== verification/Audit_Chain.thy ===== *)
theory Audit_Chain
  imports Served_Calls
begin

text \<open>
  What the hash chain of the audit log gives: which entry \<open>Record\<close> writes, when a written entry
  verifies, which changes of a stored entry verification detects and which it does not.
\<close>

section \<open>The entry that is written\<close>

definition prev_id :: "WillID \<Rightarrow> db \<Rightarrow> string" where
  "prev_id k d = (case latest_id k d of None \<Rightarrow> '''' | Some i \<Rightarrow> i)"

lemma Record_served:
  assumes "healthy w"
  shows "w_db (AuditService_Record k ev a p w) =
    (case INSERT_audit (new_audit_row (w_sha256 w) k (prev_id k (w_db w)) ev a p (w_clock w 0)) (w_db w) of
       Inl _ \<Rightarrow> w_db w | Inr d \<Rightarrow> d)"
proof -
  obtain w1 where n: "time_Now w = (w_clock w 0, w1)" "healthy w1" "w_db w1 = w_db w" "w_sha256 w1 = w_sha256 w"
    using healthy_clock [OF assms] by metis
  show ?thesis
    using n by (auto simp: AuditService_Record_def record_unfold GetLatestEntryID_def healthy_pool
        isNoRows_def prev_id_def split: option.splits sum.splits)
qed

lemma latest_id_mem:
  assumes "latest_id k d = Some i"
  shows "i \<in> ar_id ` set (audit_t d)"
proof -
  from assms have "audit_rows k d \<noteq> []" "i = ar_id (last (audit_rows k d))"
    by (auto simp: latest_id_def split: list.splits)
  moreover have "set (audit_rows k d) \<subseteq> set (audit_t d)" by (auto simp: audit_rows_def sql_where_def)
  ultimately show ?thesis using last_in_set [of "audit_rows k d"] by blast
qed

lemma new_row_ref_ok:
  "ref_ok (ar_previous_entry_id (new_audit_row sha k (prev_id k d) ev a h t)) (ar_id ` set (audit_t d))"
  using latest_id_mem [of k d]
  by (auto simp: ref_ok_def new_audit_row_def audit_row_of_def AuditEntryForTime_def prev_id_def
      split: option.split)
section \<open>When a stored entry verifies\<close>

lemma entry_of_new_row:
  "entry_of_row (new_audit_row sha k p ev a h t) =
     \<lparr>Entry_ID = deriveEntryID sha p t ev k a, Entry_WillID = k, PreviousEntryID = p,
      Event = event_of_text (event_text ev), ActorFLT = a, PayloadHash = h, CreatedAt = timestamptz t\<rparr>"
  by (simp add: new_audit_row_def audit_row_of_def entry_of_row_def AuditEntryForTime_def)

lemma sealed_new_row:
  "known_event ev \<Longrightarrow> sealed sha (new_audit_row sha k p ev a h t) \<longleftrightarrow>
     sha (entry_text p (timestamptz t) ev k a) = sha (entry_text p t ev k a)"
  by (simp add: sealed_def Let_def entry_of_new_row derive_entry_def deriveEntryID_def event_codec.dec_enc)

lemma sealed_whole_micros:
  "known_event ev \<Longrightarrow> whole_micros t \<Longrightarrow> sealed sha (new_audit_row sha k p ev a h t)"
  by (simp add: sealed_new_row timestamptz_id_iff [symmetric])

text \<open>The stored instant of an entry is written differently unless it is a whole microsecond.\<close>

lemma entry_text_stored:
  assumes "valid_time t" "\<not> whole_micros t"
  shows "entry_text p (timestamptz t) ev k a \<noteq> entry_text p t ev k a"
proof -
  have z: "CHR ''|'' \<notin> set (RFC3339Nano u)" for u by (rule RFC3339Nano_no_bar)
  show ?thesis by (simp add: entry_text_def split_at_bar [OF z z] RFC3339Nano_stored [OF assms])
qed

section \<open>What verification detects\<close>

text \<open>Entries whose hashed fields differ hash differently, unless the hash collides on the two texts.\<close>

definition hashed_text :: "audit_row \<Rightarrow> string" where
  "hashed_text r = (let e = entry_of_row r in
     entry_text (PreviousEntryID e) (CreatedAt e) (Event e) (Entry_WillID e) (ActorFLT e))"

lemma sealed_iff: "sealed sha r \<longleftrightarrow> sha (hashed_text r) = ar_id r"
  by (simp add: sealed_def hashed_text_def Let_def derive_entry_def deriveEntryID_def entry_of_row_def)

lemma tampered_not_sealed:
  assumes "sealed sha r" "ar_id r' = ar_id r" "hashed_text r' \<noteq> hashed_text r"
    and "sha (hashed_text r') = sha (hashed_text r) \<Longrightarrow> hashed_text r' = hashed_text r"
  shows "\<not> sealed sha r'"
  using assms by (metis sealed_iff)

text \<open>The fields under the hash; the payload hash is not among them.\<close>

definition plain_row :: "audit_row \<Rightarrow> bool" where
  "plain_row r \<longleftrightarrow> CHR ''|'' \<notin> set (coalesce '''' (ar_previous_entry_id r)) \<and>
     CHR ''|'' \<notin> set (ar_will_id r) \<and> known_event (event_of_text (ar_event r)) \<and>
     four_digit_year (ar_created_at r)"

lemma hashed_text_inj:
  assumes "plain_row r" "plain_row r'"
  shows "hashed_text r = hashed_text r' \<longleftrightarrow>
    coalesce '''' (ar_previous_entry_id r) = coalesce '''' (ar_previous_entry_id r') \<and>
    ar_created_at r = ar_created_at r' \<and> ar_event r = ar_event r' \<and>
    ar_will_id r = ar_will_id r' \<and> ar_actor_flt r = ar_actor_flt r'"
proof -
  have ev: "event_of_text (ar_event r) = event_of_text (ar_event r') \<longleftrightarrow> ar_event r = ar_event r'"
    by (metis event_text_of_text)
  show ?thesis
    using assms unfolding plain_row_def hashed_text_def Let_def
    by (simp add: entry_of_row_def coalesce_def entry_text_inj ev)
qed

lemma payload_not_hashed: "sealed sha (r\<lparr>ar_payload_hash := h\<rparr>) = sealed sha r"
  by (simp add: sealed_iff hashed_text_def entry_of_row_def)

section \<open>Chronological logs stay linked\<close>

text \<open>The rows of one will form a chain: each names its predecessor.\<close>

fun chained :: "string \<Rightarrow> audit_row list \<Rightarrow> bool" where
  "chained p [] = True"
| "chained p (r # rs) = (coalesce '''' (ar_previous_entry_id r) = p \<and> chained (ar_id r) rs)"

lemma chained_append:
  "chained p (rs @ [r]) \<longleftrightarrow> chained p rs \<and>
     coalesce '''' (ar_previous_entry_id r) = (case rs of [] \<Rightarrow> p | _ \<Rightarrow> ar_id (last rs))"
  by (induction p rs rule: chained.induct) (auto split: list.splits)


text \<open>
  With strictly increasing instants the order of the table is the order of the log, and the
  entry \<open>Record\<close> adds names the last one.
\<close>

definition log_of :: "WillID \<Rightarrow> db \<Rightarrow> audit_row list" where
  "log_of k d = sql_where ar_will_id k (audit_t d)"

definition chronological :: "audit_row list \<Rightarrow> bool" where
  "chronological rs \<longleftrightarrow> sorted_wrt (\<lambda>r s. ar_created_at r < ar_created_at s) rs"

lemma chronological_sorted: "chronological rs \<Longrightarrow> sort_key ar_created_at rs = rs"
proof (rule sort_key_id_if_sorted)
  assume "chronological rs"
  then have "sorted_wrt (\<lambda>r s. ar_created_at r \<le> ar_created_at s) rs"
    unfolding chronological_def by (rule sorted_wrt_mono_rel [rotated]) (rule less_imp_le)
  then show "sorted (map ar_created_at rs)" by (simp add: sorted_wrt_map)
qed

lemma prev_id_last:
  assumes "chronological (log_of k d)"
  shows "prev_id k d = (case log_of k d of [] \<Rightarrow> '''' | _ \<Rightarrow> ar_id (last (log_of k d)))"
proof -
  have "audit_rows k d = log_of k d"
    using chronological_sorted [OF assms] by (simp add: audit_rows_def log_of_def)
  then show ?thesis by (simp add: prev_id_def latest_id_def split: list.split)
qed

lemma coalesce_new_row: "coalesce '''' (ar_previous_entry_id (new_audit_row sha k p ev a h t)) = p"
  by (simp add: new_audit_row_def audit_row_of_def AuditEntryForTime_def coalesce_def)

lemma Record_keeps_chain:
  assumes "healthy w" "chronological (log_of k (w_db w))" "chained '''' (log_of k (w_db w))"
    and "\<forall>r \<in> set (log_of k (w_db w)). ar_created_at r < timestamptz (w_clock w 0)"
    and d': "d' = w_db (AuditService_Record k ev a p w)"
  shows "chronological (log_of k d')" "chained '''' (log_of k d')"
proof -
  let ?r = "new_audit_row (w_sha256 w) k (prev_id k (w_db w)) ev a p (w_clock w 0)"
  have "log_of k d' = log_of k (w_db w) \<or> log_of k d' = log_of k (w_db w) @ [?r]"
    unfolding d' Record_served [OF assms(1)]
    by (auto simp: log_of_def sql_where_def split: sum.splits dest!: INSERT_audit_Inr)
  then show "chronological (log_of k d')" "chained '''' (log_of k d')"
    using assms(2-4)
    by (auto simp: chronological_def sorted_wrt_append chained_append coalesce_new_row prev_id_last
        split: list.splits)
qed

end
