(* ===== verification/Draft_Outcome.thy ===== *)
theory Draft_Outcome
  imports Served_Calls
begin

text \<open>
  Creating a will: which tables a call changes whatever the database does, which wills it
  supersedes, and what it answers when every round trip is served.
\<close>

section \<open>The tables after a draft\<close>

lemma audited_rows: "audited\<^sup>*\<^sup>* d d' \<Longrightarrow> \<exists>rows. d' = d\<lparr>audit_t := audit_t d @ rows\<rparr>"
proof (induction rule: rtranclp_induct)
  case base
  show ?case by (intro exI [of _ "[]"]) simp
next
  case (step d1 d2)
  then show ?case by (auto simp: audited_def dest!: INSERT_audit_Inr)
qed

text \<open>
  The rows that a draft of a request leaves, column by column: every element of the request once and
  in order, under its own identifier or, when that is empty, any.
\<close>

definition drafted :: "WillID \<Rightarrow> IdentityClaims \<Rightarrow> CreateWillRequest \<Rightarrow> will_row \<Rightarrow> clause_row list \<Rightarrow>
    beneficiary_row list \<Rightarrow> executor_row list \<Rightarrow> bool" where
  "drafted j c q r cs bs es \<longleftrightarrow>
     r = \<lparr>wr_id = j, wr_status = ''draft'', wr_testator_flt = RealMeFLT c, wr_testator_full_name = FullName c,
       wr_testator_assurance_level = AssuranceLevel c, wr_testator_signed_at = None,
       wr_testator_payload_hash = None, wr_locked_at = None, wr_unlocked_at = None,
       wr_vault_ciphertext = rq_VaultCiphertext q, wr_vault_nonce = rq_VaultNonce q, wr_vault_alg = rq_VaultAlg q,
       wr_audit_note = ''created draft'', wr_is_codicil = False, wr_parent_will_id = None,
       wr_superseded_by = None, wr_death_notified_at = None,
       wr_vault_unlock_delay_days = rq_VaultUnlockDelayDays q, wr_unlock_after = None,
       wr_last_confirmed_at = None, wr_liveness_notified_at = None\<rparr> \<and>
     list_all2 (\<lambda>x y. Clause_ID x \<in> {'''', cr_id y} \<and> cr_will_id y = j \<and> cr_index y = Clause_Index x \<and>
       cr_text y = Clause_Text x) (rq_Clauses q) cs \<and>
     list_all2 (\<lambda>x y. Beneficiary_ID x \<in> {'''', br_id y} \<and> br_will_id y = j \<and> br_name y = Beneficiary_Name x \<and>
       br_email y = Beneficiary_Email x \<and> br_relation y = Relation x) (rq_Beneficiaries q) bs \<and>
     list_all2 (\<lambda>x y. Executor_ID x \<in> {'''', er_id y} \<and> er_will_id y = j \<and> er_name y = Executor_Name x \<and>
       er_email y = Executor_Email x \<and> er_flt y = (if FLT x = '''' then None else Some (FLT x)))
       (rq_Executors q) es"

lemma filled_rows:
  assumes "filled get put xs ys" and "\<And>x j. get x \<in> {'''', get (put j x)} \<Longrightarrow> P x (f (put j x))"
  shows "list_all2 P xs (map f ys)"
proof -
  have "P x (f y)" if "y = put (get y) x" "get x = '''' \<or> get y = get x" for x y
    using assms(2) [of x "get y"] that by (metis insertCI)
  with assms(1) show ?thesis by (auto simp: filled_def list.rel_map elim!: list.rel_mono_strong)
qed

lemma carries_drafted:
  assumes "carries will q" "Status will = WillStatusDraft" "\<not> IsCodicil will" "ParentWillID will = None"
    "AuditNote will = ''created draft''"
  shows "drafted (Will_ID will) (Testator will) q (will_row_of will) (map (clause_row_of will) (Clauses will))
    (map (beneficiary_row_of will) (Beneficiaries will)) (map (executor_row_of will) (Executors will))"
proof -
  have c: "filled Clause_ID (\<lambda>i c. c\<lparr>Clause_ID := i\<rparr>) (rq_Clauses q) (Clauses will)"
    and b: "filled Beneficiary_ID (\<lambda>i b. b\<lparr>Beneficiary_ID := i\<rparr>) (rq_Beneficiaries q) (Beneficiaries will)"
    and e: "filled Executor_ID (\<lambda>i e. e\<lparr>Executor_ID := i\<rparr>) (rq_Executors q) (Executors will)"
    using assms(1) by (simp_all add: carries_def)
  show ?thesis
    unfolding drafted_def
  proof (intro conjI)
    show "list_all2 (\<lambda>x y. Clause_ID x \<in> {'''', cr_id y} \<and> cr_will_id y = Will_ID will \<and> cr_index y = Clause_Index x \<and>
       cr_text y = Clause_Text x) (rq_Clauses q) (map (clause_row_of will) (Clauses will))"
      by (rule filled_rows [OF c]) (auto simp: clause_row_of_def)
    show "list_all2 (\<lambda>x y. Beneficiary_ID x \<in> {'''', br_id y} \<and> br_will_id y = Will_ID will \<and> br_name y = Beneficiary_Name x \<and>
       br_email y = Beneficiary_Email x \<and> br_relation y = Relation x) (rq_Beneficiaries q)
       (map (beneficiary_row_of will) (Beneficiaries will))"
      by (rule filled_rows [OF b]) (auto simp: beneficiary_row_of_def)
    show "list_all2 (\<lambda>x y. Executor_ID x \<in> {'''', er_id y} \<and> er_will_id y = Will_ID will \<and> er_name y = Executor_Name x \<and>
       er_email y = Executor_Email x \<and> er_flt y = (if FLT x = '''' then None else Some (FLT x)))
       (rq_Executors q) (map (executor_row_of will) (Executors will))"
      by (rule filled_rows [OF e]) (auto simp: executor_row_of_def)
  qed (use assms in \<open>simp add: will_row_of_def carries_def\<close>)
qed

lemma CreateDraft_tables:
  assumes "WillService_CreateDraft testator req w = (res, w')"
  shows "(w_db w' = w_db w \<and> isl res) \<or>
    (\<exists>will rows. Testator will = testator \<and> Status will = WillStatusDraft \<and> \<not> IsCodicil will \<and>
       carries will req \<and> Will_ID will \<notin> will_ids (w_db w) \<and> (\<forall>k. res = Inr k \<longrightarrow> k = Will_ID will) \<and>
       drafted (Will_ID will) testator req (will_row_of will) (map (clause_row_of will) (Clauses will))
         (map (beneficiary_row_of will) (Beneficiaries will)) (map (executor_row_of will) (Executors will)) \<and>
       w_db w' = (w_db w)\<lparr>
         will_t := map (superseding (Will_ID will) (active_ids (RealMeFLT testator) (w_db w))) (will_t (w_db w))
           @ [will_row_of will],
         clause_t := clause_t (w_db w) @ map (clause_row_of will) (Clauses will),
         beneficiary_t := beneficiary_t (w_db w) @ map (beneficiary_row_of will) (Beneficiaries will),
         executor_t := executor_t (w_db w) @ map (executor_row_of will) (Executors will),
         audit_t := audit_t (w_db w) @ rows\<rparr>)"
  using WillService_CreateDraft_effect [OF assms]
proof (elim disjE exE conjE)
  fix will d
  assume will: "Testator will = testator" "Status will = WillStatusDraft" "\<not> IsCodicil will"
      "carries will req" and null: "ParentWillID will = None" "AuditNote will = ''created draft''"
    and res: "\<forall>k. res = Inr k \<longrightarrow> Will_ID will = k"
    and d: "exec_all (draft_stmts will (active_ids (RealMeFLT testator) (w_db w))) (w_db w) = Inr d"
    and "audited\<^sup>*\<^sup>* d (w_db w')"
  then obtain rows where "w_db w' = d\<lparr>audit_t := audit_t d @ rows\<rparr>" using audited_rows by blast
  moreover have "drafted (Will_ID will) testator req (will_row_of will) (map (clause_row_of will) (Clauses will))
      (map (beneficiary_row_of will) (Beneficiaries will)) (map (executor_row_of will) (Executors will))"
    using carries_drafted [OF will(4,2,3) null] by (simp add: will(1))
  ultimately show ?thesis using will res draft_effect [OF d active_ids_subset]
    by (intro disjI2 exI [of _ will] exI [of _ rows]) simp
qed simp

lemma CreateDraft_supersedes:
  assumes "registry_ok (w_db w)"
  shows "isl (fst (WillService_CreateDraft testator req w)) \<or>
    (\<exists>k. fst (WillService_CreateDraft testator req w) = Inr k \<and>
       active_ids (RealMeFLT testator) (w_db (snd (WillService_CreateDraft testator req w))) = [k] \<and>
       (\<forall>j \<in> set (active_ids (RealMeFLT testator) (w_db w)). \<exists>r.
          find_will j (w_db (snd (WillService_CreateDraft testator req w))) = Some r \<and>
          wr_status r = ''superseded'' \<and> wr_superseded_by r = Some k))"
proof -
  let ?d = "w_db w" and ?f = "RealMeFLT testator"
  obtain res w' where op: "WillService_CreateDraft testator req w = (res, w')" by fastforce
  have keys: "keys_ok ?d" using assms by (simp add: registry_ok_def)
  have keys': "keys_ok (w_db w')"
    using registry_keys.inv_steps [OF takes_steps [OF CreateDraft_refines [of testator req w]] keys]
    by (simp add: op)
  show ?thesis
  proof (cases "isl res")
    case False
    then obtain k where res: "res = Inr k" by (cases res) auto
    from CreateDraft_tables [OF op] res obtain will where will: "Testator will = testator"
        "Status will = WillStatusDraft" "\<not> IsCodicil will" "k = Will_ID will"
      and tab: "will_t (w_db w') = map (superseding k (active_ids ?f ?d)) (will_t ?d) @ [will_row_of will]"
      by auto
    have now: "superseding k (active_ids ?f ?d) r = (if active_of ?f r then supersede_row k r else r)"
      if "r \<in> set (will_t ?d)" for r using superseding_active [OF keys that] .
    have "filter (active_of ?f) (map (superseding k (active_ids ?f ?d)) (will_t ?d)) = []"
      by (auto simp: filter_empty_conv now) (auto simp: active_of_def supersede_row_def)
    then have "active_ids ?f (w_db w') = [k]"
      using will by (simp add: active_ids_def tab) (simp add: active_of_def will_row_of_def)
    moreover have "\<exists>r. find_will j (w_db w') = Some r \<and> wr_status r = ''superseded'' \<and> wr_superseded_by r = Some k"
      if j: "j \<in> set (active_ids ?f ?d)" for j
    proof -
      from j obtain r where r: "r \<in> set (will_t ?d)" "active_of ?f r" "wr_id r = j"
        by (auto simp: active_ids_def)
      with now have "supersede_row k r \<in> set (will_t (w_db w'))" by (auto simp: tab intro!: image_eqI [of _ _ r])
      then have "find_will j (w_db w') = Some (supersede_row k r)"
        using r keys' by (simp add: find_will_iff supersede_row_def)
      then show ?thesis by (simp add: supersede_row_def)
    qed
    ultimately show ?thesis using op res by auto
  qed (simp add: op)
qed

section \<open>The transaction on a served connection\<close>

lemma healthy_tx:
  assumes "healthy w"
  shows "tx_Begin w = (None, advanced w)" "tx_Exec st d w = (st d, advanced w)"
    "tx_Commit d w = (None, (advanced w)\<lparr>w_db := d\<rparr>)"
  using assms by (simp_all add: tx_Begin_def tx_Exec_def tx_Commit_def healthy_next)

lemma healthy_tx_each:
  "healthy w \<Longrightarrow> \<exists>w'. healthy w' \<and> w_db w' = w_db w \<and> tx_each f xs d w = (exec_all (map f xs) d, w')"
proof (induction xs arbitrary: d w)
  case (Cons x xs)
  show ?case
  proof (cases "f x d")
    case (Inl e)
    with Cons.prems show ?thesis by (intro exI [of _ "advanced w"]) (simp add: healthy_tx)
  next
    case (Inr d1)
    with Cons.IH [of "advanced w" d1] Cons.prems show ?thesis by (simp add: healthy_tx)
  qed
qed auto

text \<open>One loop of the transaction followed by the rest of it.\<close>

lemma healthy_tx_then:
  assumes "healthy w"
    and "\<And>d w. healthy w \<Longrightarrow> \<exists>w'. healthy w' \<and> rest_of d w = (case exec_all rest d of
       Inl e \<Rightarrow> (Some e, w') | Inr d \<Rightarrow> (None, w'\<lparr>w_db := d\<rparr>))"
  shows "\<exists>w'. healthy w' \<and>
    (case tx_each f xs d w of (Inl e, w) \<Rightarrow> (Some e, w) | (Inr d, w) \<Rightarrow> rest_of d w) =
    (case exec_all (map f xs @ rest) d of Inl e \<Rightarrow> (Some e, w') | Inr d \<Rightarrow> (None, w'\<lparr>w_db := d\<rparr>))"
proof -
  obtain w1 where "healthy w1" "tx_each f xs d w = (exec_all (map f xs) d, w1)"
    using healthy_tx_each [OF assms(1)] by blast
  with assms(2) [of w1] show ?thesis by (auto simp: exec_all_append split: sum.split)
qed

lemma healthy_tx_last:
  assumes "healthy w"
  shows "\<exists>w'. healthy w' \<and>
    (case tx_each f xs d w of (Inl e, w) \<Rightarrow> (Some e, w) | (Inr d, w) \<Rightarrow> tx_Commit d w) =
    (case exec_all (map f xs) d of Inl e \<Rightarrow> (Some e, w') | Inr d \<Rightarrow> (None, w'\<lparr>w_db := d\<rparr>))"
proof -
  have "\<exists>w'. healthy w' \<and> tx_Commit d w = (case exec_all [] d of
      Inl e \<Rightarrow> (Some e, w') | Inr d \<Rightarrow> (None, w'\<lparr>w_db := d\<rparr>))" if "healthy w" for d w
    using that by (intro exI [of _ "advanced w"]) (simp add: healthy_tx)
  from healthy_tx_then [where rest = "[]", OF assms this] show ?thesis by simp
qed

lemma healthy_CreateDraft:
  assumes "healthy w"
  shows "\<exists>w'. healthy w' \<and> WillRepo_CreateDraft will sids w =
    (case exec_all (draft_stmts will sids) (w_db w) of
       Inl e \<Rightarrow> (Some e, w') | Inr d \<Rightarrow> (None, w'\<lparr>w_db := d\<rparr>))"
proof (cases "INSERT_will (will_row_of will) (w_db w)")
  case (Inl e)
  with assms show ?thesis
    by (intro exI [of _ "advanced (advanced w)"]) (simp add: WillRepo_CreateDraft_def healthy_tx draft_stmts_def)
next
  case (Inr d1)
  then show ?thesis
    using assms by (simp add: WillRepo_CreateDraft_def healthy_tx draft_stmts_def)
      (intro healthy_tx_then healthy_tx_last; simp)
qed

section \<open>What a draft answers\<close>

lemma healthy_FindActive:
  "healthy w \<Longrightarrow> FindActiveByTestatorFLT f w = ((active_ids f (w_db w), None), advanced w)"
  by (simp add: FindActiveByTestatorFLT_def healthy_pool active_ids_def)

lemma healthy_rand: "healthy w \<Longrightarrow> healthy (snd (rand_Read n w))"
  by (simp add: healthy_def rand_Read_def)

lemma healthy_fill_ids: "healthy w \<Longrightarrow> healthy (snd (fill_ids get put k kind xs w))"
proof (induction get put k kind xs w rule: fill_ids.induct)
  case (2 get put wid kind x xs w)
  obtain i w1 where i: "(if get x = '''' then newChildID wid kind w else (get x, w)) = (i, w1)" by fastforce
  then have "healthy w1"
    using 2(2) healthy_rand [of w 4] by (auto simp: newChildID_def split: if_splits prod.splits)
  from 2(1) [OF i [symmetric] this] i show ?case by (auto split: prod.split)
qed simp

lemma healthy_buildWill: "healthy w \<Longrightarrow> healthy (snd (buildWill k t req c p w))"
proof -
  assume h: "healthy w"
  obtain will w' where b: "buildWill k t req c p w = (will, w')" by fastforce
  then show ?thesis
    by (rule buildWill_cases) (use h healthy_fill_ids b in \<open>metis snd_conv\<close>)
qed

text \<open>The draft a call builds, and what the call answers when the database serves it.\<close>

definition draft_of :: "IdentityClaims \<Rightarrow> CreateWillRequest \<Rightarrow> world \<Rightarrow> Will" where
  "draft_of testator req w =
     (case newWillID w of (k, w) \<Rightarrow> fst (buildWill k testator req False None w))"

lemma CreateDraft_result:
  assumes "healthy w"
  shows "fst (WillService_CreateDraft t req w) =
    (case ValidateVault (rq_VaultCiphertext req) (rq_VaultNonce req) (rq_VaultAlg req) of
       Some e \<Rightarrow> Inl e
     | None \<Rightarrow> (case exec_all (draft_stmts (draft_of t req w) (active_ids (RealMeFLT t) (w_db w))) (w_db w) of
         Inl e \<Rightarrow> Inl e | Inr _ \<Rightarrow> Inr (Will_ID (draft_of t req w))))"
proof -
  obtain k w1 where 1: "newWillID w = (k, w1)" by fastforce
  obtain will w2 where 2: "buildWill k t req False None w1 = (will, w2)" by fastforce
  have w1: "healthy w1" "w_db w1 = w_db w"
    using 1 assms healthy_rand [of w 16] newID_keeps(1) [OF 1] by (auto simp: newWillID_def split: prod.splits)
  have w2: "healthy w2" "w_db w2 = w_db w"
    using healthy_buildWill [OF w1(1), of k t req False None] buildWill_keeps [OF 2] w1 by (simp_all add: 2)
  have of: "draft_of t req w = will" "Will_ID will = k"
    using buildWill_cases [OF 2] by (auto simp: draft_of_def 1 2)
  obtain w' where "WillRepo_CreateDraft will (active_ids (RealMeFLT t) (w_db w)) (advanced w2) =
      (case exec_all (draft_stmts will (active_ids (RealMeFLT t) (w_db w))) (w_db w) of
         Inl e \<Rightarrow> (Some e, w') | Inr d \<Rightarrow> (None, w'\<lparr>w_db := d\<rparr>))"
    using healthy_CreateDraft [of "advanced w2" will "active_ids (RealMeFLT t) (w_db w)"] w2 by auto
  then show ?thesis
    by (simp add: WillService_CreateDraft_def 1 2 of healthy_FindActive w2 Let_def split: option.split sum.split)
qed

end
