(* ===== verification/Lifecycle_Spec.thy ===== *)
theory Lifecycle_Spec
  imports Draft_Outcome
begin

text \<open>
  The contract of the lifecycle methods as pure functions on the tables: what a call answers and
  what it leaves in the tables when every round trip is served.  The audit log is abstracted away
  (\<open>tables\<close>); the methods implement the contract (\<open>*_implements\<close>).
\<close>

definition tables :: "db \<Rightarrow> db" where
  "tables d = d\<lparr>audit_t := []\<rparr>"

lemma tables_simps [simp]:
  "find_will k (tables d) = find_will k d"
  "tables (upd_will k f d) = upd_will k f (tables d)"
  "tables (tables d) = tables d"
  "tables (d\<lparr>audit_t := t\<rparr>) = tables d"
  "will_t (tables d) = will_t d" "witness_t (tables d) = witness_t d"
  "witness_count k (tables d) = witness_count k d"
  "tables (d\<lparr>witness_t := s\<rparr>) = (tables d)\<lparr>witness_t := s\<rparr>"
  by (simp_all add: tables_def find_will_def upd_will_def witness_count_def)

lemma tables_Record [simp]: "tables (w_db (AuditService_Record k ev a p w)) = tables (w_db w)"
proof -
  obtain rows where "w_db (AuditService_Record k ev a p w) = w_db w\<lparr>audit_t := audit_t (w_db w) @ rows\<rparr>"
    using audit_svc.only_log by blast
  then show ?thesis by simp
qed

section \<open>The contract\<close>

text \<open>The contracts name the columns that a call writes; every other column and row stays.\<close>

definition changed :: "WillID \<Rightarrow> (will_row \<Rightarrow> will_row) \<Rightarrow> db \<Rightarrow> db" where
  "changed k f d = d\<lparr>will_t := map (\<lambda>r. if wr_id r = k then f r else r) (will_t d)\<rparr>"

definition unlocked_now :: "gotime \<Rightarrow> will_row \<Rightarrow> will_row" where
  "unlocked_now t r = r\<lparr>wr_status := ''unlocked_at_death'', wr_locked_at := None,
     wr_unlocked_at := Some (timestamptz t)\<rparr>"

definition sign_testator_spec :: "WillID \<Rightarrow> string \<Rightarrow> string \<Rightarrow> gotime \<Rightarrow> db \<Rightarrow> goerror option \<times> db" where
  "sign_testator_spec k flt h t d = (case find_will k d of
       None \<Rightarrow> (Some ErrWillNotFound, d)
     | Some r \<Rightarrow> if wr_status r \<noteq> ''draft'' then (Some ErrInvalidState, d)
         else if wr_testator_flt r \<noteq> flt then (Some ErrForbidden, d)
         else (None, changed k (\<lambda>r. r\<lparr>wr_testator_signed_at := Some (timestamptz t),
                wr_testator_payload_hash := Some h\<rparr>) d))"

definition witness_entry :: "WillID \<Rightarrow> string \<Rightarrow> gotime \<Rightarrow> IdentityClaims \<Rightarrow> witness_row" where
  "witness_entry k h t c = \<lparr>wsr_id = k @ '':witness:'' @ compact_stamp t, wsr_will_id = k,
     wsr_flt = RealMeFLT c, wsr_full_name = FullName c, wsr_assurance_level = AssuranceLevel c,
     wsr_signed_at = timestamptz t, wsr_payload_hash = h\<rparr>"

definition sign_witness_spec ::
  "WillID \<Rightarrow> IdentityClaims \<Rightarrow> string \<Rightarrow> gotime \<Rightarrow> db \<Rightarrow> goerror option \<times> db" where
  "sign_witness_spec k c h t d = (case find_will k d of
       None \<Rightarrow> (Some ErrWillNotFound, d)
     | Some r \<Rightarrow> if wr_status r \<noteq> ''draft'' then (Some ErrInvalidState, d)
         else if wr_testator_flt r = RealMeFLT c then (Some ErrForbidden, d)
         else if wr_testator_signed_at r = None then (Some ErrInvalidState, d)
         else if wsr_id (witness_entry k h t c) \<in> wsr_id ` set (witness_t d)
         then (Some (DbError ''unique_violation''), d)
         else (None, d\<lparr>witness_t := witness_t d @ [witness_entry k h t c]\<rparr>))"

definition lock_spec :: "WillID \<Rightarrow> gotime \<Rightarrow> db \<Rightarrow> goerror option \<times> db" where
  "lock_spec k t d = (case find_will k d of
       None \<Rightarrow> (Some ErrWillNotFound, d)
     | Some r \<Rightarrow> if wr_status r \<noteq> ''draft'' \<or> wr_testator_signed_at r = None \<or> witness_count k d < 2
         then (Some ErrInvalidState, d)
         else (None, changed k (\<lambda>r. r\<lparr>wr_status := ''locked'',
                wr_locked_at := Some (timestamptz t), wr_unlocked_at := None\<rparr>) d))"

definition notify_death_spec :: "WillID \<Rightarrow> int \<Rightarrow> gotime \<Rightarrow> db \<Rightarrow> goerror option \<times> db" where
  "notify_death_spec k n t d = (case find_will k d of
       None \<Rightarrow> (Some ErrWillNotFound, d)
     | Some r \<Rightarrow> if wr_status r \<noteq> ''locked'' then (Some ErrInvalidState, d)
         else if n = 0 then (None, changed k (unlocked_now t) d)
         else (None, changed k (\<lambda>r. r\<lparr>wr_status := ''death_notified'',
                wr_death_notified_at := Some (timestamptz t),
                wr_unlock_after := Some (timestamptz (time_AddDays t n))\<rparr>) d))"

definition complete_unlock_spec :: "WillID \<Rightarrow> gotime \<Rightarrow> db \<Rightarrow> goerror option \<times> db" where
  "complete_unlock_spec k t d = (case find_will k d of
       None \<Rightarrow> (Some ErrWillNotFound, d)
     | Some r \<Rightarrow> if wr_status r \<noteq> ''death_notified'' \<or> (\<exists>u. wr_unlock_after r = Some u \<and> t < u)
         then (Some ErrInvalidState, d)
         else (None, changed k (unlocked_now t) d))"

definition confirm_spec :: "WillID \<Rightarrow> string \<Rightarrow> gotime \<Rightarrow> db \<Rightarrow> goerror option \<times> db" where
  "confirm_spec k flt t d = (case find_will k d of
       None \<Rightarrow> (Some ErrWillNotFound, d)
     | Some r \<Rightarrow> if wr_testator_flt r \<noteq> flt then (Some ErrForbidden, d)
         else if wr_status r = ''superseded'' \<or> wr_status r = ''unlocked_at_death''
         then (Some ErrInvalidState, d)
         else (None, changed k (\<lambda>r. r\<lparr>wr_last_confirmed_at := Some (timestamptz t)\<rparr>) d))"

text \<open>
  The reminder endpoint: status code and tables.  The clock is read a second time when there was an
  earlier reminder (\<open>t0\<close> for the comparison, \<open>t1\<close> for the entry).
\<close>

definition remind_spec :: "WillID \<Rightarrow> gotime \<Rightarrow> gotime \<Rightarrow> db \<Rightarrow> int \<times> db" where
  "remind_spec k t0 t1 d = (case find_will k d of
       None \<Rightarrow> (404, d)
     | Some r \<Rightarrow> if wr_status r \<noteq> ''draft'' \<and> wr_status r \<noteq> ''locked'' then (409, d)
         else case wr_liveness_notified_at r of
           None \<Rightarrow> (202, changed k (\<lambda>r. r\<lparr>wr_liveness_notified_at := Some (timestamptz t0)\<rparr>) d)
         | Some t \<Rightarrow> if time_Sub t0 t < 24 * 3600 * 10 ^ 9 then (200, d)
             else (202, changed k (\<lambda>r. r\<lparr>wr_liveness_notified_at := Some (timestamptz t1)\<rparr>) d))"

text \<open>The updates of the repository write those columns.\<close>

lemma changed_upd: "changed k f d = upd_will k f d"
  by (simp add: changed_def upd_will_def sql_update_def)

lemma written_columns:
  "signed_row (t, h) = (\<lambda>r. r\<lparr>wr_testator_signed_at := Some (timestamptz t), wr_testator_payload_hash := Some h\<rparr>)"
  "status_row (WillStatusLocked, Some t, None) = (\<lambda>r. r\<lparr>wr_status := ''locked'',
     wr_locked_at := Some (timestamptz t), wr_unlocked_at := None\<rparr>)"
  "status_row (WillStatusUnlockedDead, None, Some t) = unlocked_now t"
  "death_row (t, u) = (\<lambda>r. r\<lparr>wr_status := ''death_notified'',
     wr_death_notified_at := Some (timestamptz t), wr_unlock_after := Some (timestamptz u)\<rparr>)"
  "confirmed_row t = (\<lambda>r. r\<lparr>wr_last_confirmed_at := Some (timestamptz t)\<rparr>)"
  "reminded_row t = (\<lambda>r. r\<lparr>wr_liveness_notified_at := Some (timestamptz t)\<rparr>)"
  "witness_row_of k h t c = witness_entry k h t c"
  by (simp_all add: fun_eq_iff signed_row_def status_row_def unlocked_now_def death_row_def
      confirmed_row_def reminded_row_def witness_row_of_def witness_entry_def)

section \<open>The methods implement it\<close>

text \<open>What a method call leaves in the tables.\<close>

definition on_tables :: "goerror option \<times> world \<Rightarrow> goerror option \<times> db" where
  "on_tables res = (fst res, tables (w_db (snd res)))"

lemma on_tables_simps [simp]: "on_tables (e, w) = (e, tables (w_db w))"
  by (simp add: on_tables_def)

lemma SignTestator_implements:
  assumes "healthy w"
  shows "on_tables (WillService_SignTestator k c h w) =
    sign_testator_spec k (RealMeFLT c) h (w_clock w 0) (tables (w_db w))"
proof -
  obtain w1 where w1: "healthy w1" "w_db w1 = w_db w" "w_clock w1 = w_clock w"
    and g: "WillRepo_GetByID k w = (case find_will k (w_db w) of
      None \<Rightarrow> Inl ErrWillNotFound | Some r \<Rightarrow> Inr (stored_will k (w_db w) r), w1)"
    using healthy_GetByID [OF assms] by metis
  from w1(1) obtain w2 where "time_Now w1 = (w_clock w1 0, w2)" "healthy w2" "w_db w2 = w_db w1"
    by (rule healthy_clock)
  with w1 show ?thesis
    by (simp add: WillService_SignTestator_def sign_testator_spec_def g status_reads healthy_upd
        changed_upd written_columns split: option.split)
qed

lemma SignWitness_implements:
  assumes "healthy w"
  shows "on_tables (WillService_SignWitness k c h w) =
    sign_witness_spec k c h (w_clock w 0) (tables (w_db w))"
proof -
  obtain w1 where w1: "healthy w1" "w_db w1 = w_db w" "w_clock w1 = w_clock w"
    and g: "WillRepo_GetByID k w = (case find_will k (w_db w) of
      None \<Rightarrow> Inl ErrWillNotFound | Some r \<Rightarrow> Inr (stored_will k (w_db w) r), w1)"
    using healthy_GetByID [OF assms] by metis
  from w1(1) obtain w2 where w2: "time_Now w1 = (w_clock w1 0, w2)" "healthy w2" "w_db w2 = w_db w1"
    by (rule healthy_clock)
  have "k \<in> will_ids (w_db w)" if "find_will k (w_db w) = Some r" for r
    using that by (rule find_will_ids)
  with w1 w2 show ?thesis
    by (auto simp: WillService_SignWitness_def sign_witness_spec_def g status_reads
        RecordWitnessSignature_def healthy_pool INSERT_witness_def sql_insert_def witness_entry_def written_columns
        split: option.split)
qed

lemma Lock_implements:
  assumes "healthy w"
  shows "on_tables (WillService_Lock k t w) = lock_spec k t (tables (w_db w))"
proof -
  obtain w1 where "healthy w1" "w_db w1 = w_db w" and g: "WillRepo_GetByID k w = (case find_will k (w_db w) of
      None \<Rightarrow> Inl ErrWillNotFound | Some r \<Rightarrow> Inr (stored_will k (w_db w) r), w1)"
    using healthy_GetByID [OF assms] by metis
  then show ?thesis
    by (simp add: WillService_Lock_def lock_spec_def g status_reads healthy_upd witness_count_def
        signatures_of_def changed_upd written_columns split: option.split)
qed

lemma NotifyDeath_implements:
  assumes "healthy w"
  shows "on_tables (WillService_NotifyDeath k n t w) = notify_death_spec k n t (tables (w_db w))"
proof -
  obtain w1 where "healthy w1" "w_db w1 = w_db w" and g: "WillRepo_GetByID k w = (case find_will k (w_db w) of
      None \<Rightarrow> Inl ErrWillNotFound | Some r \<Rightarrow> Inr (stored_will k (w_db w) r), w1)"
    using healthy_GetByID [OF assms] by metis
  then show ?thesis
    by (simp add: WillService_NotifyDeath_def notify_death_spec_def g status_reads healthy_upd Let_def
        changed_upd written_columns split: option.split)
qed

lemma CompleteUnlock_implements:
  assumes "healthy w"
  shows "on_tables (WillService_CompleteUnlock k t w) = complete_unlock_spec k t (tables (w_db w))"
proof -
  obtain w1 where "healthy w1" "w_db w1 = w_db w" and g: "WillRepo_GetByID k w = (case find_will k (w_db w) of
      None \<Rightarrow> Inl ErrWillNotFound | Some r \<Rightarrow> Inr (stored_will k (w_db w) r), w1)"
    using healthy_GetByID [OF assms] by metis
  then show ?thesis
    by (simp add: WillService_CompleteUnlock_def complete_unlock_spec_def g status_reads healthy_upd
        time_Before_iff changed_upd written_columns split: option.split)
qed

lemma ConfirmLiveness_implements:
  assumes "healthy w"
  shows "on_tables (WillService_ConfirmLiveness k c w) =
    confirm_spec k (RealMeFLT c) (w_clock w 0) (tables (w_db w))"
proof -
  obtain w1 where w1: "healthy w1" "w_db w1 = w_db w" "w_clock w1 = w_clock w"
    and g: "WillRepo_GetByID k w = (case find_will k (w_db w) of
      None \<Rightarrow> Inl ErrWillNotFound | Some r \<Rightarrow> Inr (stored_will k (w_db w) r), w1)"
    using healthy_GetByID [OF assms] by metis
  from w1(1) obtain w2 where "time_Now w1 = (w_clock w1 0, w2)" "healthy w2" "w_db w2 = w_db w1"
    by (rule healthy_clock)
  with w1 show ?thesis
    by (simp add: WillService_ConfirmLiveness_def confirm_spec_def g status_reads healthy_upd
        changed_upd written_columns split: option.split)
qed

lemma RecordLivenessReminder_served:
  assumes "healthy w"
  obtains w' where "WillService_RecordLivenessReminder k w = (None, w')"
    and "tables (w_db w') = changed k (\<lambda>r. r\<lparr>wr_liveness_notified_at := Some (timestamptz (w_clock w 0))\<rparr>) (tables (w_db w))"
proof -
  obtain w1 where w1: "time_Now w = (w_clock w 0, w1)" "healthy w1" "w_db w1 = w_db w"
    using assms by (rule healthy_clock)
  then show thesis
    by (intro that) (simp add: WillService_RecordLivenessReminder_def healthy_upd, simp add: changed_upd written_columns)
qed

lemma SendReminder_implements:
  assumes "healthy w"
  shows "(rs_status (fst (LivenessHandler_SendReminder k w)), tables (w_db (snd (LivenessHandler_SendReminder k w)))) =
    remind_spec k (w_clock w 0) (w_clock w 1) (tables (w_db w))"
proof -
  obtain w1 where w1: "healthy w1" "w_db w1 = w_db w" "w_clock w1 = w_clock w"
    and g: "WillService_GetByID k w = (case find_will k (w_db w) of None \<Rightarrow> Inl ErrWillNotFound
       | Some r \<Rightarrow> Inr (full_will k (w_db w) r), w1)"
    using healthy_Service_GetByID [OF assms] by metis
  have w2: "time_Now w1 = (w_clock w 0, w1\<lparr>w_clock := (\<lambda>n. w_clock w (Suc n))\<rparr>)"
    by (simp add: time_Now_def w1(3))
  have h2: "healthy (w1\<lparr>w_clock := (\<lambda>n. w_clock w (Suc n))\<rparr>)" using w1(1) by (simp add: healthy_def)
  obtain v1 where v1: "WillService_RecordLivenessReminder k w1 = (None, v1)"
    "tables (w_db v1) = changed k (\<lambda>r. r\<lparr>wr_liveness_notified_at := Some (timestamptz (w_clock w1 0))\<rparr>) (tables (w_db w1))"
    using w1(1) by (rule RecordLivenessReminder_served)
  obtain v2 where v2: "WillService_RecordLivenessReminder k (w1\<lparr>w_clock := (\<lambda>n. w_clock w (Suc n))\<rparr>) = (None, v2)"
    "tables (w_db v2) = changed k (\<lambda>r. r\<lparr>wr_liveness_notified_at := Some (timestamptz (w_clock w 1))\<rparr>) (tables (w_db w1))"
    using h2 by (rule RecordLivenessReminder_served) simp
  show ?thesis
    using w1 v1 v2
    by (simp add: LivenessHandler_SendReminder_def remind_spec_def g status_reads w2 hours24_def full_will_def
        stored_will_def will_of_row_def split: option.split)
qed

end
