(* ===== verification/Executor_Access.thy ===== *)
theory Executor_Access
  imports Lifecycle_Spec
begin

text \<open>
  Who is let into an opened vault: what a success of the executor endpoint means in any
  environment, and what happens when the read of the executors fails.
\<close>

definition stored_vault :: "WillID \<Rightarrow> db \<Rightarrow> (string \<times> string \<times> string) option" where
  "stored_vault k d = map_option (\<lambda>r. (wr_vault_ciphertext r, wr_vault_nonce r, wr_vault_alg r)) (find_will k d)"

lemma Service_GetByID_reads:
  assumes "WillService_GetByID k w = (Inr will, w')"
  shows "w_db w' = w_db w" and "\<exists>r m. find_will k (w_db w) = Some r \<and>
    Status will = status_of_text (wr_status r) \<and> UnlockAfter will = wr_unlock_after r \<and>
    stored_vault k (w_db w) = Some (VaultCiphertext will, VaultNonce will, VaultAlg will) \<and>
    Executors will = take m (executors_of k (w_db w))"
proof -
  show "w_db w' = w_db w" using GetByID_unchanged [of k w] assms by simp
  from assms obtain will0 w1 where "WillRepo_GetByID k w = (Inr will0, w1)"
    "Status will = Status will0" "UnlockAfter will = UnlockAfter will0" "Executors will = Executors will0"
    "VaultCiphertext will = VaultCiphertext will0" "VaultNonce will = VaultNonce will0" "VaultAlg will = VaultAlg will0"
    by (auto simp: WillService_GetByID_def split: prod.splits sum.splits)
  with GetByID_reads [of k w will0 w1] show "\<exists>r m. find_will k (w_db w) = Some r \<and>
    Status will = status_of_text (wr_status r) \<and> UnlockAfter will = wr_unlock_after r \<and>
    stored_vault k (w_db w) = Some (VaultCiphertext will, VaultNonce will, VaultAlg will) \<and>
    Executors will = take m (executors_of k (w_db w))" by (auto simp: stored_vault_def)
qed

lemma executor_answer_200:
  assumes "rs_status (executor_answer will i) = 200"
  shows "rs_body (executor_answer will i) = WillBody will \<and> Status will = WillStatusUnlockedDead \<and>
    isNominatedExecutor (Executors will) (Id_FLT i)"
  using assms by (auto simp: executor_answer_def split: if_splits)

lemma healthy_CompleteUnlock:
  assumes "healthy w"
  shows "healthy (snd (WillService_CompleteUnlock k t w))"
proof -
  obtain w1 where "healthy w1" and "WillRepo_GetByID k w = (case find_will k (w_db w) of
      None \<Rightarrow> Inl ErrWillNotFound | Some r \<Rightarrow> Inr (stored_will k (w_db w) r), w1)"
    using healthy_GetByID [OF assms] by metis
  then show ?thesis
    by (simp add: WillService_CompleteUnlock_def healthy_upd healthy_Record split: option.split)
qed

lemma healthy_executors:
  assumes "healthy w" and "WillService_GetByID k w = (Inr will, w')"
  shows "healthy w'" and "Executors will = executors_of k (w_db w')"
proof -
  obtain w1 where "healthy w1" "w_db w1 = w_db w"
    and "WillService_GetByID k w = (case find_will k (w_db w) of None \<Rightarrow> Inl ErrWillNotFound
       | Some r \<Rightarrow> Inr (full_will k (w_db w) r), w1)"
    using healthy_Service_GetByID [OF assms(1)] by metis
  with assms(2) show "healthy w'" and "Executors will = executors_of k (w_db w')"
    by (auto simp: full_will_def stored_will_def will_of_row_def split: option.splits)
qed

text \<open>
  Whatever the environment does, a success answers with the will of the last read, which sees the
  state that the request leaves.
\<close>

lemma ExecutorGetWill_last_read:
  assumes "rs_status (fst (ExecutorHandler_GetWill (Some i) k w)) = 200"
  obtains v will where "WillService_GetByID k v = (Inr will, snd (ExecutorHandler_GetWill (Some i) k w))"
    and "fst (ExecutorHandler_GetWill (Some i) k w) = executor_answer will i"
    and "healthy w \<longrightarrow> healthy v"
proof -
  obtain res w1 where g: "WillService_GetByID k w = (res, w1)" by fastforce
  show thesis
  proof (cases res)
    case (Inl e)
    with assms show thesis by (simp add: ExecutorHandler_GetWill_def g split: if_splits)
  next
    case (Inr will)
    show thesis
    proof (cases "Status will = WillStatusDeathNotified")
      case False
      then show thesis
        by (intro that [of w will]) (simp_all add: ExecutorHandler_GetWill_def g Inr)
    next
      case True
      obtain now w2 where n: "time_Now w1 = (now, w2)" by fastforce
      obtain e w3 where c: "WillService_CompleteUnlock k now w2 = (e, w3)" by fastforce
      obtain res' w4 where g': "WillService_GetByID k w3 = (res', w4)" by fastforce
      have "healthy w3" if "healthy w"
        using healthy_executors(1) [OF that g [unfolded Inr]] healthy_Now [of w1] healthy_CompleteUnlock [of w2 k now]
        by (simp add: n c)
      with assms True show thesis
        by (intro that [of w3 "projr res'"])
          (auto simp: ExecutorHandler_GetWill_def g Inr n c g' split: if_splits option.splits sum.splits)
    qed
  qed
qed

lemma ExecutorGetWill_200:
  assumes "rs_status (fst (ExecutorHandler_GetWill (Some i) k w)) = 200"
  shows "\<exists>will m. rs_body (fst (ExecutorHandler_GetWill (Some i) k w)) = WillBody will \<and>
    Status will = WillStatusUnlockedDead \<and>
    status_in k (w_db (snd (ExecutorHandler_GetWill (Some i) k w))) = Some WillStatusUnlockedDead \<and>
    stored_vault k (w_db (snd (ExecutorHandler_GetWill (Some i) k w))) =
      Some (VaultCiphertext will, VaultNonce will, VaultAlg will) \<and>
    Executors will = take m (executors_of k (w_db (snd (ExecutorHandler_GetWill (Some i) k w)))) \<and>
    (healthy w \<longrightarrow> Executors will = executors_of k (w_db (snd (ExecutorHandler_GetWill (Some i) k w)))) \<and>
    isNominatedExecutor (Executors will) (Id_FLT i)"
proof -
  from assms obtain v will where v: "WillService_GetByID k v = (Inr will, snd (ExecutorHandler_GetWill (Some i) k w))"
      "fst (ExecutorHandler_GetWill (Some i) k w) = executor_answer will i" "healthy w \<longrightarrow> healthy v"
    by (rule ExecutorGetWill_last_read)
  obtain m where "Executors will = take m (executors_of k (w_db v))"
    using Service_GetByID_reads(2) [OF v(1)] by blast
  moreover have "healthy w \<longrightarrow> Executors will = executors_of k (w_db (snd (ExecutorHandler_GetWill (Some i) k w)))"
    using v(3) healthy_executors(2) [OF _ v(1)] by blast
  moreover have "status_in k (w_db v) = Some (Status will)"
    "stored_vault k (w_db v) = Some (VaultCiphertext will, VaultNonce will, VaultAlg will)"
    using Service_GetByID_reads(2) [OF v(1)] by (auto simp: status_in_def)
  ultimately show ?thesis
    using executor_answer_200 [of will i] assms
    by (intro exI [of _ will] exI [of _ m]) (simp add: v(2) Service_GetByID_reads(1) [OF v(1)])
qed

text \<open>An unlocked vault is only read.\<close>

lemma ExecutorGetWill_unlocked_keeps:
  assumes "find_will k (w_db w) = Some r" and "wr_status r = ''unlocked_at_death''"
  shows "w_db (snd (ExecutorHandler_GetWill identity k w)) = w_db w"
proof -
  obtain res w1 where g: "WillService_GetByID k w = (res, w1)" by fastforce
  have "w_db w1 = w_db w" using GetByID_unchanged [of k w] by (simp add: g)
  moreover have "Status will \<noteq> WillStatusDeathNotified" if "res = Inr will" for will
    using Service_GetByID_reads(2) [OF g [unfolded that]] assms by auto
  ultimately show ?thesis
    by (auto simp: ExecutorHandler_GetWill_def g split: sum.splits option.splits)
qed

text \<open>
  The reads of \<open>GetByID\<close>: the row, the clauses, the beneficiaries, the executors.  When the fourth
  fails, the list is nil and everybody counts as nominated.
\<close>

lemma failed_executors_read:
  assumes "w_outcomes w = (\<lambda>n. if n = 3 then Refused m else Served)"
    and "find_will k (w_db w) = Some r" and "wr_status r = ''unlocked_at_death''"
  shows "rs_status (fst (ExecutorHandler_GetWill (Some i) k w)) = 200 \<and>
    (\<exists>will. rs_body (fst (ExecutorHandler_GetWill (Some i) k w)) = WillBody will \<and>
       VaultCiphertext will = wr_vault_ciphertext r)"
  using assms
  by (simp add: ExecutorHandler_GetWill_def WillService_GetByID_def WillRepo_GetByID_def fetch_defs
      swallow_def pool_Query_def pool_QueryRow_def next_outcome_def GetDigitalAssetsByWillID_def
      GetPropertyClausesByWillID_def will_of_row_def executor_answer_def isNominatedExecutor_def)

text \<open>The plain read has no further check behind the gate.\<close>

lemma verified_session_reads:
  assumes "healthy w" and "find_will k (w_db w) = Some r"
    and "rq_endpoint rq = EpGet k" and "rq_session rq = Some i" and "LevelVerified \<le> Id_AssuranceLevel i"
  shows "\<exists>will. fst (serve s rq w) = respond 200 (WillBody will) \<and> Status will = status_of_text (wr_status r) \<and>
    VaultCiphertext will = wr_vault_ciphertext r"
proof -
  have "serve s rq w = WillHandler_GetByID k w"
    using assms(3-5) by (simp add: serve_acting acting_def)
  moreover obtain w1 where "WillService_GetByID k w = (case find_will k (w_db w) of None \<Rightarrow> Inl ErrWillNotFound
       | Some r \<Rightarrow> Inr (full_will k (w_db w) r), w1)"
    using healthy_Service_GetByID [OF assms(1)] by metis
  ultimately show ?thesis
    by (auto simp: WillHandler_GetByID_def assms(2) full_will_def intro!: exI [of _ "full_will k (w_db w) r"])
qed

end
