(* ===== verification/Time_Lock.thy ===== *)
theory Time_Lock
  imports Lifecycle Server
begin

text \<open>
  The cooling-off period: a will whose death is notified stays as it is, whatever is requested of
  the server and whatever the database does, until the clock of a request reaches the instant the
  notice set.
\<close>

section \<open>The time lock\<close>

text \<open>A will waits: death is notified and the vault opens at \<open>u\<close>.\<close>

definition waiting :: "WillID \<Rightarrow> gotime \<Rightarrow> db \<Rightarrow> bool" where
  "waiting k u d \<longleftrightarrow> keys_ok d \<and> (\<exists>r. find_will k d = Some r \<and> wr_status r = ''death_notified'' \<and>
     wr_unlock_after r = Some u)"

lemma waiting_row:
  assumes "keys_ok d" "find_will k d = Some r" "wr_status r = ''death_notified''" "wr_unlock_after r = Some u"
    and "find_will j d = Some q" "d' = upd_will j f d" "\<And>r. wr_id (f r) = wr_id r"
    and "j = k \<Longrightarrow> wr_status (f r) = wr_status r \<and> wr_unlock_after (f r) = wr_unlock_after r"
    and "keys_ok d'"
  shows "waiting k u d'"
  using assms by (cases "j = k") (auto simp: waiting_def find_will_def upd_will_def will_tab.upd_sel)

lemma waiting_step:
  assumes "registry a d d'" "waiting k u d" "\<And>t. a = ActUnlocked k t \<Longrightarrow> t < u"
  shows "waiting k u d'"
proof -
  from assms(2) obtain r where keys: "keys_ok d" and r: "find_will k d = Some r"
      "wr_status r = ''death_notified''" "wr_unlock_after r = Some u"
    by (auto simp: waiting_def)
  note keys' = keys_ok_step [OF assms(1) keys]
  have same: "waiting k u d'" if "will_t d' = will_t d"
    using that r keys' by (simp add: waiting_def find_will_def)
  have added: "waiting k u d'" if "r \<in> set (will_t d')"
    using that r keys' find_will_mem [OF r(1)] by (auto simp: waiting_def find_will_iff)
  note row = waiting_row [OF keys r _ _ _ _ keys']
  from assms(1) show ?thesis
  proof cases
    case (drafted will)
    from draft_effect [OF drafted(2) active_ids_subset] r(2) find_will_mem [OF r(1)] show ?thesis
      by (intro added) (auto simp: superseding_active [OF keys] active_of_def intro!: image_eqI [of _ _ r])
  next
    case (codicil will p q)
    have "map (superseding (Will_ID will) []) (will_t d) = will_t d"
      by (rule map_idI) (simp add: superseding_def)
    with draft_effect [OF codicil(2)] find_will_mem [OF r(1)] show ?thesis by (intro added) simp
  next
    case (unlocked j q t)
    have "j \<noteq> k"
    proof
      assume "j = k"
      with unlocked r assms(3) [of t] show False by auto
    qed
    with unlocked show ?thesis
      by (intro row [of j q "status_row (WillStatusUnlockedDead, None, Some t)"]) (auto simp: status_row_def)
  next
    case (reminded j t)
    then show ?thesis
      using row [of j _ "reminded_row t"] same upd_will_absent [of j d "reminded_row t"]
      by (cases "find_will j d") (auto simp: reminded_row_def)
  next
    case (testator_signed j q f t h)
    with r show ?thesis by (intro row [of j q "signed_row (t, h)"]) (auto simp: signed_row_def)
  next
    case (locked j q t)
    with r show ?thesis
      by (intro row [of j q "status_row (WillStatusLocked, Some t, None)"]) (auto simp: status_row_def)
  next
    case (death_notified j q t v)
    with r show ?thesis by (intro row [of j q "death_row (t, v)"]) (auto simp: death_row_def)
  next
    case (unlocked_at_notice j q t)
    with r show ?thesis
      by (intro row [of j q "status_row (WillStatusUnlockedDead, None, Some t)"]) (auto simp: status_row_def)
  next
    case (confirmed j q f t)
    then show ?thesis by (intro row [of j q "confirmed_row t"]) (auto simp: confirmed_row_def)
  qed (rule same, fastforce simp: INSERT_witness_Inr INSERT_asset_Inr INSERT_property_Inr dest!: INSERT_audit_Inr)+
qed

lemma serve_waiting:
  assumes "waiting k u (w_db w)" "w_clock w 0 < u"
  shows "waiting k u (w_db (snd (serve s rq w)))"
proof (rule takes_keeps [where I = "waiting k u", OF serve_run assms(1)])
  fix a d d'
  assume step: "registry a d d'" "waiting k u d"
    and a: "own_action s (rq_endpoint rq) (verified_session rq) (w_clock w 0) a \<or> (\<exists>r. a = ActLogged r)"
  have "t < u" if "a = ActUnlocked k t" for t
    using a that assms(2) by (auto simp: own_action_def split: endpoint.splits if_splits)
  then show "waiting k u d'" by (rule waiting_step [OF step])
qed

text \<open>
  A day of requests: each comes with the clock, the randomness and the database outcomes of its own
  moment, and works on the database the one before left.
\<close>

fun serve_each :: "server \<Rightarrow> (request \<times> world) list \<Rightarrow> db \<Rightarrow> db" where
  "serve_each s [] d = d"
| "serve_each s ((rq, e) # rqs) d = serve_each s rqs (w_db (snd (serve s rq (e\<lparr>w_db := d\<rparr>))))"

lemma serve_each_waiting:
  assumes "waiting k u d" "\<forall>(rq, e) \<in> set rqs. w_clock e 0 < u"
  shows "waiting k u (serve_each s rqs d)"
  using assms
proof (induction s rqs d rule: serve_each.induct)
  case (2 s rq e rqs d)
  then show ?case using serve_waiting [of k u "e\<lparr>w_db := d\<rparr>" s rq] by simp
qed simp

end
