(* ===== verification/Example_Estate.thy ===== *)
theory Example_Estate
  imports Executor_Access Time_Lock Audit_Chain
begin

text \<open>
  A small estate to run the model on: a testator, two witnesses, an executor and a stranger, and
  the requests that take a will from draft to locked.  The examples show that the hypotheses of the
  properties can hold; nothing else depends on them.
\<close>

definition no_hmac :: "string \<Rightarrow> string \<Rightarrow> string" where
  "no_hmac key message = key @ '':'' @ message"

definition ex_server :: server where
  "ex_server = \<lparr>sv_secret = ''key'', sv_hmac = no_hmac, sv_linz = None\<rparr>"

text \<open>A death notice for the will \<open>w\<close>, with no cooling-off period.\<close>

definition ex_notice :: string where
  "ex_notice = json_text (notice_json \<lparr>bdm_WillID = ''w'', bdm_DelayDays = 0\<rparr>)"

lemma ex_notice_decoded: "decode_payload ex_notice = Some \<lparr>bdm_WillID = ''w'', bdm_DelayDays = 0\<rparr>"
  unfolding ex_notice_def by (rule decode_notice) (simp_all add: in_int64_def)

lemma ex_notice_length: "length ex_notice = 28"
  by (simp add: ex_notice_def notice_json_def json_quote_def json_escape.simps json_ascii_def dec_int_def dec_pos.simps)

definition ex_world :: world where
  "ex_world = \<lparr>w_db = empty_db, w_clock = (\<lambda>n. GoTime (63900000000 + int n) 0),
     w_rand = (\<lambda>n. word_of_nat n), w_outcomes = (\<lambda>_. Served), w_sha256 = (\<lambda>s. s)\<rparr>"

definition person :: "string \<Rightarrow> AssuranceLevel \<Rightarrow> Identity" where
  "person flt level = \<lparr>Id_FLT = flt, Id_AssuranceLevel = level, AuthnInstant = zero_time,
     SessionIndex = ''s'', Id_FullName = flt, DateOfBirth = zero_time, PlaceOfBirth = '''',
     Gender = '''', Id_Address = None\<rparr>"

definition claims :: "string \<Rightarrow> IdentityClaims" where
  "claims flt = identityClaims (person flt LevelVerified)"

definition ex_request :: CreateWillRequest where
  "ex_request = \<lparr>rq_Clauses = [\<lparr>Clause_ID = '''', Clause_Text = ''all to Bo'', Clause_Index = 1\<rparr>],
     rq_Beneficiaries = [], rq_Executors = [\<lparr>Executor_ID = '''', Executor_Name = ''Ed'',
       Executor_Email = '''', FLT = ''ed''\<rparr>],
     rq_VaultCiphertext = ''c'', rq_VaultNonce = ''n'', rq_VaultAlg = ''AES-GCM-256'',
     rq_VaultUnlockDelayDays = 0\<rparr>"

definition by_person :: "string \<Rightarrow> endpoint \<Rightarrow> request" where
  "by_person flt ep = \<lparr>rq_endpoint = ep, rq_session = Some (person flt LevelVerified), rq_uri = ''/''\<rparr>"

text \<open>A draft will \<open>w\<close> of \<open>ann\<close> with executor \<open>ed\<close>, and the same will locked.\<close>

definition ex_will :: Will where
  "ex_will = \<lparr>Will_ID = ''w'', Testator = claims ''ann'', Clauses = [],
     TestatorSignedAt = None, TestatorPayloadHash = None, WitnessSignatures = [], Beneficiaries = [],
     Executors = [], DigitalAssetClauses = [], PropertyClauses = [], Status = WillStatusDraft,
     LockedAt = None, SupersededBy = None, ParentWillID = None, IsCodicil = False,
     DeathNotifiedAt = None, VaultUnlockDelayDays = 0, UnlockAfter = None, UnlockedAt = None,
     LastConfirmedAt = None, LivenessNotifiedAt = None, VaultCiphertext = ''c'', VaultNonce = ''n'',
     VaultAlg = ''AES-GCM-256'', AuditNote = ''created draft''\<rparr>"

definition ex_draft_db :: db where
  "ex_draft_db = empty_db\<lparr>will_t := [will_row_of ex_will],
     executor_t := [\<lparr>er_id = ''x'', er_will_id = ''w'', er_name = ''Ed'', er_email = '''', er_flt = Some ''ed''\<rparr>]\<rparr>"

definition ex_time :: "int \<Rightarrow> gotime" where
  "ex_time n = GoTime (63900000000 + n) 0"

definition ex_witness :: "string \<Rightarrow> string \<Rightarrow> witness_row" where
  "ex_witness i flt = \<lparr>wsr_id = i, wsr_will_id = ''w'', wsr_flt = flt, wsr_full_name = flt,
     wsr_assurance_level = ''verified'', wsr_signed_at = ex_time 2, wsr_payload_hash = ''h''\<rparr>"

definition ex_locked_row :: will_row where
  "ex_locked_row = status_row (WillStatusLocked, Some (ex_time 3), None)
     (signed_row (ex_time 1, ''h'') (will_row_of ex_will))"

definition ex_locked_db :: db where
  "ex_locked_db = ex_draft_db\<lparr>will_t := [ex_locked_row],
     witness_t := [ex_witness ''s1'' ''wit1'', ex_witness ''s2'' ''wit2'']\<rparr>"

text \<open>Death notified, with the vault to open at the given time.\<close>

definition ex_notified_db :: "gotime \<Rightarrow> db" where
  "ex_notified_db u = ex_locked_db\<lparr>will_t := [death_row (ex_time 4, u) ex_locked_row]\<rparr>"

text \<open>The vault open.\<close>

definition ex_unlocked_db :: db where
  "ex_unlocked_db = ex_locked_db\<lparr>will_t :=
     [status_row (WillStatusUnlockedDead, None, Some (ex_time 5)) ex_locked_row]\<rparr>"

definition ex_at :: "db \<Rightarrow> world" where
  "ex_at d = ex_world\<lparr>w_db := d\<rparr>"

lemmas ex_defs = ex_will_def ex_draft_db_def ex_time_def ex_witness_def ex_locked_row_def
  ex_locked_db_def ex_notified_db_def ex_unlocked_db_def ex_at_def ex_world_def empty_db_def claims_def person_def
  identityClaims_def

lemma ex_at_simps [simp]: "w_db (ex_at d) = d" "healthy (ex_at d)" "w_clock (ex_at d) n = ex_time (int n)"
  "w_sha256 (ex_at d) = (\<lambda>s. s)"
  by (simp_all add: ex_at_def ex_world_def healthy_def ex_time_def)

lemmas registry_ok_defs = registry_ok_def keys_ok_def rows_ok_def row_ok_def shape_ok_def executed_def
  witnesses_ok_def single_ok_def family_ok_def refs_ok_def primary_keys_ok_def lineage_ok_def superseded_rel_def codicil_rel_def witness_count_def sql_where_def
  will_ids_def Let_def

lemma ex_draft_ok [simp]: "registry_ok ex_draft_db"
  by (simp add: registry_ok_defs ex_defs will_row_of_def)

lemma ex_locked_ok [simp]: "registry_ok ex_locked_db"
  by (simp add: registry_ok_defs ex_defs will_row_of_def signed_row_def status_row_def)

lemma ex_notified_ok [simp]: "registry_ok (ex_notified_db u)"
  by (simp add: registry_ok_defs ex_defs will_row_of_def signed_row_def status_row_def death_row_def)

lemma ex_unlocked_ok [simp]: "registry_ok ex_unlocked_db"
  by (simp add: registry_ok_defs ex_defs will_row_of_def signed_row_def status_row_def)

lemma ex_find [simp]:
  "find_will ''w'' ex_draft_db = Some (will_row_of ex_will)"
  "find_will ''w'' ex_locked_db = Some ex_locked_row"
  "find_will ''w'' (ex_notified_db u) = Some (death_row (ex_time 4, u) ex_locked_row)"
  "find_will ''w'' ex_unlocked_db = Some (status_row (WillStatusUnlockedDead, None, Some (ex_time 5)) ex_locked_row)"
  by (simp_all add: find_will_def sql_find_def ex_defs will_row_of_def signed_row_def status_row_def
      death_row_def)

lemma ex_executors [simp]:
  "executors_of ''w'' ex_locked_db =
     [\<lparr>Executor_ID = ''x'', Executor_Name = ''Ed'', Executor_Email = '''', FLT = ''ed''\<rparr>]"
  "executors_of ''w'' (ex_notified_db u) = executors_of ''w'' ex_locked_db"
  "executors_of ''w'' ex_unlocked_db = executors_of ''w'' ex_locked_db"
  by (simp_all add: executors_of_def executor_of_row_def coalesce_def sql_where_def ex_defs)

lemma ex_status [simp]:
  "status_in ''w'' ex_draft_db = Some WillStatusDraft"
  "status_in ''w'' ex_locked_db = Some WillStatusLocked"
  "status_in ''w'' (ex_notified_db u) = Some WillStatusDeathNotified"
  "status_in ''w'' ex_unlocked_db = Some WillStatusUnlockedDead"
  by (simp_all add: status_in_def ex_locked_row_def ex_will_def will_row_of_def signed_row_def
      status_row_def death_row_def)

text \<open>An audit entry of the will, and a log that holds it in altered form.\<close>

definition ex_entry :: audit_row where
  "ex_entry = new_audit_row (\<lambda>s. s) ''w'' '''' AuditEventCreated ''ann'' '''' (ex_time 1)"

definition ex_log_db :: "audit_row \<Rightarrow> db" where
  "ex_log_db r = ex_locked_db\<lparr>audit_t := [r]\<rparr>"

lemma ex_entry_simps [simp]:
  "ar_will_id ex_entry = ''w''" "ar_event ex_entry = ''will_created''"
  "ar_previous_entry_id ex_entry = None" "ar_created_at ex_entry = ex_time 1" "ar_actor_flt ex_entry = ''ann''"
  by (simp_all add: ex_entry_def ex_time_def timestamptz_def)
    (simp add: new_audit_row_def audit_row_of_def AuditEntryForTime_def)

lemma ex_entry_sealed: "hashed_text ex_entry = ar_id ex_entry"
  using sealed_whole_micros [of AuditEventCreated "ex_time 1" "\<lambda>s. s" "''w''" "''''" "''ann''" "''''"]
  by (simp add: ex_entry_def sealed_iff known_event_def whole_micros_def ex_time_def)

end
