(* ===== verification/Http_Middleware.thy ===== *)
theory Http_Middleware
  imports Will_Service Go_Url
begin

text \<open>
  \<open>packages/nz-common/middleware\<close>.  A handler is given the request and the state, and yields the calls
  it makes on its \<open>http.ResponseWriter\<close>, in order; middleware adds calls before the handler's or
  looks at those the handler made.
\<close>

section \<open>Requests, response writers, state\<close>

text \<open>Header names are in canonical form; \<open>Header.Get\<close> is \<open>values_Get\<close>.  The body is \<open>None\<close> when reading it
  fails.\<close>

record http_in =
  in_Method :: string
  in_Path :: string
  in_Header :: url_values
  in_RemoteAddr :: string
  in_Body :: "string option"
  in_request_id :: "string option"

datatype rw_call = SetHeader string string | WriteHeader int | WriteBody string

record written =
  wt_status :: "int option"
  wt_header :: url_values
  wt_body :: string

text \<open>
  The writer of \<open>net/http\<close>: the first \<open>WriteHeader\<close> counts, a write implies status 200, headers set
  later are lost, and an answer without content has no body.
\<close>

fun apply_write :: "written \<Rightarrow> rw_call \<Rightarrow> written" where
  "apply_write a (SetHeader k v) = (if wt_status a = None then a\<lparr>wt_header := values_Set k v (wt_header a)\<rparr> else a)"
| "apply_write a (WriteHeader st) = (if wt_status a = None then a\<lparr>wt_status := Some st\<rparr> else a)"
| "apply_write a (WriteBody b) =
     (let a = (if wt_status a = None then a\<lparr>wt_status := Some 200\<rparr> else a)
      in if wt_status a = Some 204 \<or> wt_status a = Some 304 then a else a\<lparr>wt_body := wt_body a @ b\<rparr>)"

definition send :: "rw_call list \<Rightarrow> written" where
  "send ws = foldl apply_write \<lparr>wt_status = None, wt_header = [], wt_body = ''''\<rparr> ws"

definition sent_status :: "rw_call list \<Rightarrow> int" where
  "sent_status ws = (case wt_status (send ws) of None \<Rightarrow> 200 | Some st \<Rightarrow> st)"

text \<open>The status and body a wrapper sees: the last \<open>WriteHeader\<close>, every write.\<close>

fun seen_status :: "rw_call list \<Rightarrow> int \<Rightarrow> int" where
  "seen_status [] st = st"
| "seen_status (WriteHeader st' # ws) st = seen_status ws st'"
| "seen_status (_ # ws) st = seen_status ws st"

fun seen_body :: "rw_call list \<Rightarrow> string" where
  "seen_body [] = []"
| "seen_body (WriteBody b # ws) = b @ seen_body ws"
| "seen_body (_ # ws) = seen_body ws"

record log_entry =
  lg_method :: string
  lg_path :: string
  lg_status :: int
  lg_duration_ms :: int
  lg_request_id :: string
  lg_remote_addr :: string

text \<open>The row of \<open>idempotency_keys\<close>, its \<open>created_at\<close> left out.\<close>

record idem_row =
  ik_key :: string
  ik_status_code :: int
  ik_body :: string

record env =
  ev_world :: world
  ev_log :: "log_entry list"
  ev_idem :: "idem_row list"

type_synonym handler = "http_in \<Rightarrow> env \<Rightarrow> rw_call list \<times> env"

section \<open>request_id.go\<close>

definition RequestIDFromContext :: "http_in \<Rightarrow> string" where
  "RequestIDFromContext r = (case in_request_id r of None \<Rightarrow> '''' | Some i \<Rightarrow> i)"

definition uuid_New :: "env \<Rightarrow> string \<times> env" where
  "uuid_New e = (case rand_Read 16 (ev_world e) of (b, w) \<Rightarrow> (uuid_text (uuid_bytes b), e\<lparr>ev_world := w\<rparr>))"

definition request_id_of :: "http_in \<Rightarrow> env \<Rightarrow> string \<times> env" where
  "request_id_of r e =
     (let i = values_Get ''X-Request-Id'' (in_Header r) in if i = '''' then uuid_New e else (i, e))"

definition RequestID :: "handler \<Rightarrow> handler" where
  "RequestID next r e =
     (case request_id_of r e of (i, e) \<Rightarrow>
     (case next (r\<lparr>in_request_id := Some i\<rparr>) e of (ws, e) \<Rightarrow>
        (SetHeader ''X-Request-Id'' i # ws, e)))"

section \<open>logger.go\<close>

definition env_Now :: "env \<Rightarrow> gotime \<times> env" where
  "env_Now e = (case time_Now (ev_world e) of (t, w) \<Rightarrow> (t, e\<lparr>ev_world := w\<rparr>))"

definition Logger :: "handler \<Rightarrow> handler" where
  "Logger next r e =
     (case env_Now e of (start, e) \<Rightarrow>
     (case next r e of (ws, e) \<Rightarrow>
     (case env_Now e of (now, e) \<Rightarrow>
        (ws, e\<lparr>ev_log := ev_log e @ [\<lparr>lg_method = in_Method r, lg_path = in_Path r,
           lg_status = seen_status ws 200, lg_duration_ms = go_div (time_Sub now start) 1000000,
           lg_request_id = RequestIDFromContext r, lg_remote_addr = in_RemoteAddr r\<rparr>]\<rparr>))))"

section \<open>cors.go\<close>

record CORSConfig =
  AllowedOrigins :: "string list"
  AllowedMethods :: "string list"
  AllowCredentials :: bool

definition cors_headers :: "CORSConfig \<Rightarrow> string \<Rightarrow> rw_call list" where
  "cors_headers cfg origin =
     (let methods = strings_Join (AllowedMethods cfg) '', '';
          methods = (if methods = '''' then ''GET, POST, PUT, PATCH, DELETE, OPTIONS'' else methods);
          allowAll = (''*'' \<in> set (AllowedOrigins cfg))
      in if origin \<noteq> '''' \<and> (allowAll \<or> origin \<in> set (AllowedOrigins cfg))
         then [SetHeader ''Access-Control-Allow-Origin'' origin,
               SetHeader ''Access-Control-Allow-Methods'' methods,
               SetHeader ''Access-Control-Allow-Headers'' ''Content-Type, Authorization, X-Request-ID''] @
              (if AllowCredentials cfg then [SetHeader ''Access-Control-Allow-Credentials'' ''true''] else [])
         else [])"

definition CORS :: "CORSConfig \<Rightarrow> handler \<Rightarrow> handler" where
  "CORS cfg next r e =
     (let hs = cors_headers cfg (values_Get ''Origin'' (in_Header r))
      in if in_Method r = ''OPTIONS'' then (hs @ [WriteHeader 204], e)
         else (case next r e of (ws, e) \<Rightarrow> (hs @ ws, e)))"

section \<open>idempotency.go\<close>

text \<open>
  What the environment does to the two statements of one request: whether each is served, and what
  the \<open>JSONB\<close> column makes of a body (\<open>None\<close>: not a JSON text; otherwise the text it prints it as).
\<close>

record idem_db =
  lookup_served :: bool
  store_served :: bool
  jsonb :: "string \<Rightarrow> string option"

definition lookupKey :: "idem_db \<Rightarrow> string \<Rightarrow> env \<Rightarrow> idem_row option" where
  "lookupKey q key e = (if lookup_served q then sql_find ik_key key (ev_idem e) else None)"

text \<open>\<open>ON CONFLICT DO NOTHING\<close>: the table only changes when the insert succeeds.\<close>

definition storeKey :: "idem_db \<Rightarrow> string \<Rightarrow> int \<Rightarrow> string \<Rightarrow> env \<Rightarrow> env" where
  "storeKey q key status body e =
     (case jsonb q body of
        None \<Rightarrow> e
      | Some b \<Rightarrow> if \<not> store_served q then e
          else (case sql_insert ik_key (\<lambda>_. True)
                  \<lparr>ik_key = key, ik_status_code = status, ik_body = b\<rparr> (ev_idem e) of
              Inl _ \<Rightarrow> e
            | Inr t \<Rightarrow> e\<lparr>ev_idem := t\<rparr>))"

definition Idempotency :: "idem_db \<Rightarrow> handler \<Rightarrow> handler" where
  "Idempotency q next r e =
     (if in_Method r \<noteq> ''POST'' then next r e
      else let key = values_Get ''Idempotency-Key'' (in_Header r)
      in if key = '''' then next r e
         else (case lookupKey q key e of
            Some result \<Rightarrow> ([SetHeader ''Content-Type'' ''application/json'',
                SetHeader ''Idempotency-Key-Replay'' ''true'', WriteHeader (ik_status_code result),
                WriteBody (ik_body result)], e)
          | None \<Rightarrow> (case next r e of (ws, e) \<Rightarrow>
              (let st = seen_status ws 200
               in (ws, if 200 \<le> st \<and> st < 300 then storeKey q key st (seen_body ws) e else e)))))"

section \<open>What a wrapped handler may do\<close>

text \<open>
  The contract of middleware: it never writes a state of its own, and it runs the handler at most
  once.  \<open>core\<close> is the part of the state the middleware promises not to touch.
\<close>

locale middleware =
  fixes wrap :: "handler \<Rightarrow> handler" and core :: "env \<Rightarrow> 'c"
  assumes runs_once: "core (snd (wrap next r e)) = core e \<or>
    (\<exists>r' e'. core e' = core e \<and> in_Method r' = in_Method r \<and> in_Path r' = in_Path r \<and> in_Header r' = in_Header r \<and>
       core (snd (wrap next r e)) = core (snd (next r' e')))"
begin

lemma keeps:
  assumes "\<And>r e. P (core e) \<Longrightarrow> P (core (snd (next r e)))" "P (core e)"
  shows "P (core (snd (wrap next r e)))"
  using runs_once [of "next" r e] assms by metis

lemma inert: "(\<And>r e. core (snd (next r e)) = core e) \<Longrightarrow> core (snd (wrap next r e)) = core e"
  by (rule keeps [where P = "\<lambda>c. c = core e"]) simp_all

end

lemma env_Now_frame [simp]:
  "w_db (ev_world (snd (env_Now e))) = w_db (ev_world e)" "ev_log (snd (env_Now e)) = ev_log e"
  "ev_idem (snd (env_Now e)) = ev_idem e"
  by (simp_all add: env_Now_def split: prod.splits) (metis time_Now_frame(1) snd_conv)

lemma uuid_New_frame [simp]:
  "w_db (ev_world (snd (uuid_New e))) = w_db (ev_world e)" "ev_log (snd (uuid_New e)) = ev_log e"
  "ev_idem (snd (uuid_New e)) = ev_idem e"
  by (simp_all add: uuid_New_def split: prod.splits) (metis rand_Read_frame(1) snd_conv)

lemma request_id_of_frame [simp]:
  "w_db (ev_world (snd (request_id_of r e))) = w_db (ev_world e)" "ev_log (snd (request_id_of r e)) = ev_log e"
  "ev_idem (snd (request_id_of r e)) = ev_idem e"
  by (simp_all add: request_id_of_def Let_def)

text \<open>What the middleware never touches by itself: the tables of the program, and the stored keys.\<close>

definition app_tables :: "env \<Rightarrow> db" where
  "app_tables e = w_db (ev_world e)"

definition stored_keys :: "env \<Rightarrow> db \<times> idem_row list" where
  "stored_keys e = (w_db (ev_world e), ev_idem e)"

lemma RequestID_runs:
  "snd (RequestID next r e) =
     snd (next (r\<lparr>in_request_id := Some (fst (request_id_of r e))\<rparr>) (snd (request_id_of r e)))"
  by (simp add: RequestID_def split: prod.splits)

lemma Logger_runs: "stored_keys (snd (Logger next r e)) = stored_keys (snd (next r (snd (env_Now e))))"
proof -
  obtain t e1 where 1: "env_Now e = (t, e1)" by fastforce
  obtain ws e2 where 2: "next r e1 = (ws, e2)" by fastforce
  obtain u e3 where 3: "env_Now e2 = (u, e3)" by fastforce
  from env_Now_frame [of e2] show ?thesis by (simp add: Logger_def stored_keys_def 1 2 3)
qed

interpretation request_id_mw: middleware RequestID stored_keys
proof
  fix "next" r e
  show "stored_keys (snd (RequestID next r e)) = stored_keys e \<or> (\<exists>r' e'. stored_keys e' = stored_keys e \<and>
      in_Method r' = in_Method r \<and> in_Path r' = in_Path r \<and> in_Header r' = in_Header r \<and>
      stored_keys (snd (RequestID next r e)) = stored_keys (snd (next r' e')))"
    unfolding RequestID_runs
    by (intro disjI2 exI [of _ "r\<lparr>in_request_id := Some (fst (request_id_of r e))\<rparr>"]
        exI [of _ "snd (request_id_of r e)"]) (simp add: stored_keys_def)
qed

interpretation logger_mw: middleware Logger stored_keys
proof
  fix "next" r e
  show "stored_keys (snd (Logger next r e)) = stored_keys e \<or> (\<exists>r' e'. stored_keys e' = stored_keys e \<and>
      in_Method r' = in_Method r \<and> in_Path r' = in_Path r \<and> in_Header r' = in_Header r \<and>
      stored_keys (snd (Logger next r e)) = stored_keys (snd (next r' e')))"
    unfolding Logger_runs by (intro disjI2 exI [of _ r] exI [of _ "snd (env_Now e)"]) (simp add: stored_keys_def)
qed

interpretation cors_mw: middleware "CORS cfg" stored_keys for cfg
  by unfold_locales (auto simp: CORS_def Let_def split: prod.splits intro!: exI [of _ r for r])

lemma storeKey_tables [simp]: "app_tables (storeKey q key st b e) = app_tables e"
  by (simp add: storeKey_def app_tables_def split: option.splits sum.splits)

lemma Idempotency_runs:
  "app_tables (snd (Idempotency q next r e)) = app_tables e \<or>
   app_tables (snd (Idempotency q next r e)) = app_tables (snd (next r e))"
  by (auto simp: Idempotency_def Let_def split: prod.splits option.splits)

interpretation idempotency_mw: middleware "Idempotency q" app_tables for q
  by unfold_locales (metis Idempotency_runs)

text \<open>Middleware around middleware.\<close>

lemma middleware_comp:
  assumes "middleware f core" "middleware g core"
  shows "middleware (\<lambda>next. f (g next)) core"
proof
  fix "next" r e
  show "core (snd (f (g next) r e)) = core e \<or> (\<exists>r' e'. core e' = core e \<and> in_Method r' = in_Method r \<and>
      in_Path r' = in_Path r \<and> in_Header r' = in_Header r \<and> core (snd (f (g next) r e)) = core (snd (next r' e')))"
    using middleware.runs_once [OF assms(1), of "g next" r e] middleware.runs_once [OF assms(2), of "next"]
    by metis
qed

section \<open>Replay\<close>

text \<open>
  A stored key answers every later POST that carries it, without running the handler; nothing ever
  changes a stored row; and a row is stored only for a 2xx answer whose body is JSON.
\<close>

lemma Idempotency_replays:
  assumes "lookup_served q" "sql_find ik_key key (ev_idem e) = Some row"
    and "in_Method r = ''POST''" "values_Get ''Idempotency-Key'' (in_Header r) = key" "key \<noteq> ''''"
  shows "Idempotency q next r e = ([SetHeader ''Content-Type'' ''application/json'',
      SetHeader ''Idempotency-Key-Replay'' ''true'', WriteHeader (ik_status_code row), WriteBody (ik_body row)], e)"
  using assms by (simp add: Idempotency_def lookupKey_def Let_def)

lemma storeKey_keeps:
  "sql_find ik_key k (ev_idem e) = Some row \<Longrightarrow> sql_find ik_key k (ev_idem (storeKey q key st b e)) = Some row"
  by (auto simp: storeKey_def sql_insert_Inr sql_find_insert sql_find_None [symmetric] split: option.splits sum.splits)

lemma Idempotency_keeps:
  assumes "\<And>r e. ev_idem (snd (next r e)) = ev_idem e" "sql_find ik_key k (ev_idem e) = Some row"
  shows "sql_find ik_key k (ev_idem (snd (Idempotency q next r e))) = Some row"
  using assms(1) [of r e] assms(2) by (auto simp: Idempotency_def Let_def split: prod.splits option.splits intro!: storeKey_keeps)

lemma Idempotency_stores:
  assumes "in_Method r = ''POST''" "values_Get ''Idempotency-Key'' (in_Header r) = key" "key \<noteq> ''''"
    and "sql_find ik_key key (ev_idem e) = None" "\<And>r e. ev_idem (snd (next r e)) = ev_idem e"
    and "next r e = (ws, e')" "200 \<le> seen_status ws 200" "seen_status ws 200 < 300"
    and "store_served q" "jsonb q (seen_body ws) = Some b"
  shows "Idempotency q next r e = (ws, e'\<lparr>ev_idem := ev_idem e @
      [\<lparr>ik_key = key, ik_status_code = seen_status ws 200, ik_body = b\<rparr>]\<rparr>)"
proof -
  have "ev_idem e' = ev_idem e" using assms(5) [of r e] assms(6) by simp
  moreover from this have "sql_insert ik_key (\<lambda>_. True) \<lparr>ik_key = key, ik_status_code = seen_status ws 200, ik_body = b\<rparr>
      (ev_idem e') = Inr (ev_idem e @ [\<lparr>ik_key = key, ik_status_code = seen_status ws 200, ik_body = b\<rparr>])"
    using assms(4) by (simp add: sql_insert_Inr sql_find_None)
  ultimately show ?thesis
    using assms(1-4,6-) by (simp add: Idempotency_def Let_def lookupKey_def storeKey_def)
qed

text \<open>Requests served one after another.\<close>

fun idem_all :: "idem_db \<Rightarrow> handler \<Rightarrow> http_in list \<Rightarrow> env \<Rightarrow> env" where
  "idem_all q next [] e = e"
| "idem_all q next (r # rs) e = idem_all q next rs (snd (Idempotency q next r e))"

lemma idem_all_keeps:
  assumes "\<And>r e. ev_idem (snd (next r e)) = ev_idem e"
  shows "sql_find ik_key k (ev_idem e) = Some row \<Longrightarrow> sql_find ik_key k (ev_idem (idem_all q next rs e)) = Some row"
  by (induction rs arbitrary: e) (simp_all add: Idempotency_keeps [OF assms])

text \<open>An answer whose body is not JSON, such as an empty 204, is never stored.\<close>

lemma Idempotency_not_json:
  assumes "\<And>r e. ev_idem (snd (next r e)) = ev_idem e" "jsonb q (seen_body (fst (next r e))) = None"
  shows "ev_idem (snd (Idempotency q next r e)) = ev_idem e"
  using assms(1) [of r e] assms(2)
  by (auto simp: Idempotency_def Let_def storeKey_def split: prod.splits option.splits)

section \<open>What a browser may read\<close>

lemma cors_foreign_origin:
  assumes "''*'' \<notin> set (AllowedOrigins cfg)" "origin \<notin> set (AllowedOrigins cfg)"
  shows "cors_headers cfg origin = []"
  using assms by (simp add: cors_headers_def)

lemma CORS_preflight: "in_Method r = ''OPTIONS'' \<Longrightarrow> snd (CORS cfg next r e) = e"
  by (simp add: CORS_def Let_def)

end
