(* ===== verification/Civil_Dates.thy ===== *)
theory Civil_Dates
  imports RealMe_Identity
begin

text \<open>
  The two directions of the civil calendar agree: the date of the instant \<open>time.Date\<close> builds is the
  date it was built from, and \<open>time.Parse\<close> reads back what \<open>Format\<close> wrote in the layout
  \<open>2006-01-02\<close>.
\<close>

section \<open>Years\<close>

text \<open>A year counted in 400-, 100-, 4- and 1-year cycles, and the days before it.\<close>

lemma year_cycles:
  fixes y :: int
  obtains a b c e where "y = 400 * a + 100 * b + 4 * c + e + 1"
    "0 \<le> b" "b \<le> 3" "0 \<le> c" "c \<le> 24" "0 \<le> e" "e \<le> 3"
proof -
  define z where "z = y - 1"
  define r where "r = z mod 400"
  define s where "s = r mod 100"
  have z: "z = 400 * (z div 400) + r" "0 \<le> r" "r < 400" by (simp_all add: r_def)
  have r: "r = 100 * (r div 100) + s" "0 \<le> s" "s < 100" by (simp_all add: s_def)
  have s: "s = 4 * (s div 4) + s mod 4" "0 \<le> s mod 4" "s mod 4 < 4" by simp_all
  have "y = 400 * (z div 400) + 100 * (r div 100) + 4 * (s div 4) + s mod 4 + 1"
    using z(1) r(1) s(1) by (simp add: z_def)
  moreover have "0 \<le> r div 100" "r div 100 < 4" "0 \<le> s div 4" "s div 4 < 25"
    using z r by (simp_all add: pos_imp_zdiv_nonneg_iff div_less_iff_less_mult)
  ultimately show thesis using that [of "z div 400" "r div 100" "s div 4" "s mod 4"] s(2,3) by linarith
qed

lemma cycle_div:
  fixes q r :: int
  assumes "0 \<le> r" "r < n"
  shows "(n * q + r) div n = q" "(n * q + r) mod n = r"
  using assms by simp_all

lemma cycles_days:
  fixes a b c e :: int
  assumes b: "0 \<le> b" "b \<le> 3" and c: "0 \<le> c" "c \<le> 24" and e: "0 \<le> e" "e \<le> 3"
  shows "days_before_year (400 * a + 100 * b + 4 * c + e + 1) = 146097 * a + 36524 * b + 1461 * c + 365 * e"
proof -
  have "400 * a + 100 * b + 4 * c + e = 4 * (100 * a + 25 * b + c) + e" by simp
  moreover have "400 * a + 100 * b + 4 * c + e = 100 * (4 * a + b) + (4 * c + e)" by simp
  moreover have "400 * a + 100 * b + 4 * c + e = 400 * a + (100 * b + 4 * c + e)" by simp
  ultimately have "(400 * a + 100 * b + 4 * c + e) div 4 = 100 * a + 25 * b + c"
    "(400 * a + 100 * b + 4 * c + e) div 100 = 4 * a + b" "(400 * a + 100 * b + 4 * c + e) div 400 = a"
    using b c e cycle_div(1) [of e 4 "100 * a + 25 * b + c"] cycle_div(1) [of "4 * c + e" 100 "4 * a + b"]
      cycle_div(1) [of "100 * b + 4 * c + e" 400 a] by simp_all
  then show ?thesis by (simp add: days_before_year_def)
qed

lemma cycles_leap:
  fixes a b c e :: int
  assumes b: "0 \<le> b" "b \<le> 3" and c: "0 \<le> c" "c \<le> 24" and e: "0 \<le> e" "e \<le> 3"
  shows "is_leap (400 * a + 100 * b + 4 * c + e + 1) \<longleftrightarrow> e = 3 \<and> (c \<noteq> 24 \<or> b = 3)"
proof -
  let ?y = "400 * a + 100 * b + 4 * c + e + 1"
  have "?y mod 4 = (4 * (100 * a + 25 * b + c) + (e + 1)) mod 4" by (simp add: algebra_simps)
  then have "?y mod 4 = 0 \<longleftrightarrow> e = 3" using e by (simp only: mod_mult_self4) presburger
  moreover have "?y mod 100 = (100 * (4 * a + b) + (4 * c + e + 1)) mod 100" by (simp add: algebra_simps)
  moreover have "(4 * c + e + 1) mod 100 = (if c = 24 \<and> e = 3 then 0 else 4 * c + e + 1)"
    using c e by (cases "c = 24 \<and> e = 3") (simp, subst mod_pos_pos_trivial, auto)
  moreover have "?y mod 400 = (400 * a + (100 * b + 4 * c + e + 1)) mod 400" by (simp add: algebra_simps)
  moreover have "(100 * b + 4 * c + e + 1) mod 400 = (if b = 3 \<and> c = 24 \<and> e = 3 then 0 else 100 * b + 4 * c + e + 1)"
    using b c e by (cases "b = 3 \<and> c = 24 \<and> e = 3") (simp, subst mod_pos_pos_trivial, auto)
  ultimately have "?y mod 100 = 0 \<longleftrightarrow> c = 24 \<and> e = 3" "?y mod 400 = 0 \<longleftrightarrow> b = 3 \<and> c = 24 \<and> e = 3" "?y mod 4 = 0 \<longleftrightarrow> e = 3"
    using b c e by (simp_all only: mod_mult_self4) (simp_all split: if_splits)
  then show ?thesis by (auto simp: is_leap_def)
qed

lemma cycles_year_yday:
  fixes a b c e :: int
  assumes b: "0 \<le> b" "b \<le> 3" and c: "0 \<le> c" "c \<le> 24" and e: "0 \<le> e" "e \<le> 3"
    and k: "0 \<le> k" "k \<le> 365" "k = 365 \<Longrightarrow> e = 3 \<and> (c \<noteq> 24 \<or> b = 3)"
  shows "year_yday (146097 * a + 36524 * b + 1461 * c + 365 * e + k) =
    (400 * a + 100 * b + 4 * c + e + 1, nat k)"
proof -
  let ?r1 = "36524 * b + (1461 * c + (365 * e + k))"
  have r1: "0 \<le> ?r1" "?r1 < 146097" using b c e k by (cases "k = 365"; linarith)+
  have r2: "min 3 (?r1 div 36524) = b"
  proof (cases "1461 * c + (365 * e + k) < 36524")
    case True
    then show ?thesis using b c e k cycle_div(1) [of "1461 * c + (365 * e + k)" 36524 b] by simp
  next
    case False
    then have "b = 3 \<and> c = 24 \<and> e = 3 \<and> k = 365" using c e k by (cases "k = 365"; linarith)
    then show ?thesis by simp
  qed
  have r3: "365 * e + k < 1461" "0 \<le> 365 * e + k" using e k by (cases "k = 365"; linarith)+
  have r4: "min 3 ((365 * e + k) div 365) = e"
  proof (cases "k = 365")
    case True
    then show ?thesis using k by simp
  next
    case False
    then show ?thesis using e k cycle_div(1) [of k 365 e] by simp
  qed
  have "146097 * a + 36524 * b + 1461 * c + 365 * e + k = 146097 * a + ?r1" by simp
  then show ?thesis
    using cycle_div [OF r1, of a] cycle_div [OF r3(2,1), of c]
    by (simp only: year_yday_def Let_def r2 r4 add_diff_cancel_left')
qed

lemma year_yday_before_year:
  assumes "0 \<le> k" "k < (if is_leap y then 366 else 365)"
  shows "year_yday (days_before_year y + k) = (y, nat k)"
proof -
  obtain a b c e where y: "y = 400 * a + 100 * b + 4 * c + e + 1"
    "0 \<le> b" "b \<le> 3" "0 \<le> c" "c \<le> 24" "0 \<le> e" "e \<le> 3" by (rule year_cycles)
  show ?thesis
    unfolding y(1) cycles_days [OF y(2-)]
    by (rule cycles_year_yday [OF y(2-)]) (use assms y(1) cycles_leap [OF y(2-)] in \<open>auto split: if_splits\<close>)
qed

section \<open>Dates\<close>

lemma month_day_of_sum:
  "j < length ls \<Longrightarrow> 1 \<le> d \<Longrightarrow> d \<le> ls ! j \<Longrightarrow> month_day ls m (sum_list (take j ls) + d - 1) = (m + j, d)"
proof (induction ls arbitrary: j m)
  case (Cons l ls)
  show ?case
  proof (cases j)
    case 0
    then show ?thesis using Cons.prems by auto
  next
    case (Suc i)
    have "l + sum_list (take i ls) + d - 1 - l = sum_list (take i ls) + d - 1" by simp
    then show ?thesis using Cons.IH [of i "m + 1"] Cons.prems Suc by simp
  qed
qed simp

definition valid_date :: "int \<Rightarrow> nat \<Rightarrow> nat \<Rightarrow> bool" where
  "valid_date y m d \<longleftrightarrow> 1 \<le> m \<and> m \<le> 12 \<and> 1 \<le> d \<and> d \<le> days_in y m"

lemma sum_before_month:
  assumes "valid_date y m d"
  shows "sum_list (take (m - 1) (month_lengths y)) + d \<le> (if is_leap y then 366 else 365)"
proof -
  have "m - 1 < length (month_lengths y)" using assms by (auto simp: valid_date_def month_lengths_def)
  then have "sum_list (take (m - 1) (month_lengths y)) + month_lengths y ! (m - 1) \<le> sum_list (month_lengths y)"
    by (metis add.assoc le_add1 id_take_nth_drop sum_list.Cons sum_list_append)
  then show ?thesis using assms by (auto simp: valid_date_def days_in_def month_lengths_def)
qed

lemma date_of_time_Date:
  assumes "valid_date y m d"
  shows "date_of (time_Date y m d) = (y, m, d)"
proof -
  let ?k = "sum_list (take (m - 1) (month_lengths y)) + d - 1"
  have d: "1 \<le> d" and m: "m - 1 < length (month_lengths y)" "1 + (m - 1) = m" "d \<le> month_lengths y ! (m - 1)"
    using assms by (auto simp: valid_date_def days_in_def month_lengths_def)
  have "wsec (time_Date y m d) div 86400 = days_before_year y + int ?k"
    using d by (simp add: time_Date_def of_nat_diff)
  moreover have "year_yday (days_before_year y + int ?k) = (y, ?k)"
    using year_yday_before_year [of "int ?k" y] sum_before_month [OF assms] d by (auto split: if_splits)
  moreover have "month_day (month_lengths y) 1 ?k = (m, d)"
    using month_day_of_sum [OF m(1) d m(3), of 1] m(2) by simp
  ultimately show ?thesis by (simp add: date_of_def)
qed

lemma days_in_le_31: "1 \<le> m \<Longrightarrow> m \<le> 12 \<Longrightarrow> days_in y m \<le> 31"
proof -
  assume "1 \<le> m" "m \<le> 12"
  then have "month_lengths y ! (m - 1) \<in> set (month_lengths y)" by (intro nth_mem) (simp add: month_lengths_def)
  moreover have "\<forall>l \<in> set (month_lengths y). l \<le> 31" by (simp add: month_lengths_def)
  ultimately show ?thesis by (auto simp: days_in_def)
qed

lemma parse_format_date:
  assumes "valid_date y m d" "0 \<le> y" "y < 10000"
  shows "parse_date (format_date (time_Date y m d)) = Some (time_Date y m d)"
proof -
  have bounds: "m < 100" "d < 100"
    using assms(1) days_in_le_31 [of m y] by (auto simp: valid_date_def)
  let ?y = "pad_dec 4 y" let ?m = "pad_dec 2 (int m)" let ?d = "pad_dec 2 (int d)"
  have layout: "format_date (time_Date y m d) = ?y @ ''-'' @ ?m @ ''-'' @ ?d"
    using assms(2,3) by (simp add: format_date_def date_of_time_Date [OF assms(1)] year_text_def)
  have reads: "number_value ?y = y" "list_all is_digit ?y" "number_value ?m = int m" "list_all is_digit ?m"
    "number_value ?d = int d" "list_all is_digit ?d"
    using pad_dec_reads [of y 4] pad_dec_reads [of "int m" 2] pad_dec_reads [of "int d" 2] assms(2,3) bounds by simp_all
  have parts: "take 4 (?y @ ''-'' @ ?m @ ''-'' @ ?d) = ?y" "take 2 (drop 5 (?y @ ''-'' @ ?m @ ''-'' @ ?d)) = ?m"
    "take 2 (drop 8 (?y @ ''-'' @ ?m @ ''-'' @ ?d)) = ?d" "(?y @ ''-'' @ ?m @ ''-'' @ ?d) ! 4 = CHR ''-''"
    "(?y @ ''-'' @ ?m @ ''-'' @ ?d) ! 7 = CHR ''-''" "length (?y @ ''-'' @ ?m @ ''-'' @ ?d) = 10"
    by (simp_all add: nth_append del: pad_dec.simps)
  show ?thesis
    unfolding layout parse_date_def parts Let_def reads
    using assms(1) reads by (simp add: valid_date_def del: pad_dec.simps)
qed

text \<open>What \<open>time.Parse\<close> yields is the midnight of a valid date with a four-digit year.\<close>

lemma digits_bound: "list_all is_digit s \<Longrightarrow> 0 \<le> number_value s \<and> number_value s < 10 ^ length s"
proof (induction s rule: rev_induct)
  case (snoc c s)
  then have "0 \<le> digit_value c" "digit_value c \<le> 9" by (auto simp: is_digit_def digit_value_def)
  then show ?case using snoc by (auto simp: number_value_snoc)
qed simp

lemma parse_date_valid:
  assumes "parse_date s = Some t"
  obtains y m d where "t = time_Date y m d" "valid_date y m d" "0 \<le> y" "y < 10000"
proof -
  let ?ys = "take 4 s"
  have s: "length s = 10" "list_all is_digit ?ys" using assms by (auto simp: parse_date_def Let_def split: if_splits)
  have "0 \<le> number_value ?ys" "number_value ?ys < 10000" using digits_bound [OF s(2)] s(1) by simp_all
  then show thesis
    using that assms by (auto simp: parse_date_def Let_def valid_date_def split: if_splits)
qed

lemma parse_date_again: "parse_date s = Some t \<Longrightarrow> parse_date (format_date t) = Some t"
  by (elim parse_date_valid) (simp add: parse_format_date)

end
