(* ===== verification/Jwt.thy ===== *)
theory Jwt
  imports Go_Time
begin

text \<open>
  The token library, third-party code, as a parameter over the type of its claims.  A token names the
  method it was signed with; parsing asks the caller for the key of that method, and checks the
  expiry claim against the clock.
\<close>

datatype SigningMethod = SigningMethodHMAC string | OtherMethod string

record 'c jwt =
  SignedString :: "string \<Rightarrow> 'c \<Rightarrow> goerror + string"
  ParseWithClaims :: "(SigningMethod \<Rightarrow> goerror + string) \<Rightarrow> gotime \<Rightarrow> string \<Rightarrow> goerror + 'c"

text \<open>A date in a token is a whole number of seconds.\<close>

definition NewNumericDate :: "gotime \<Rightarrow> gotime" where
  "NewNumericDate t = GoTime (wsec t) 0"

text \<open>
  What the library documents: a token signed with the key of its method, and not expired, parses.  The
  claims are JSON, so this is said of claims \<open>ok\<close> whose strings are UTF-8.
\<close>

definition jwt_parses_signed :: "('c \<Rightarrow> gotime) \<Rightarrow> ('c \<Rightarrow> bool) \<Rightarrow> 'c jwt \<Rightarrow> bool" where
  "jwt_parses_signed expires ok j \<longleftrightarrow> (\<forall>kf key c token now. SignedString j key c = Inr token \<longrightarrow> ok c \<longrightarrow>
     kf (SigningMethodHMAC ''HS256'') = Inr key \<longrightarrow> now < expires c \<longrightarrow> ParseWithClaims j kf now token = Inr c)"

lemma jwt_parsed:
  "jwt_parses_signed expires ok j \<Longrightarrow> SignedString j key c = Inr token \<Longrightarrow> ok c \<Longrightarrow>
     kf (SigningMethodHMAC ''HS256'') = Inr key \<Longrightarrow> now < expires c \<Longrightarrow> ParseWithClaims j kf now token = Inr c"
  by (simp add: jwt_parses_signed_def)

text \<open>\<open>t.Add(d)\<close>, and \<open>time.Duration(n) * time.Second\<close>.\<close>

definition time_Add :: "gotime \<Rightarrow> int \<Rightarrow> gotime" where
  "time_Add t d =
     (let n = wnsec t + go_mod d 1000000000; s = wsec t + go_div d 1000000000
      in if n \<ge> 1000000000 then GoTime (wrap64 (s + 1)) (n - 1000000000)
         else if n < 0 then GoTime (wrap64 (s - 1)) (n + 1000000000) else GoTime (wrap64 s) n)"

definition duration_seconds :: "int \<Rightarrow> int" where
  "duration_seconds n = wrap64 (n * 1000000000)"

lemma time_Add_seconds:
  assumes "valid_time t" "0 \<le> n" "in_int64 (n * 1000000000)"
  shows "time_Add t (duration_seconds n) = GoTime (wrap64 (wsec t + n)) (wnsec t)"
proof -
  have "go_div (n * 1000000000) 1000000000 = n"
    using assms(2) by (cases "n = 0") (simp_all add: go_div_def abs_mult)
  then show ?thesis using assms by (simp add: time_Add_def duration_seconds_def go_mod_def valid_time_def)
qed

end
