(* ===== verification/RealMe_Session.thy ===== *)
theory RealMe_Session
  imports Civil_Dates Will_Store RealMe_Middleware Jwt Go_Json
begin

text \<open>
  \<open>packages/realme-go/config.go\<close> and \<open>session.go\<close>: the configuration of the service provider, and
  sessions kept as signed tokens in a cookie.  The token library, third-party code, is a parameter
  (\<open>session_lib\<close>).
\<close>

section \<open>config.go\<close>

type_synonym Environment = string

definition MTS :: Environment where "MTS = ''mts''"
definition ITE :: Environment where "ITE = ''ite''"
definition Production :: Environment where "Production = ''production''"

definition LoginMetadataURL :: "Environment \<Rightarrow> string" where
  "LoginMetadataURL e =
     (if e = MTS then ''https://mts.realme.govt.nz/saml2/metadata''
      else if e = ITE then ''https://www.ite.logon.realme.govt.nz/saml2/metadata''
      else ''https://www.realme.govt.nz/saml2/metadata'')"

definition AssertionMetadataURL :: "Environment \<Rightarrow> string" where
  "AssertionMetadataURL e =
     (if e = MTS then ''https://mts.realme.govt.nz/saml2/assertion/metadata''
      else if e = ITE then ''https://www.ite.assertion.realme.govt.nz/saml2/metadata''
      else ''https://www.assertion.realme.govt.nz/saml2/metadata'')"

record Config =
  cf_Environment :: Environment
  EntityID :: string
  ACSURL :: string
  SLOURL :: string
  CertFile :: string
  KeyFile :: string
  IdPMetadataFile :: string
  IdPMetadataURL :: string
  ForceAuthn :: bool
  AllowIDPInitiated :: bool
  SessionCookieName :: string
  SessionMaxAge :: int

definition Config_Validate :: "Config \<Rightarrow> goerror option" where
  "Config_Validate c =
     (if EntityID c = '''' then Some (Errorf ''realme: Config.EntityID is required'')
      else if ACSURL c = '''' then Some (Errorf ''realme: Config.ACSURL is required'')
      else if CertFile c = '''' then Some (Errorf ''realme: Config.CertFile is required'')
      else if KeyFile c = '''' then Some (Errorf ''realme: Config.KeyFile is required'')
      else if IdPMetadataFile c = '''' \<and> IdPMetadataURL c = ''''
      then Some (Errorf ''realme: one of Config.IdPMetadataFile or Config.IdPMetadataURL is required'')
      else None)"

definition sessionCookieName :: "Config \<Rightarrow> string" where
  "sessionCookieName c = (if SessionCookieName c \<noteq> '''' then SessionCookieName c else ''realme_session'')"

definition sessionMaxAge :: "Config \<Rightarrow> int" where
  "sessionMaxAge c = (if SessionMaxAge c > 0 then SessionMaxAge c else 8 * 3600)"

section \<open>The token\<close>

text \<open>
  The claims of a session token, and the library over them.
\<close>

record identityClaims_jwt =
  IssuedAt :: gotime
  ExpiresAt :: gotime
  jc_FLT :: string
  jc_AssuranceLevel :: AssuranceLevel
  jc_SessionIndex :: string
  jc_FullName :: string
  jc_DOB :: string
  jc_PlaceOfBirth :: string
  jc_Gender :: string
  AddressJSON :: string

record session_lib =
  sl_jwt :: "identityClaims_jwt jwt"

text \<open>An address as JSON: the struct has no tags, so its keys are the names of the fields.\<close>

definition address_json :: "Address \<Rightarrow> json" where
  "address_json a = JObject [(''Unit'', JString (Unit a)), (''Number'', JString (Number a)), (''Street'', JString (Street a)),
     (''Suburb'', JString (Suburb a)), (''City'', JString (City a)), (''Postcode'', JString (Postcode a)),
     (''Country'', JString (Country a))]"

definition marshal_Address :: "Address \<Rightarrow> string" where
  "marshal_Address a = json_text (address_json a)"

definition address_fields :: "string list" where
  "address_fields = [''Unit'', ''Number'', ''Street'', ''Suburb'', ''City'', ''Postcode'', ''Country'']"

definition into_Address :: "Address into" where
  "into_Address = into_struct (\<lambda>a ms.
     (case into_field address_fields ''Unit'' into_string (Unit a) ms of None \<Rightarrow> None | Some u \<Rightarrow>
     (case into_field address_fields ''Number'' into_string (Number a) ms of None \<Rightarrow> None | Some n \<Rightarrow>
     (case into_field address_fields ''Street'' into_string (Street a) ms of None \<Rightarrow> None | Some s \<Rightarrow>
     (case into_field address_fields ''Suburb'' into_string (Suburb a) ms of None \<Rightarrow> None | Some b \<Rightarrow>
     (case into_field address_fields ''City'' into_string (City a) ms of None \<Rightarrow> None | Some c \<Rightarrow>
     (case into_field address_fields ''Postcode'' into_string (Postcode a) ms of None \<Rightarrow> None | Some p \<Rightarrow>
     (case into_field address_fields ''Country'' into_string (Country a) ms of None \<Rightarrow> None | Some k \<Rightarrow>
        Some \<lparr>Unit = u, Number = n, Street = s, Suburb = b, City = c, Postcode = p, Country = k\<rparr>))))))))"

definition unmarshal_Address :: "string \<Rightarrow> Address option" where
  "unmarshal_Address = json_Unmarshal into_Address
     \<lparr>Unit = '''', Number = '''', Street = '''', Suburb = '''', City = '''', Postcode = '''', Country = ''''\<rparr>"

definition address_utf8 :: "Address \<Rightarrow> bool" where
  "address_utf8 a \<longleftrightarrow> list_all valid_utf8 [Unit a, Number a, Street a, Suburb a, City a, Postcode a, Country a]"

lemma address_round_trip: "address_utf8 a \<Longrightarrow> unmarshal_Address (marshal_Address a) = Some a"
  unfolding unmarshal_Address_def marshal_Address_def
  by (subst Unmarshal_text) (simp_all add: address_json_def address_utf8_def into_Address_def into_struct_def
      address_fields_def into_string_def)

lemma marshal_Address_text: "marshal_Address a \<noteq> ''''" "valid_utf8 (marshal_Address a)"
  by (simp_all add: marshal_Address_def address_json_def valid_utf8_append)

section \<open>session.go\<close>

record Cookie =
  ck_Name :: string
  ck_Value :: string
  ck_Path :: string
  ck_MaxAge :: int
  ck_HttpOnly :: bool
  ck_Secure :: bool
  ck_SameSiteLax :: bool

record cookieSessionStore =
  ss_cfg :: Config
  ss_sigKey :: string

definition newCookieSessionStore :: "Config \<Rightarrow> cookieSessionStore" where
  "newCookieSessionStore cfg = \<lparr>ss_cfg = cfg, ss_sigKey = EntityID cfg\<rparr>"

definition session_key :: "cookieSessionStore \<Rightarrow> SigningMethod \<Rightarrow> goerror + string" where
  "session_key s m = (case m of
       SigningMethodHMAC alg \<Rightarrow> Inr (ss_sigKey s)
     | OtherMethod alg \<Rightarrow> Inl (Errorf (''unexpected signing method: '' @ alg)))"

definition identity_of_claims :: "identityClaims_jwt \<Rightarrow> Identity" where
  "identity_of_claims c =
     \<lparr>Id_FLT = jc_FLT c, Id_AssuranceLevel = jc_AssuranceLevel c, AuthnInstant = zero_time,
      SessionIndex = jc_SessionIndex c, Id_FullName = jc_FullName c,
      DateOfBirth = (if jc_DOB c \<noteq> '''' then (case parse_date (jc_DOB c) of Some t \<Rightarrow> t | None \<Rightarrow> zero_time)
        else zero_time),
      PlaceOfBirth = jc_PlaceOfBirth c, Gender = jc_Gender c,
      Id_Address = (if AddressJSON c \<noteq> '''' then unmarshal_Address (AddressJSON c) else None)\<rparr>"

text \<open>\<open>GetSession\<close> yields the identity, or \<open>samlsp.ErrNoSession\<close> (\<open>None\<close>).  The cookies of a request are
  pairs of name and value.\<close>

definition GetSession :: "session_lib \<Rightarrow> cookieSessionStore \<Rightarrow> gotime \<Rightarrow> (string \<times> string) list \<Rightarrow> Identity option" where
  "GetSession j s now cookies =
     (case map_of cookies (sessionCookieName (ss_cfg s)) of
        None \<Rightarrow> None
      | Some token \<Rightarrow> (case ParseWithClaims (sl_jwt j) (session_key s) now token of
            Inl _ \<Rightarrow> None
          | Inr claims \<Rightarrow> Some (identity_of_claims claims)))"

definition claims_of_identity :: "gotime \<Rightarrow> gotime \<Rightarrow> Identity \<Rightarrow> identityClaims_jwt" where
  "claims_of_identity issued expires i =
     \<lparr>IssuedAt = NewNumericDate issued, ExpiresAt = NewNumericDate expires, jc_FLT = Id_FLT i,
      jc_AssuranceLevel = Id_AssuranceLevel i, jc_SessionIndex = SessionIndex i,
      jc_FullName = Id_FullName i,
      jc_DOB = (if DateOfBirth i \<noteq> zero_time then format_date (DateOfBirth i) else ''''),
      jc_PlaceOfBirth = PlaceOfBirth i, jc_Gender = Gender i,
      AddressJSON = (case Id_Address i of None \<Rightarrow> '''' | Some a \<Rightarrow> marshal_Address a)\<rparr>"

definition CreateSession ::
  "session_lib \<Rightarrow> cookieSessionStore \<Rightarrow> bool \<Rightarrow> Assertion option \<Rightarrow> world \<Rightarrow> (goerror + Cookie) \<times> world" where
  "CreateSession j s tls assertion w =
     (case extractIdentity assertion of
        Inl e \<Rightarrow> (Inl (Wrap ''realme: extract identity from assertion: '' e), w)
      | Inr i \<Rightarrow>
          (case time_Now w of (issued, w) \<Rightarrow>
          (case time_Now w of (now, w) \<Rightarrow>
             let expires = time_Add now (duration_seconds (sessionMaxAge (ss_cfg s))) in
             (case SignedString (sl_jwt j) (ss_sigKey s) (claims_of_identity issued expires i) of
                Inl e \<Rightarrow> (Inl (Wrap ''realme: sign session JWT: '' e), w)
              | Inr tok \<Rightarrow> (Inr \<lparr>ck_Name = sessionCookieName (ss_cfg s), ck_Value = tok,
                   ck_Path = ''/'', ck_MaxAge = sessionMaxAge (ss_cfg s), ck_HttpOnly = True, ck_Secure = tls,
                   ck_SameSiteLax = True\<rparr>, w)))))"

definition DeleteSession :: "cookieSessionStore \<Rightarrow> bool \<Rightarrow> Cookie" where
  "DeleteSession s tls = \<lparr>ck_Name = sessionCookieName (ss_cfg s), ck_Value = '''', ck_Path = ''/'',
     ck_MaxAge = -1, ck_HttpOnly = True, ck_Secure = tls, ck_SameSiteLax = True\<rparr>"

definition GetAttributes :: "Identity \<Rightarrow> (string \<times> string list) list" where
  "GetAttributes i = [(''flt'', [Id_FLT i]), (''assuranceLevel'', [AssuranceLevel_String (Id_AssuranceLevel i)])]"

section \<open>A session gives back the identity\<close>

text \<open>
  What an assertion can put into an identity survives the cookie: all but the instant of
  authentication, which no claim holds.
\<close>

definition dob_readable :: "Identity \<Rightarrow> bool" where
  "dob_readable i \<longleftrightarrow> DateOfBirth i = zero_time \<or> parse_date (format_date (DateOfBirth i)) = Some (DateOfBirth i)"

lemma extract_dob_readable: "extractIdentity a = Inr i \<Longrightarrow> dob_readable i"
  by (auto simp: extractIdentity_def dob_readable_def Let_def parse_date_again
      split: option.splits prod.splits if_splits)

lemma format_date_nonempty [simp]: "format_date t \<noteq> ''''"
  by (simp add: format_date_def split: prod.splits)

text \<open>Strings taken from XML are UTF-8.\<close>

definition identity_utf8 :: "Identity \<Rightarrow> bool" where
  "identity_utf8 i \<longleftrightarrow>
     list_all valid_utf8 [Id_FLT i, SessionIndex i, Id_FullName i, PlaceOfBirth i, Gender i] \<and>
     (case Id_Address i of None \<Rightarrow> True | Some a \<Rightarrow> address_utf8 a)"

definition claims_utf8 :: "identityClaims_jwt \<Rightarrow> bool" where
  "claims_utf8 c \<longleftrightarrow> list_all valid_utf8 [jc_FLT c, jc_SessionIndex c, jc_FullName c, jc_DOB c, jc_PlaceOfBirth c, jc_Gender c, AddressJSON c]"

lemma format_date_utf8: "valid_utf8 (format_date t)"
proof -
  have "valid_utf8 (year_text y)" for y
    using dec_pos_reads [of "\<bar>y\<bar>"] pad_dec_digits by (auto simp: year_text_def Let_def digits_utf8)
  then show ?thesis
    by (simp add: format_date_def valid_utf8_append digits_utf8 pad_dec_digits split: prod.split del: pad_dec.simps)
qed

lemma claims_of_identity_utf8: "identity_utf8 i \<Longrightarrow> claims_utf8 (claims_of_identity t u i)"
  by (auto simp: identity_utf8_def claims_utf8_def claims_of_identity_def format_date_utf8 marshal_Address_text
      split: option.split)

text \<open>Claims and identities, as a codec on the identities whose date of birth can be written.\<close>

lemma identity_of_claims_of_identity:
  assumes "identity_utf8 i" "dob_readable i"
  shows "identity_of_claims (claims_of_identity t u i) = i\<lparr>AuthnInstant := zero_time\<rparr>"
  using assms by (auto simp: identity_of_claims_def claims_of_identity_def dob_readable_def identity_utf8_def
      address_round_trip marshal_Address_text split: option.splits)

lemma GetSession_signed:
  assumes "jwt_parses_signed ExpiresAt claims_utf8 (sl_jwt j)" "SignedString (sl_jwt j) (ss_sigKey s) c = Inr token"
    and "claims_utf8 c" "now < ExpiresAt c" and "map_of cookies (sessionCookieName (ss_cfg s)) = Some token"
  shows "GetSession j s now cookies = Some (identity_of_claims c)"
proof -
  have "ParseWithClaims (sl_jwt j) (session_key s) now token = Inr c"
    by (rule jwt_parsed [OF assms(1-3) _ assms(4)]) (simp add: session_key_def)
  then show ?thesis using assms(5) by (simp add: GetSession_def)
qed

lemma CreateSession_then_GetSession:
  assumes "jwt_parses_signed ExpiresAt claims_utf8 (sl_jwt j)"
    and "CreateSession j s tls a w = (Inr ck, w')" and i: "extractIdentity a = Inr i" "identity_utf8 i"
    and "now < NewNumericDate (time_Add (w_clock w 1) (duration_seconds (sessionMaxAge (ss_cfg s))))"
  shows "GetSession j s now [(ck_Name ck, ck_Value ck)] = Some (i\<lparr>AuthnInstant := zero_time\<rparr>)"
proof -
  let ?c = "claims_of_identity (w_clock w 0) (time_Add (w_clock w 1) (duration_seconds (sessionMaxAge (ss_cfg s)))) i"
  have sgd: "SignedString (sl_jwt j) (ss_sigKey s) ?c = Inr (ck_Value ck)" "ck_Name ck = sessionCookieName (ss_cfg s)"
    using assms(2) i by (auto simp: CreateSession_def time_Now_def Let_def split: sum.splits)
  have "now < ExpiresAt ?c" using assms(5) by (simp add: claims_of_identity_def)
  then have "GetSession j s now [(ck_Name ck, ck_Value ck)] = Some (identity_of_claims ?c)"
    by (intro GetSession_signed [OF assms(1) sgd(1) claims_of_identity_utf8 [OF i(2)]]) (simp_all add: sgd(2))
  then show ?thesis
    by (simp add: identity_of_claims_of_identity [OF i(2) extract_dob_readable [OF i(1)]])
qed

text \<open>
  The key is the entity identifier, which the service provider publishes in its metadata: a token
  anybody signs with it opens a session of any identity and level.
\<close>

lemma forged_session:
  assumes "jwt_parses_signed ExpiresAt claims_utf8 (sl_jwt j)" "SignedString (sl_jwt j) (EntityID cfg) c = Inr token"
    and "claims_utf8 c" "now < ExpiresAt c"
  shows "GetSession j (newCookieSessionStore cfg) now [(sessionCookieName cfg, token)] = Some (identity_of_claims c)"
  using assms by (intro GetSession_signed) (simp_all add: newCookieSessionStore_def)

text \<open>A token whose method is not an HMAC is never given a key.\<close>

lemma session_key_HMAC_only: "session_key s m = Inr k \<Longrightarrow> \<exists>alg. m = SigningMethodHMAC alg \<and> k = ss_sigKey s"
  by (auto simp: session_key_def split: SigningMethod.splits)

end
