(* ===== verification/Go_Float.thy ===== *)
theory Go_Float
  imports Go_Prelude "HOL-Library.Log_Nat"
begin

text \<open>
  Arithmetic on \<open>float64\<close>: a finite value is the rational it stands for, and an operation is the exact
  one followed by rounding to nearest, ties to even.  Values below \<open>2 ^ 1024\<close> in magnitude are meant
  (no overflow); minus zero is not told from zero.
\<close>

section \<open>Rounding to integers\<close>

definition round_half_even :: "rat \<Rightarrow> int" where
  "round_half_even x =
     (let f = \<lfloor>x\<rfloor>; d = x - of_int f
      in if d < 1 / 2 then f else if 1 / 2 < d then f + 1 else if even f then f else f + 1)"

text \<open>\<open>math.Round\<close>: half away from zero.\<close>

definition math_Round :: "rat \<Rightarrow> int" where
  "math_Round x = (if x < 0 then - \<lfloor>1 / 2 - x\<rfloor> else \<lfloor>x + 1 / 2\<rfloor>)"

lemma round_half_even_near: "\<bar>of_int (round_half_even x) - x\<bar> \<le> 1 / 2"
proof -
  have "of_int \<lfloor>x\<rfloor> \<le> x" "x < of_int \<lfloor>x\<rfloor> + 1" by linarith+
  then show ?thesis by (auto simp: round_half_even_def Let_def abs_le_iff)
qed

lemma round_half_even_int [simp]: "round_half_even (of_int n) = n"
  by (simp add: round_half_even_def)

text \<open>An error smaller than the distance to every half does not change what \<open>math.Round\<close> gives.\<close>

lemma math_Round_unique:
  assumes "\<bar>x - of_int k\<bar> < 1 / 2"
  shows "math_Round x = k"
proof -
  have near: "x - of_int k < 1 / 2" "of_int k - x < 1 / 2" using assms by linarith+
  have "\<lfloor>1 / 2 - x\<rfloor> = - k" by (rule floor_unique) (use near in simp_all)
  moreover have "\<lfloor>x + 1 / 2\<rfloor> = k" by (rule floor_unique) (use near in simp_all)
  ultimately show ?thesis by (simp add: math_Round_def)
qed

section \<open>Rounding to \<open>float64\<close>\<close>

text \<open>
  Every finite value is a multiple of \<open>2 ^ -1074\<close>.  The spacing at \<open>x\<close> keeps 53 bits of the magnitude,
  and never goes below that smallest unit.
\<close>

definition float_scale :: nat where
  "float_scale = 1074"

definition float_ulp :: "rat \<Rightarrow> rat" where
  "float_ulp x = 2 ^ nat (bitlen \<lfloor>\<bar>x\<bar> * 2 ^ float_scale\<rfloor> - 53) / 2 ^ float_scale"

definition to_float64 :: "rat \<Rightarrow> rat" where
  "to_float64 x = of_int (round_half_even (x / float_ulp x)) * float_ulp x"

lemma float_scale_ge: "53 \<le> float_scale"
  by (simp add: float_scale_def)

lemma float_ulp_pos [simp]: "0 < float_ulp x"
  by (simp add: float_ulp_def)

lemma to_float64_error: "\<bar>to_float64 x - x\<bar> \<le> float_ulp x / 2"
proof -
  have "\<bar>of_int (round_half_even (x / float_ulp x)) - x / float_ulp x\<bar> * float_ulp x \<le> 1 / 2 * float_ulp x"
    by (rule mult_right_mono [OF round_half_even_near]) (simp add: less_imp_le)
  moreover have "\<bar>of_int (round_half_even (x / float_ulp x)) - x / float_ulp x\<bar> * float_ulp x = \<bar>to_float64 x - x\<bar>"
  proof -
    have "\<bar>of_int (round_half_even (x / float_ulp x)) - x / float_ulp x\<bar> * float_ulp x =
        \<bar>(of_int (round_half_even (x / float_ulp x)) - x / float_ulp x) * float_ulp x\<bar>"
      by (simp add: abs_mult abs_of_pos)
    also have "(of_int (round_half_even (x / float_ulp x)) - x / float_ulp x) * float_ulp x = to_float64 x - x"
      using float_ulp_pos [of x] by (simp add: to_float64_def left_diff_distrib less_imp_neq [THEN not_sym])
    finally show ?thesis .
  qed
  ultimately show ?thesis by simp
qed

lemma float_ulp_bound:
  assumes "\<bar>x\<bar> < 2 ^ k"
  shows "float_ulp x \<le> 2 ^ k / 2 ^ 53"
proof -
  have "\<bar>x\<bar> * 2 ^ float_scale < 2 ^ (k + float_scale)"
    using assms by (simp add: power_add)
  then have "\<lfloor>\<bar>x\<bar> * 2 ^ float_scale\<rfloor> < 2 ^ (k + float_scale)"
    by (simp add: floor_less_iff)
  then have "bitlen \<lfloor>\<bar>x\<bar> * 2 ^ float_scale\<rfloor> \<le> int (k + float_scale)"
    by (simp add: bitlen_le_iff_power nat_add_distrib del: of_nat_add)
  then have "nat (bitlen \<lfloor>\<bar>x\<bar> * 2 ^ float_scale\<rfloor> - 53) \<le> k + float_scale - 53" by linarith
  then have "float_ulp x \<le> 2 ^ (k + float_scale - 53) / 2 ^ float_scale"
    by (simp add: float_ulp_def divide_right_mono power_increasing)
  also have "2 ^ (k + float_scale - 53) / 2 ^ float_scale = (2 :: rat) ^ k / 2 ^ 53"
    by (simp add: power_diff power_add float_scale_def)
  finally show ?thesis .
qed

text \<open>An integer of at most 53 bits is a \<open>float64\<close>.\<close>

lemma to_float64_int:
  assumes "\<bar>m\<bar> \<le> 2 ^ 53"
  shows "to_float64 (of_int m) = of_int m"
proof (cases "m = 0")
  case True
  then show ?thesis by (simp add: to_float64_def round_half_even_def)
next
  case False
  let ?b = "nat (bitlen \<bar>m\<bar>)"
  have scale: "\<lfloor>\<bar>of_int m :: rat\<bar> * 2 ^ float_scale\<rfloor> = \<bar>m\<bar> * 2 ^ float_scale"
  proof -
    have "\<bar>of_int m :: rat\<bar> * 2 ^ float_scale = of_int (\<bar>m\<bar> * 2 ^ float_scale)" by simp
    then show ?thesis by (simp only: floor_of_int)
  qed
  have "bitlen (\<bar>m\<bar> * 2 ^ float_scale) = bitlen \<bar>m\<bar> + int float_scale"
    using False by simp
  moreover have "nat (bitlen \<bar>m\<bar> + int float_scale - 53) = ?b + float_scale - 53"
    using bitlen_nonneg [of "\<bar>m\<bar>"] float_scale_ge by linarith
  ultimately have ulp: "float_ulp (of_int m) = 2 ^ (?b + float_scale - 53) / 2 ^ float_scale"
    by (simp only: float_ulp_def scale)
  obtain n where n: "of_int m / float_ulp (of_int m) = of_int n"
  proof (cases "?b \<le> 53")
    case True
    have "(2 :: rat) ^ float_scale = 2 ^ (?b + float_scale - 53) * 2 ^ (53 - ?b)"
      unfolding power_add [symmetric] using True by (simp add: float_scale_def)
    then have "of_int m / float_ulp (of_int m) = of_int (m * 2 ^ (53 - ?b))"
      by (simp add: ulp)
    then show ?thesis by (rule that)
  next
    case False
    have "\<not> \<bar>m\<bar> < 2 ^ 53" using False by (metis bitlen_le_iff_power int_nat_eq linorder_not_le nat_int nat_le_iff of_nat_numeral zero_le_numeral)
    then have "\<bar>m\<bar> = 2 ^ 53" using assms by simp
    then have "bitlen \<bar>m\<bar> = 54" using bitlen_pow2 [of 1 53] by (simp add: bitlen_def floorlog_def)
    then have "float_ulp (of_int m) = 2" by (simp add: ulp float_scale_def)
    moreover have "even m" using \<open>\<bar>m\<bar> = 2 ^ 53\<close> by (metis dvd_abs_iff dvd_power even_numeral zero_less_numeral)
    ultimately show ?thesis by (auto elim!: evenE intro: that)
  qed
  then show ?thesis by (simp add: to_float64_def) (metis n float_ulp_pos less_irrefl nonzero_eq_divide_eq)
qed

lemma to_float64_near: "\<bar>x\<bar> < 2 ^ k \<Longrightarrow> \<bar>to_float64 x - x\<bar> \<le> 2 ^ k / 2 ^ 54"
  using to_float64_error [of x] float_ulp_bound [of x k] by simp

section \<open>The verb \<open>%f\<close>\<close>

text \<open>Six digits after the point, the exact value rounded to nearest, a tie to the even digit.\<close>

definition fmt_f :: "rat \<Rightarrow> string" where
  "fmt_f x =
     (let n = round_half_even (\<bar>x\<bar> * 1000000)
      in (if x < 0 then ''-'' else '''') @ dec_pos (n div 1000000) @ ''.'' @ pad_dec 6 (n mod 1000000))"

end
