(* ===== verification/Json_Numbers.thy ===== *)
theory Json_Numbers
  imports Go_Json Go_Float "HOL-Library.Monad_Syntax"
begin

text \<open>
  Numbers that are decoded into a \<open>float64\<close>, as \<open>strconv.ParseFloat\<close> reads them, and slices that are
  decoded into a fresh variable.
\<close>

section \<open>The value of a number literal\<close>

text \<open>\<open>ParseFloat\<close> stops adding digits to an exponent that has reached 10000.\<close>

definition exp_value :: "string \<Rightarrow> int" where
  "exp_value ds = foldl (\<lambda>e c. if e < 10000 then e * 10 + digit_value c else e) 0 ds"

definition exp_part :: "string \<Rightarrow> int" where
  "exp_part x = (case drop 1 x of
       [] \<Rightarrow> 0
     | c # ds \<Rightarrow> if c = CHR ''-'' then - exp_value ds else if c = CHR ''+'' then exp_value ds else exp_value (c # ds))"

definition scaled :: "int \<Rightarrow> int \<Rightarrow> rat" where
  "scaled m e = (if 0 \<le> e then of_int m * 10 ^ nat e else of_int m / 10 ^ nat (- e))"

definition literal_value :: "string \<Rightarrow> rat option" where
  "literal_value t = do {
     let (g, s) = number_sign t;
     (i, s) \<leftarrow> number_int s;
     (f, s) \<leftarrow> number_frac s;
     (x, s) \<leftarrow> number_exp s;
     let v = scaled (number_value (i @ drop 1 f)) (exp_part x - int (length (drop 1 f)));
     Some (if g = [] then v else - v)
   }"

text \<open>The nearest \<open>float64\<close>; a value that rounds to infinity is an error.\<close>

definition into_float :: "rat into" where
  "into_float old j = (case j of
       JNull \<Rightarrow> Some old
     | JNumber t \<Rightarrow> do {
         v \<leftarrow> literal_value t;
         if \<bar>to_float64 v\<bar> < 2 ^ 1024 then Some (to_float64 v) else None
       }
     | _ \<Rightarrow> None)"

lemma literal_value_int [simp]: "literal_value (dec_int n) = Some (of_int n)"
proof -
  obtain g m where p: "number_sign (dec_int n) = (g, dec_pos m)" "0 \<le> m" "n = (if g = [] then m else - m)"
    using dec_int_parts [of n] by blast
  then show ?thesis using dec_pos_reads [of m]
    by (simp add: literal_value_def number_int_dec_pos number_frac_def number_exp_def exp_part_def scaled_def)
qed

text \<open>An integer of at most 53 bits is read exactly.\<close>

lemma into_float_int:
  assumes "\<bar>n\<bar> \<le> 2 ^ 53"
  shows "into_float z (JNumber (dec_int n)) = Some (of_int n)"
proof -
  have "\<bar>of_int n :: rat\<bar> \<le> 2 ^ 53"
    using assms by (metis of_int_abs of_int_le_iff of_int_numeral of_int_power)
  also have "\<dots> < (2 :: rat) ^ 1024" by (rule power_strict_increasing) simp_all
  finally show ?thesis by (simp add: into_float_def to_float64_int [OF assms])
qed

section \<open>Slices\<close>

text \<open>
  An array that is decoded into a nil slice, when each element decodes to \<open>st\<close> of what it stands for.
\<close>

lemma into_elems_fresh:
  "(\<And>x. x \<in> set xs \<Longrightarrow> f z (enc x) = Some (st x)) \<Longrightarrow> into_elems z f [] (map enc xs) = Some (map st xs)"
  by (induction xs) auto

lemma into_slice_fresh:
  assumes "\<And>x. x \<in> set xs \<Longrightarrow> f z (enc x) = Some (st x)"
  shows "into_slice z f ([], 0) (JArray (map enc xs)) = Some (map st xs, length xs)"
  using into_elems_fresh [where f = f and z = z and enc = enc and st = st, OF assms] by (simp add: into_slice_def)

lemma into_strings: "into_slice '''' into_string ([], 0) (JArray (map JString ss)) = Some (ss, length ss)"
  using into_slice_fresh [of ss into_string "''''" JString "\<lambda>s. s"] by (simp add: into_string_def)

lemma slice_elems_all [simp]: "n = length xs \<Longrightarrow> slice_elems (xs, n) = xs"
  by (simp add: slice_elems_def)

lemma json_depth_array: "(\<And>x. x \<in> set xs \<Longrightarrow> json_depth (enc x) \<le> n) \<Longrightarrow> json_depth (JArray (map enc xs)) \<le> Suc n"
  by (induction xs) auto

end
