(* ===== verification/Http_Client.thy ===== *)
theory Http_Client
  imports Go_Url Json_Numbers
begin

text \<open>
  What the API clients of \<open>packages/nz-common\<close> share: building a request, sending it, and reading the
  answer.  The network is a parameter, a \<open>transport\<close>: what \<open>http.Client.Do\<close> returns for a request,
  an error or a status with a body.  The body is decoded as \<open>encoding/json\<close> decodes it into the struct
  the client passes; only the text of a decoding error is a parameter.  A client's base URL is a scheme and
  a host, as in every constant of the packages and in the test servers of \<open>WithBaseURL\<close>.
\<close>

section \<open>Requests\<close>

record http_request =
  hr_method :: string
  hr_url :: string
  hr_headers :: "(string \<times> string) list"

type_synonym transport = "http_request \<Rightarrow> goerror + int \<times> string"

text \<open>What \<open>Decode\<close> does with a body, for the struct a client passes; \<open>jerr\<close> is the error for a body.\<close>

type_synonym 'a decoder = "string \<Rightarrow> goerror + 'a"

definition decoded :: "(string \<Rightarrow> goerror) \<Rightarrow> (string \<Rightarrow> 'a option) \<Rightarrow> 'a decoder" where
  "decoded jerr decode body = (case decode body of None \<Rightarrow> Inl (jerr body) | Some x \<Rightarrow> Inr x)"

text \<open>\<open>http.NewRequestWithContext\<close> with no body.  The text of a parse error is not spelled out.\<close>

definition http_NewRequest :: "string \<Rightarrow> string \<Rightarrow> goerror + http_request" where
  "http_NewRequest meth url =
     (if url_accepted url then Inr \<lparr>hr_method = meth, hr_url = url, hr_headers = []\<rparr>
      else Inl (Errorf ''parse: invalid URL''))"

definition Header_Set :: "string \<Rightarrow> string \<Rightarrow> http_request \<Rightarrow> http_request" where
  "Header_Set k v r = r\<lparr>hr_headers := values_Set k v (hr_headers r)\<rparr>"

definition Header_Get :: "string \<Rightarrow> http_request \<Rightarrow> string" where
  "Header_Get k r = values_Get k (hr_headers r)"

lemma Header_Set_simps [simp]:
  "hr_method (Header_Set k v r) = hr_method r" "hr_url (Header_Set k v r) = hr_url r"
  "Header_Get k (Header_Set k' v r) = (if k = k' then v else Header_Get k r)"
  by (simp_all add: Header_Set_def Header_Get_def values_Get_Set)

section \<open>The verb \<open>%q\<close>\<close>

text \<open>Quotes and control bytes are escaped, printable text is copied.\<close>

definition quote_char :: "char \<Rightarrow> string" where
  "quote_char c =
     (let n = (of_char c :: nat) in
      if c = CHR 0x22 then [CHR 0x5C, CHR 0x22] else if c = CHR 0x5C then [CHR 0x5C, CHR 0x5C]
      else if n = 7 then [CHR 0x5C, CHR ''a''] else if n = 8 then [CHR 0x5C, CHR ''b'']
      else if n = 9 then [CHR 0x5C, CHR ''t''] else if n = 10 then [CHR 0x5C, CHR ''n'']
      else if n = 11 then [CHR 0x5C, CHR ''v''] else if n = 12 then [CHR 0x5C, CHR ''f'']
      else if n = 13 then [CHR 0x5C, CHR ''r'']
      else if n < 32 \<or> n = 127 then [CHR 0x5C, CHR ''x'', hex_digit (n div 16), hex_digit (n mod 16)]
      else [c])"

definition fmt_q :: "string \<Rightarrow> string" where
  "fmt_q s = [CHR 0x22] @ concat (map quote_char s) @ [CHR 0x22]"

section \<open>What a server reads from a URL\<close>

text \<open>
  The part after \<open>#\<close> is not sent; the part after the first \<open>?\<close> is the query, the part before it the
  path.
\<close>

definition request_path :: "string \<Rightarrow> string" where
  "request_path url = fst (cut_at (CHR ''?'') (fst (cut_at (CHR ''#'') url)))"

definition request_query :: "string \<Rightarrow> url_values" where
  "request_query url = url_ParseQuery (snd (cut_at (CHR ''?'') (fst (cut_at (CHR ''#'') url))))"

text \<open>A text without the bytes that end a path.\<close>

definition path_text :: "string \<Rightarrow> bool" where
  "path_text s \<longleftrightarrow> list_all (\<lambda>c. c \<noteq> CHR ''?'' \<and> c \<noteq> CHR ''#'' \<and> c \<noteq> CHR ''%'' \<and> \<not> is_control c) s"

lemma path_text_append [simp]: "path_text (a @ b) \<longleftrightarrow> path_text a \<and> path_text b"
  by (simp add: path_text_def)

lemma path_text_Cons [simp]: "path_text (c # s) \<longleftrightarrow>
    c \<noteq> CHR ''?'' \<and> c \<noteq> CHR ''#'' \<and> c \<noteq> CHR ''%'' \<and> \<not> is_control c \<and> path_text s"
  by (simp add: path_text_def)

lemma path_text_Nil [simp]: "path_text []"
  by (simp add: path_text_def)

lemma path_text_plain:
  assumes "path_text s"
  shows "CHR ''?'' \<notin> set s" "CHR ''#'' \<notin> set s" "list_all (\<lambda>c. \<not> is_control c) s"
  using assms by (auto simp: path_text_def list_all_iff)

lemma path_text_unescape: "path_text s \<Longrightarrow> url_unescape False s = Some s"
  by (induction s) simp_all

lemma encode_plain_set:
  "c \<in> set (values_Encode ps) \<Longrightarrow> c \<noteq> CHR ''#'' \<and> c \<noteq> CHR ''?'' \<and> \<not> is_control c"
proof -
  assume "c \<in> set (values_Encode ps)"
  moreover have "set (strings_Join xs ''&'') \<subseteq> {CHR ''&''} \<union> \<Union> (set ` set xs)" for xs
    by (induction xs rule: induct_list012) auto
  ultimately have "c = CHR ''&'' \<or> (\<exists>p. c \<in> set (encode_pair p))"
    by (fastforce simp: values_Encode_def)
  then have "c = CHR ''&'' \<or> c = CHR ''='' \<or> (\<exists>s. c \<in> set (url_QueryEscape s))"
    by (auto simp: encode_pair_def)
  moreover have "\<not> is_control x \<and> x \<noteq> CHR ''#'' \<and> x \<noteq> CHR ''?''" if "x \<in> set (url_QueryEscape s)" for x s
    using subsetD [OF QueryEscape_set that] by (auto simp: is_control_def unreserved_def Let_def)
  ultimately show ?thesis by (auto simp: is_control_def)
qed

lemma cut_at_query:
  assumes "path_text p" "CHR ''#'' \<notin> set q"
  shows "cut_at (CHR ''#'') (p @ CHR ''?'' # q) = (p @ CHR ''?'' # q, [])"
  by (rule cut_at_none) (use assms path_text_plain in auto)

lemma request_of_query:
  assumes "path_text p" "CHR ''#'' \<notin> set q"
  shows "request_path (p @ CHR ''?'' # q) = p" "request_query (p @ CHR ''?'' # q) = url_ParseQuery q"
  using assms path_text_plain(1) [of p]
  by (simp_all add: request_path_def request_query_def cut_at_query cut_at_sep)

lemma url_accepted_query:
  assumes "path_text p" "CHR ''#'' \<notin> set q" "list_all (\<lambda>c. \<not> is_control c) q"
  shows "url_accepted (p @ CHR ''?'' # q)"
  using assms path_text_plain(1) [of p] path_text_plain(3) [of p]
  by (simp add: url_accepted_def cut_at_query cut_at_sep path_text_unescape is_control_def)

lemma url_accepted_path: "path_text p \<Longrightarrow> url_accepted p"
  using path_text_plain [of p]
  by (simp add: url_accepted_def cut_at_none path_text_unescape)

text \<open>
  A text that can stand unescaped in a query: none of its bytes means anything there.
\<close>

definition query_text :: "string \<Rightarrow> bool" where
  "query_text s \<longleftrightarrow> list_all (\<lambda>c. c \<notin> set ''&=;+%#'' \<and> \<not> is_control c) s"

lemma query_text_unescape: "query_text s \<Longrightarrow> url_QueryUnescape s = Some s"
  unfolding url_QueryUnescape_def query_text_def by (induction s) auto

lemma query_text_simps [simp]:
  "query_text []" "query_text (c # s) \<longleftrightarrow> c \<notin> set ''&=;+%#'' \<and> \<not> is_control c \<and> query_text s"
  "query_text (a @ b) \<longleftrightarrow> query_text a \<and> query_text b"
  by (simp_all add: query_text_def)

lemma is_control_plain [simp]: "32 \<le> (of_char c :: nat) \<Longrightarrow> (of_char c :: nat) < 127 \<Longrightarrow> \<not> is_control c"
  by (simp add: is_control_def)

lemma ParseQuery_encoded: "url_ParseQuery (encode_pair p @ CHR ''&'' # rest) = p # url_ParseQuery rest"
proof -
  have "CHR ''&'' \<notin> set (encode_pair p)" using encode_pair_plain by blast
  from cut_at_sep [OF this, of rest] parse_encode_pair [of p] show ?thesis
    by (simp add: url_ParseQuery.simps [of "encode_pair p @ _"])
qed

lemma query_text_unreserved: "unreserved c \<Longrightarrow> query_text [c]"
  by (auto dest: unreserved_plain) (auto simp: unreserved_def is_control_def Let_def)

lemma query_text_plain:
  assumes "query_text s"
  shows "CHR ''#'' \<notin> set s" "list_all (\<lambda>c. \<not> is_control c) s"
  using assms by (auto simp: query_text_def list_all_iff)

lemma parse_pair_raw:
  assumes "query_text k" "query_text v"
  shows "parse_pair (k @ CHR ''='' # v) = Some (k, v)"
proof -
  have "CHR ''='' \<notin> set k" "CHR '';'' \<notin> set (k @ CHR ''='' # v)"
    using assms by (auto simp: query_text_def list_all_iff)
  then show ?thesis using assms by (simp add: parse_pair_def cut_at_sep query_text_unescape)
qed

lemma query_text_no_amp: "query_text k \<Longrightarrow> query_text v \<Longrightarrow> CHR ''&'' \<notin> set (k @ CHR ''='' # v)"
  by (auto simp: query_text_def list_all_iff)

lemma ParseQuery_raw:
  assumes "query_text k" "query_text v"
  shows "url_ParseQuery (k @ CHR ''='' # v @ CHR ''&'' # rest) = (k, v) # url_ParseQuery rest"
  using cut_at_sep [OF query_text_no_amp [OF assms], of rest] parse_pair_raw [OF assms]
  by (simp add: url_ParseQuery.simps [of "k @ _"])

lemma ParseQuery_raw_last:
  assumes "query_text k" "query_text v"
  shows "url_ParseQuery (k @ CHR ''='' # v) = [(k, v)]"
  using cut_at_none [OF query_text_no_amp [OF assms]] parse_pair_raw [OF assms]
  by (simp add: url_ParseQuery.simps [of "k @ _"] url_ParseQuery.simps [of "[]"])

text \<open>
  The contract of a client that writes its query with \<open>url.Values\<close>: the URL is a path followed by the
  encoded parameters.  Then, if the path is plain text, the request is always accepted, and the
  server reads exactly the parameters the client set, whatever bytes their values hold.
\<close>

locale encoded_url =
  fixes url :: "'a \<Rightarrow> string" and path :: string and params :: "'a \<Rightarrow> url_values"
  assumes url: "url x = path @ ''?'' @ values_Encode (params x)"
    and keys: "distinct (map fst (params x))"
begin

lemma new_request:
  "path_text path \<Longrightarrow> http_NewRequest m (url x) = Inr \<lparr>hr_method = m, hr_url = url x, hr_headers = []\<rparr>"
  using url_accepted_query [of path "values_Encode (params x)"] encode_plain_set
  by (auto simp: http_NewRequest_def url list_all_iff)

lemma server_reads:
  assumes "path_text path"
  shows "request_path (url x) = path" "request_query (url x) = sort_key fst (params x)"
proof -
  have "CHR ''#'' \<notin> set (values_Encode (params x))" using encode_plain_set by blast
  from request_of_query [OF assms this] show "request_path (url x) = path"
      "request_query (url x) = sort_key fst (params x)"
    by (simp_all add: url ParseQuery_Encode)
qed

lemma server_gets: "path_text path \<Longrightarrow> values_Get k (request_query (url x)) = values_Get k (params x)"
  by (simp add: server_reads values_Get_def map_of_sort_key keys)

lemma params_told_apart: "path_text path \<Longrightarrow> url x = url y \<Longrightarrow> set (params x) = set (params y)"
  by (metis server_reads(2) set_sort)

end

end
