(* ===== verification/RealMe_Provider.thy ===== *)
theory RealMe_Provider
  imports RealMe_Session Http_Client
begin

text \<open>
  \<open>packages/realme-go/handler.go\<close> and \<open>provider.go\<close>: the handlers of the login flow, and the start of
  the provider.  What the SAML library, the file system, the network and the certificate parser do
  is a parameter.
\<close>

section \<open>The login flow\<close>

text \<open>
  What the handlers look at in a request.  \<open>form\<close> is what \<open>ParseForm\<close> makes of it (\<open>None\<close>: an error).
\<close>

record auth_request =
  aq_Path :: string
  aq_RawQuery :: string
  aq_Cookies :: "(string \<times> string) list"
  aq_TLS :: bool
  aq_Form :: "url_values option"

text \<open>The cookies a handler sets, and its answer.\<close>

record auth_answer =
  aw_cookies :: "Cookie list"
  aw_response :: response

text \<open>
  The SAML middleware: how it starts the flow at the identity provider, what it makes of a posted
  response, and how it answers a response it rejects.
\<close>

record saml_lib =
  HandleStartAuthFlow :: "auth_request \<Rightarrow> auth_answer"
  ParseResponse :: "auth_request \<Rightarrow> goerror + Assertion"
  DefaultOnError :: "goerror \<Rightarrow> response"

definition answer :: "response \<Rightarrow> auth_answer" where
  "answer rs = \<lparr>aw_cookies = [], aw_response = rs\<rparr>"

definition return_url :: "string \<Rightarrow> string" where
  "return_url u = (if u = '''' then ''/'' else u)"

definition LoginHandler :: "saml_lib \<Rightarrow> session_lib \<Rightarrow> cookieSessionStore \<Rightarrow> gotime \<Rightarrow> auth_request \<Rightarrow> auth_answer" where
  "LoginHandler mw j store now r =
     (case GetSession j store now (aq_Cookies r) of
        Some session \<Rightarrow> answer (http_Redirect (aq_Path r)
          (return_url (values_Get ''return'' (url_ParseQuery (aq_RawQuery r)))) 302)
      | None \<Rightarrow> HandleStartAuthFlow mw r)"

text \<open>\<open>onSuccess\<close> is the application's function, if it has one; it answers the request itself.\<close>

definition CallbackHandler ::
  "(Identity \<Rightarrow> world \<Rightarrow> response \<times> world) option \<Rightarrow> saml_lib \<Rightarrow> session_lib \<Rightarrow> cookieSessionStore \<Rightarrow> auth_request \<Rightarrow> world \<Rightarrow>
     auth_answer \<times> world" where
  "CallbackHandler onSuccess mw j store r w =
     (case aq_Form r of
        None \<Rightarrow> (answer (http_Error ''bad request'' 400), w)
      | Some form \<Rightarrow>
     (case ParseResponse mw r of
        Inl e \<Rightarrow> (answer (DefaultOnError mw e), w)
      | Inr assertion \<Rightarrow>
     (case CreateSession j store (aq_TLS r) (Some assertion) w of
        (Inl e, w) \<Rightarrow> (answer (http_Error ''session error'' 500), w)
      | (Inr cookie, w) \<Rightarrow>
          let plain = (\<lparr>aw_cookies = [cookie], aw_response = http_Redirect (aq_Path r)
                (return_url (values_Get ''RelayState'' form)) 302\<rparr>, w)
          in (case onSuccess of
                None \<Rightarrow> plain
              | Some f \<Rightarrow> (case extractIdentity (Some assertion) of
                    Inl _ \<Rightarrow> plain
                  | Inr i \<Rightarrow> (case f i w of (rs, w) \<Rightarrow> (\<lparr>aw_cookies = [cookie], aw_response = rs\<rparr>, w)))))))"

definition LogoutHandler :: "cookieSessionStore \<Rightarrow> auth_request \<Rightarrow> auth_answer" where
  "LogoutHandler store r =
     \<lparr>aw_cookies = [DeleteSession store (aq_TLS r)],
      aw_response = http_Redirect (aq_Path r)
        (return_url (values_Get ''return'' (url_ParseQuery (aq_RawQuery r)))) 302\<rparr>"

text \<open>\<open>internal/handlers/auth.go\<close> uses them with no success function.\<close>

definition AuthHandler_Login :: "saml_lib \<Rightarrow> session_lib \<Rightarrow> cookieSessionStore \<Rightarrow> gotime \<Rightarrow> auth_request \<Rightarrow> auth_answer" where
  "AuthHandler_Login = LoginHandler"

definition AuthHandler_Callback :: "saml_lib \<Rightarrow> session_lib \<Rightarrow> cookieSessionStore \<Rightarrow> auth_request \<Rightarrow> world \<Rightarrow> auth_answer \<times> world" where
  "AuthHandler_Callback = CallbackHandler None"

definition AuthHandler_Logout :: "cookieSessionStore \<Rightarrow> auth_request \<Rightarrow> auth_answer" where
  "AuthHandler_Logout = LogoutHandler"

section \<open>provider.go\<close>

text \<open>
  A key pair as loaded: the certificate (\<open>None\<close> if it does not parse) and whether the key is RSA.
\<close>

record key_pair =
  kp_Leaf :: "string option"
  kp_RSA :: bool

text \<open>
  The outside world of the provider: the key files, a local file, an HTTP answer as its status and
  the chunks its body delivers before the read error that ends it, and the parsers of the metadata
  document and of URLs.
\<close>

record loader =
  LoadX509KeyPair :: "string \<Rightarrow> string \<Rightarrow> goerror + key_pair"
  os_ReadFile :: "string \<Rightarrow> goerror + string"
  http_Get :: "string \<Rightarrow> goerror + int \<times> (string list \<times> goerror)"
  xml_Unmarshal :: "string \<Rightarrow> goerror + string"
  url_Parse :: "string \<Rightarrow> goerror + string"

definition loadIdPMetadata :: "loader \<Rightarrow> Config \<Rightarrow> goerror + string" where
  "loadIdPMetadata l cfg =
     (case (if IdPMetadataFile cfg \<noteq> ''''
            then (case os_ReadFile l (IdPMetadataFile cfg) of
                Inl e \<Rightarrow> Inl (Wrap (''read IdP metadata file '' @ fmt_q (IdPMetadataFile cfg) @ '': '') e)
              | Inr data \<Rightarrow> Inr data)
            else (case http_Get l (IdPMetadataURL cfg) of
                Inl e \<Rightarrow> Inl (Wrap (''fetch IdP metadata from '' @ fmt_q (IdPMetadataURL cfg) @ '': '') e)
              | Inr (status, chunks, read_error) \<Rightarrow>
                  if status \<noteq> 200
                  then Inl (Errorf (''IdP metadata returned HTTP '' @ dec_int status @ '' from '' @ fmt_q (IdPMetadataURL cfg)))
                  else Inr (concat chunks))) of
        Inl e \<Rightarrow> Inl e
      | Inr data \<Rightarrow> (case xml_Unmarshal l data of
            Inl e \<Rightarrow> Inl (Wrap ''parse IdP metadata XML: '' e)
          | Inr meta \<Rightarrow> Inr meta))"

record ServiceProvider =
  sp_EntityID :: string
  sp_Certificate :: string
  sp_MetadataURL :: string
  sp_AcsURL :: string
  sp_IDPMetadata :: string
  sp_ForceAuthn :: bool
  sp_AllowIDPInitiated :: bool

record Provider =
  pv_cfg :: Config
  pv_sp :: ServiceProvider
  pv_store :: cookieSessionStore

definition WithSessionStore :: "cookieSessionStore \<Rightarrow> Provider \<Rightarrow> Provider" where
  "WithSessionStore store p = p\<lparr>pv_store := store\<rparr>"

definition NewProvider :: "loader \<Rightarrow> Config \<Rightarrow> (Provider \<Rightarrow> Provider) list \<Rightarrow> goerror + Provider" where
  "NewProvider l cfg opts =
     (case Config_Validate cfg of Some e \<Rightarrow> Inl e | None \<Rightarrow>
     (case LoadX509KeyPair l (CertFile cfg) (KeyFile cfg) of
        Inl e \<Rightarrow> Inl (Wrap ''realme: load SP certificate: '' e)
      | Inr pair \<Rightarrow>
     (case kp_Leaf pair of
        None \<Rightarrow> Inl (Wrap ''realme: parse SP certificate: '' (Errorf ''x509''))
      | Some leaf \<Rightarrow>
          if \<not> kp_RSA pair then Inl (Errorf ''realme: SP private key must be RSA'')
          else
     (case loadIdPMetadata l cfg of
        Inl e \<Rightarrow> Inl (Wrap ''realme: load IdP metadata: '' e)
      | Inr meta \<Rightarrow>
     (case url_Parse l (EntityID cfg) of
        Inl e \<Rightarrow> Inl (Wrap ''realme: invalid EntityID URL: '' e)
      | Inr entityURL \<Rightarrow>
     (case url_Parse l (ACSURL cfg) of
        Inl e \<Rightarrow> Inl (Wrap ''realme: invalid ACS URL: '' e)
      | Inr acsURL \<Rightarrow>
          Inr (foldl (\<lambda>p opt. opt p)
            \<lparr>pv_cfg = cfg,
             pv_sp = \<lparr>sp_EntityID = EntityID cfg, sp_Certificate = leaf, sp_MetadataURL = entityURL,
               sp_AcsURL = acsURL, sp_IDPMetadata = meta, sp_ForceAuthn = ForceAuthn cfg,
               sp_AllowIDPInitiated = AllowIDPInitiated cfg\<rparr>,
             pv_store = newCookieSessionStore cfg\<rparr> opts)))))))"

section \<open>What the login flow guarantees\<close>

text \<open>
  A session that needs to log in is sent to a URL with the request it made; once it has a session, the
  login handler sends it back to exactly that request.
\<close>

lemma return_parameter: "values_Get ''return'' (url_ParseQuery (''return='' @ url_QueryEscape u)) = u"
proof -
  have "''return='' @ url_QueryEscape u = strings_Join (map encode_pair [(''return'', u)]) ''&''"
    by (simp add: encode_pair_def url_QueryEscape_def query_escape_char_def unreserved_def)
  then show ?thesis by (simp only: ParseQuery_pairs) (simp add: values_Get_def)
qed

lemma LoginHandler_returns:
  assumes "GetSession j store now (aq_Cookies r) = Some i" "aq_RawQuery r = ''return='' @ url_QueryEscape u" "u \<noteq> ''''"
  shows "LoginHandler mw j store now r = answer (http_Redirect (aq_Path r) u 302)"
  using assms return_parameter [of u] by (simp add: LoginHandler_def return_url_def)

text \<open>Logging out sends a cookie that ends the session: it is empty and past its age.\<close>

lemma LogoutHandler_ends:
  assumes "ParseWithClaims (sl_jwt j) (session_key store) now '''' = Inl e"
  shows "\<exists>c. aw_cookies (LogoutHandler store r) = [c] \<and> ck_MaxAge c < 0 \<and>
    GetSession j store now [(ck_Name c, ck_Value c)] = None"
  using assms by (simp add: LogoutHandler_def DeleteSession_def GetSession_def)

text \<open>A callback that answers with a session cookie was given a response the SAML library accepted.\<close>

lemma CallbackHandler_sessions:
  assumes "CallbackHandler f mw j store r w = (a, w')" "aw_cookies a = c # cs"
  shows "\<exists>x w''. ParseResponse mw r = Inr x \<and> CreateSession j store (aq_TLS r) (Some x) w = (Inr c, w'') \<and> cs = []"
  using assms by (auto simp: CallbackHandler_def answer_def Let_def split: option.splits sum.splits prod.splits)

text \<open>A provider that starts has a complete configuration, and its sessions are signed with the entity identifier.\<close>

lemma NewProvider_started:
  assumes "NewProvider l cfg [] = Inr p"
  shows "Config_Validate cfg = None" "pv_store p = newCookieSessionStore cfg" "pv_cfg p = cfg"
    "loadIdPMetadata l cfg = Inr (sp_IDPMetadata (pv_sp p))" "sp_EntityID (pv_sp p) = EntityID cfg"
  using assms by (auto simp: NewProvider_def split: option.splits sum.splits if_splits)

text \<open>A download that breaks off is used like a complete one.\<close>

lemma loadIdPMetadata_truncated:
  assumes "IdPMetadataFile cfg = ''''" "http_Get l (IdPMetadataURL cfg) = Inr (200, chunks, e)"
    and "xml_Unmarshal l (concat chunks) = Inr meta"
  shows "loadIdPMetadata l cfg = Inr meta"
  using assms by (simp add: loadIdPMetadata_def)

section \<open>cmd/server/main.go: the configuration from the environment\<close>

definition realmeConfigFromEnv :: "(string \<Rightarrow> string) \<Rightarrow> Config" where
  "realmeConfigFromEnv getenv =
     (let env = getenv ''REALME_ENVIRONMENT''; env = (if env = '''' then MTS else env)
      in \<lparr>cf_Environment = env, EntityID = getenv ''REALME_ENTITY_ID'', ACSURL = getenv ''REALME_ACS_URL'',
          SLOURL = '''', CertFile = getenv ''REALME_CERT_FILE'', KeyFile = getenv ''REALME_KEY_FILE'',
          IdPMetadataFile = '''', IdPMetadataURL = getenv ''REALME_IDP_METADATA_URL'', ForceAuthn = False,
          AllowIDPInitiated = False, SessionCookieName = '''', SessionMaxAge = 0\<rparr>)"

lemma realmeConfigFromEnv_valid:
  "Config_Validate (realmeConfigFromEnv getenv) = None \<longleftrightarrow>
     (\<forall>k \<in> {''REALME_ENTITY_ID'', ''REALME_ACS_URL'', ''REALME_CERT_FILE'', ''REALME_KEY_FILE'',
        ''REALME_IDP_METADATA_URL''}. getenv k \<noteq> '''')"
  by (auto simp: Config_Validate_def realmeConfigFromEnv_def Let_def)

lemma realmeConfigFromEnv_sessions:
  "sessionCookieName (realmeConfigFromEnv getenv) = ''realme_session''"
  "sessionMaxAge (realmeConfigFromEnv getenv) = 28800"
  by (simp_all add: realmeConfigFromEnv_def sessionCookieName_def sessionMaxAge_def Let_def)

end
