(* ===== verification/Linz_Client.thy ===== *)
theory Linz_Client
  imports Http_Client Will_Service
begin

text \<open>
  \<open>packages/nz-common/linz\<close>: the client of the LINZ Data Service, and the property verifier of
  \<open>internal/services/linz_verifier.go\<close> built on it.  The transport is a parameter; a
  \<open>float64\<close> is its rational value.
\<close>

section \<open>Client and records\<close>

definition linz_defaultBaseURL :: string where
  "linz_defaultBaseURL = ''https://data.linz.govt.nz''"

record linz_Client =
  lc_baseURL :: string
  lc_apiKey :: string

definition linz_NewClient :: "string \<Rightarrow> linz_Client" where
  "linz_NewClient apiKey = \<lparr>lc_baseURL = linz_defaultBaseURL, lc_apiKey = apiKey\<rparr>"

definition linz_WithBaseURL :: "string \<Rightarrow> linz_Client \<Rightarrow> linz_Client" where
  "linz_WithBaseURL u c = c\<lparr>lc_baseURL := u\<rparr>"

record linz_Address =
  AddressID :: int
  FullAddress :: string
  UnitValue :: string
  AddressNumber :: int
  RoadName :: string
  RoadTypeName :: string
  SuburbLocality :: string
  TownCity :: string
  la_Postcode :: string
  Latitude :: rat
  Longitude :: rat

record PropertyBoundary =
  ParcelID :: int
  Appellation :: string
  pb_AreaSqm :: rat
  pb_LegalDesc :: string
  pb_TitleNo :: string

record LandTitle =
  lt_TitleNo :: string
  lt_LegalDescription :: string
  lt_AreaSqm :: rat

text \<open>The result structs hold one list, the \<open>properties\<close> of each feature.\<close>

type_synonym AddressSearchResult = "linz_Address list"
type_synonym PropertyBoundaryResult = "PropertyBoundary list"
type_synonym LandTitleResult = "PropertyBoundary list"

section \<open>Decoding\<close>

definition zero_linz_Address :: linz_Address where
  "zero_linz_Address = \<lparr>AddressID = 0, FullAddress = '''', UnitValue = '''', AddressNumber = 0, RoadName = '''',
     RoadTypeName = '''', SuburbLocality = '''', TownCity = '''', la_Postcode = '''', Latitude = 0, Longitude = 0\<rparr>"

definition linz_address_fields :: "string list" where
  "linz_address_fields = [''address_id'', ''full_address'', ''unit_value'', ''address_number'', ''road_name'',
     ''road_type_name'', ''suburb_locality'', ''town_city'', ''postcode'', ''shape_y'', ''shape_x'']"

definition into_linz_Address :: "linz_Address into" where
  "into_linz_Address = into_struct (\<lambda>a ms. do {
     i \<leftarrow> into_field linz_address_fields ''address_id'' into_int (AddressID a) ms;
     f \<leftarrow> into_field linz_address_fields ''full_address'' into_string (FullAddress a) ms;
     u \<leftarrow> into_field linz_address_fields ''unit_value'' into_string (UnitValue a) ms;
     n \<leftarrow> into_field linz_address_fields ''address_number'' into_int (AddressNumber a) ms;
     r \<leftarrow> into_field linz_address_fields ''road_name'' into_string (RoadName a) ms;
     t \<leftarrow> into_field linz_address_fields ''road_type_name'' into_string (RoadTypeName a) ms;
     s \<leftarrow> into_field linz_address_fields ''suburb_locality'' into_string (SuburbLocality a) ms;
     c \<leftarrow> into_field linz_address_fields ''town_city'' into_string (TownCity a) ms;
     p \<leftarrow> into_field linz_address_fields ''postcode'' into_string (la_Postcode a) ms;
     y \<leftarrow> into_field linz_address_fields ''shape_y'' into_float (Latitude a) ms;
     x \<leftarrow> into_field linz_address_fields ''shape_x'' into_float (Longitude a) ms;
     Some \<lparr>AddressID = i, FullAddress = f, UnitValue = u, AddressNumber = n, RoadName = r, RoadTypeName = t,
       SuburbLocality = s, TownCity = c, la_Postcode = p, Latitude = y, Longitude = x\<rparr>
   })"

definition zero_boundary :: PropertyBoundary where
  "zero_boundary = \<lparr>ParcelID = 0, Appellation = '''', pb_AreaSqm = 0, pb_LegalDesc = '''', pb_TitleNo = ''''\<rparr>"

definition boundary_fields :: "string list" where
  "boundary_fields = [''id'', ''appellation'', ''area'', ''legal_description'', ''title_no'']"

definition into_PropertyBoundary :: "PropertyBoundary into" where
  "into_PropertyBoundary = into_struct (\<lambda>p ms. do {
     i \<leftarrow> into_field boundary_fields ''id'' into_int (ParcelID p) ms;
     n \<leftarrow> into_field boundary_fields ''appellation'' into_string (Appellation p) ms;
     a \<leftarrow> into_field boundary_fields ''area'' into_float (pb_AreaSqm p) ms;
     d \<leftarrow> into_field boundary_fields ''legal_description'' into_string (pb_LegalDesc p) ms;
     t \<leftarrow> into_field boundary_fields ''title_no'' into_string (pb_TitleNo p) ms;
     Some \<lparr>ParcelID = i, Appellation = n, pb_AreaSqm = a, pb_LegalDesc = d, pb_TitleNo = t\<rparr>
   })"

text \<open>The list \<open>features\<close>, each with its \<open>properties\<close>.\<close>

definition into_feature :: "'a into \<Rightarrow> 'a into" where
  "into_feature f = into_struct (into_field [''properties''] ''properties'' f)"

definition decode_features :: "'a \<Rightarrow> 'a into \<Rightarrow> string \<Rightarrow> 'a list option" where
  "decode_features z f body = map_option slice_elems
     (json_Decode (into_struct (into_field [''features''] ''features'' (into_slice z (into_feature f)))) ([], 0) body)"

definition decode_AddressSearchResult :: "string \<Rightarrow> AddressSearchResult option" where
  "decode_AddressSearchResult = decode_features zero_linz_Address into_linz_Address"

definition decode_PropertyBoundaryResult :: "string \<Rightarrow> PropertyBoundaryResult option" where
  "decode_PropertyBoundaryResult = decode_features zero_boundary into_PropertyBoundary"

definition decode_LandTitleResult :: "string \<Rightarrow> LandTitleResult option" where
  "decode_LandTitleResult = decode_features zero_boundary into_PropertyBoundary"

text \<open>What the service writes for the parcels of a title, each with the literal of its area.\<close>

definition parcel_json :: "PropertyBoundary \<times> string \<Rightarrow> json" where
  "parcel_json = (\<lambda>(p, a). JObject [(''properties'', JObject [(''id'', JNumber (dec_int (ParcelID p))),
     (''appellation'', JString (Appellation p)), (''area'', JNumber a),
     (''legal_description'', JString (pb_LegalDesc p)), (''title_no'', JString (pb_TitleNo p))])])"

definition parcels_json :: "(PropertyBoundary \<times> string) list \<Rightarrow> json" where
  "parcels_json ps = JObject [(''features'', JArray (map parcel_json ps))]"

definition parcel_writable :: "PropertyBoundary \<times> string \<Rightarrow> bool" where
  "parcel_writable = (\<lambda>(p, a). in_int64 (ParcelID p) \<and> valid_utf8 (Appellation p) \<and> valid_utf8 (pb_LegalDesc p) \<and>
     valid_utf8 (pb_TitleNo p) \<and> json_number a = Some (a, []) \<and> into_float 0 (JNumber a) = Some (pb_AreaSqm p))"

lemma decode_parcels:
  assumes "list_all parcel_writable ps"
  shows "decode_LandTitleResult (json_text (parcels_json ps)) = Some (map fst ps)"
proof -
  have each: "into_feature into_PropertyBoundary zero_boundary (parcel_json x) = Some (fst x)" if "x \<in> set ps" for x
    using assms that by (cases x) (auto simp: list_all_iff parcel_writable_def parcel_json_def into_feature_def into_struct_def
      into_PropertyBoundary_def zero_boundary_def boundary_fields_def into_string_def into_int_def)
  have "json_ok (parcels_json ps)"
    using assms by (auto simp: list_all_iff parcels_json_def parcel_json_def parcel_writable_def)
  moreover have "json_depth (JArray (map parcel_json ps)) \<le> Suc 2"
    by (rule json_depth_array) (simp add: parcel_json_def split: prod.split)
  then have "json_depth (parcels_json ps) \<le> 100" by (simp add: parcels_json_def)
  ultimately show ?thesis
    by (simp add: decode_LandTitleResult_def decode_features_def)
      (simp add: parcels_json_def into_struct_def into_slice_fresh [where f = "into_feature into_PropertyBoundary" and z = zero_boundary and enc = parcel_json and st = fst, OF each])
qed

section \<open>Requests\<close>

definition linz_path :: "linz_Client \<Rightarrow> string" where
  "linz_path c = ''/services;key='' @ lc_apiKey c @ ''/wfs''"

definition wfsGet :: "transport \<Rightarrow> linz_Client \<Rightarrow> string \<Rightarrow> 'a decoder \<Rightarrow> goerror + 'a" where
  "wfsGet net c path decode =
     (case http_NewRequest ''GET'' (lc_baseURL c @ path) of
        Inl e \<Rightarrow> Inl (Wrap ''build request: '' e)
      | Inr req \<Rightarrow> (case net (Header_Set ''Accept'' ''application/json'' req) of
            Inl e \<Rightarrow> Inl (Wrap ''request: '' e)
          | Inr (status, body) \<Rightarrow>
              if status \<noteq> 200 then Inl (Errorf (''HTTP '' @ dec_int status))
              else (case decode body of
                  Inl e \<Rightarrow> Inl (Wrap ''decode response: '' e)
                | Inr result \<Rightarrow> Inr result)))"

definition address_params :: "string \<Rightarrow> int \<Rightarrow> url_values" where
  "address_params q limit =
     values_Set ''cql_filter'' (''full_address ILIKE '' @ [CHR 0x27] @ ''%'' @ q @ ''%'' @ [CHR 0x27])
     (values_Set ''count'' (dec_int limit)
     (values_Set ''outputFormat'' ''application/json''
     (values_Set ''typeNames'' ''layer-53353''
     (values_Set ''request'' ''GetFeature''
     (values_Set ''version'' ''2.0.0''
     (values_Set ''service'' ''WFS'' []))))))"

definition SearchAddresses ::
  "transport \<Rightarrow> (string \<Rightarrow> goerror) \<Rightarrow> linz_Client \<Rightarrow> string \<Rightarrow> int \<Rightarrow> goerror + linz_Address list" where
  "SearchAddresses net jerr c q limit =
     (if q = '''' then Inl (Errorf ''linz: address search query cannot be empty'')
      else let limit = (if limit \<le> 0 then 10 else limit);
               path = linz_path c @ ''?'' @ values_Encode (address_params q limit)
      in case http_NewRequest ''GET'' (lc_baseURL c @ path) of
           Inl e \<Rightarrow> Inl (Wrap ''linz: build request: '' e)
         | Inr req \<Rightarrow> (case net (Header_Set ''Accept'' ''application/json'' req) of
               Inl e \<Rightarrow> Inl (Wrap ''linz: request: '' e)
             | Inr (status, body) \<Rightarrow>
                 if status \<noteq> 200 then Inl (Errorf (''linz: address search returned HTTP '' @ dec_int status))
                 else (case decoded jerr decode_AddressSearchResult body of
                     Inl e \<Rightarrow> Inl (Wrap ''linz: decode response: '' e)
                   | Inr result \<Rightarrow> Inr result)))"

definition address_id_params :: "int \<Rightarrow> url_values" where
  "address_id_params addressID =
     values_Set ''cql_filter'' (''address_id='' @ dec_int addressID)
     (values_Set ''outputFormat'' ''application/json''
     (values_Set ''typeNames'' ''layer-53353''
     (values_Set ''request'' ''GetFeature''
     (values_Set ''version'' ''2.0.0''
     (values_Set ''service'' ''WFS'' [])))))"

definition GetAddressByID ::
  "transport \<Rightarrow> (string \<Rightarrow> goerror) \<Rightarrow> linz_Client \<Rightarrow> int \<Rightarrow> goerror + linz_Address" where
  "GetAddressByID net jerr c addressID =
     (case wfsGet net c (linz_path c @ ''?'' @ values_Encode (address_id_params addressID)) (decoded jerr decode_AddressSearchResult) of
        Inl e \<Rightarrow> Inl (Wrap (''linz: get address by ID '' @ dec_int addressID @ '': '') e)
      | Inr [] \<Rightarrow> Inl (Errorf (''linz: address '' @ dec_int addressID @ '' not found''))
      | Inr (a # _) \<Rightarrow> Inr a)"

definition boundary_params :: "rat \<Rightarrow> rat \<Rightarrow> url_values" where
  "boundary_params lat lng =
     values_Set ''cql_filter'' (''INTERSECTS(shape,POINT('' @ fmt_f lng @ '' '' @ fmt_f lat @ ''))'')
     (values_Set ''outputFormat'' ''application/json''
     (values_Set ''typeNames'' ''layer-51564''
     (values_Set ''request'' ''GetFeature''
     (values_Set ''version'' ''2.0.0''
     (values_Set ''service'' ''WFS'' [])))))"

definition GetPropertyBoundaries ::
  "transport \<Rightarrow> (string \<Rightarrow> goerror) \<Rightarrow> linz_Client \<Rightarrow> rat \<Rightarrow> rat \<Rightarrow>
     goerror + PropertyBoundary list" where
  "GetPropertyBoundaries net jerr c lat lng =
     (case wfsGet net c (linz_path c @ ''?'' @ values_Encode (boundary_params lat lng))
        (decoded jerr decode_PropertyBoundaryResult) of
        Inl e \<Rightarrow> Inl (Wrap ''linz: property boundary query: '' e)
      | Inr result \<Rightarrow> Inr result)"

definition title_params :: "string \<Rightarrow> url_values" where
  "title_params titleRef =
     values_Set ''cql_filter'' (''title_no='' @ [CHR 0x27] @ titleRef @ [CHR 0x27])
     (values_Set ''count'' ''10''
     (values_Set ''outputFormat'' ''application/json''
     (values_Set ''typeNames'' ''layer-51564''
     (values_Set ''request'' ''GetFeature''
     (values_Set ''version'' ''2.0.0''
     (values_Set ''service'' ''WFS'' []))))))"

definition SearchByTitleReference ::
  "transport \<Rightarrow> (string \<Rightarrow> goerror) \<Rightarrow> linz_Client \<Rightarrow> string \<Rightarrow> goerror + LandTitle list" where
  "SearchByTitleReference net jerr c titleRef =
     (if titleRef = '''' then Inl (Errorf ''linz: title reference cannot be empty'')
      else (case wfsGet net c (linz_path c @ ''?'' @ values_Encode (title_params titleRef))
              (decoded jerr decode_LandTitleResult) of
          Inl e \<Rightarrow> Inl (Wrap (''linz: title lookup '' @ fmt_q titleRef @ '': '') e)
        | Inr result \<Rightarrow> Inr (map (\<lambda>p. \<lparr>lt_TitleNo = pb_TitleNo p,
              lt_LegalDescription = pb_LegalDesc p, lt_AreaSqm = pb_AreaSqm p\<rparr>) result)))"

section \<open>The verifier of property clauses\<close>

definition LINZPropertyVerifier_VerifyTitle ::
  "transport \<Rightarrow> (string \<Rightarrow> goerror) \<Rightarrow> linz_Client \<Rightarrow> PropertyVerifier" where
  "LINZPropertyVerifier_VerifyTitle net jerr client titleRef =
     (case SearchByTitleReference net jerr client titleRef of
        Inl e \<Rightarrow> Inl (Wrap ''linz verifier: '' e)
      | Inr [] \<Rightarrow> Inl (Errorf (''linz verifier: title reference '' @ fmt_q titleRef @ '' not found''))
      | Inr (t # _) \<Rightarrow> Inr \<lparr>pvr_TitleNo = lt_TitleNo t, pvr_LegalDescription = lt_LegalDescription t,
            pvr_LINZLandAreaM2 = lt_AreaSqm t\<rparr>)"

section \<open>The requests are what the client meant\<close>

lemmas linz_params = address_params_def address_id_params_def boundary_params_def title_params_def

interpretation address_url: encoded_url
  "\<lambda>(q, limit). lc_baseURL c @ linz_path c @ ''?'' @ values_Encode (address_params q limit)"
  "lc_baseURL c @ linz_path c" "\<lambda>(q, limit). address_params q limit" for c
  by unfold_locales (auto simp: linz_params)

interpretation address_id_url: encoded_url
  "\<lambda>i. lc_baseURL c @ linz_path c @ ''?'' @ values_Encode (address_id_params i)"
  "lc_baseURL c @ linz_path c" address_id_params for c
  by unfold_locales (auto simp: linz_params)

interpretation boundary_url: encoded_url
  "\<lambda>(lat, lng). lc_baseURL c @ linz_path c @ ''?'' @ values_Encode (boundary_params lat lng)"
  "lc_baseURL c @ linz_path c" "\<lambda>(lat, lng). boundary_params lat lng" for c
  by unfold_locales (auto simp: linz_params)

interpretation title_url: encoded_url
  "\<lambda>ref. lc_baseURL c @ linz_path c @ ''?'' @ values_Encode (title_params ref)"
  "lc_baseURL c @ linz_path c" title_params for c
  by unfold_locales (auto simp: linz_params)

text \<open>The request of a title lookup, and what its answer becomes.\<close>

definition title_request :: "linz_Client \<Rightarrow> string \<Rightarrow> http_request" where
  "title_request c ref = \<lparr>hr_method = ''GET'',
     hr_url = lc_baseURL c @ linz_path c @ ''?'' @ values_Encode (title_params ref),
     hr_headers = [(''Accept'', ''application/json'')]\<rparr>"

lemma SearchByTitleReference_sends:
  assumes "path_text (lc_baseURL c @ linz_path c)" "ref \<noteq> ''''"
  shows "SearchByTitleReference net jerr c ref =
    (case net (title_request c ref) of
       Inl e \<Rightarrow> Inl (Wrap (''linz: title lookup '' @ fmt_q ref @ '': '') (Wrap ''request: '' e))
     | Inr (status, body) \<Rightarrow>
         if status \<noteq> 200 then Inl (Wrap (''linz: title lookup '' @ fmt_q ref @ '': '') (Errorf (''HTTP '' @ dec_int status)))
         else (case decoded jerr decode_LandTitleResult body of
             Inl e \<Rightarrow> Inl (Wrap (''linz: title lookup '' @ fmt_q ref @ '': '') (Wrap ''decode response: '' e))
           | Inr ps \<Rightarrow> Inr (map (\<lambda>p. \<lparr>lt_TitleNo = pb_TitleNo p,
               lt_LegalDescription = pb_LegalDesc p, lt_AreaSqm = pb_AreaSqm p\<rparr>) ps)))"
  using assms(2) title_url.new_request [OF assms(1), of "''GET''" ref]
  by (simp add: SearchByTitleReference_def wfsGet_def title_request_def Header_Set_def values_Set_def
      split: sum.splits)

text \<open>What the verifier makes of the answer: the first parcel of a 200, or nothing.\<close>

definition title_reply :: "transport \<Rightarrow> linz_Client \<Rightarrow> string \<Rightarrow> PropertyBoundary option" where
  "title_reply net c ref =
     (case net (title_request c ref) of
        Inl _ \<Rightarrow> None
      | Inr (status, body) \<Rightarrow> if status \<noteq> 200 then None
          else (case decode_LandTitleResult body of Some (p # _) \<Rightarrow> Some p | _ \<Rightarrow> None))"

lemma title_reply_parcels:
  assumes "net (title_request c ref) = Inr (200, json_text (parcels_json (x # xs)))" "list_all parcel_writable (x # xs)"
  shows "title_reply net c ref = Some (fst x)"
  using decode_parcels [OF assms(2)] by (simp add: title_reply_def assms(1))

lemma VerifyTitle_reply:
  assumes "path_text (lc_baseURL c @ linz_path c)" "ref \<noteq> ''''"
  shows "case title_reply net c ref of
      None \<Rightarrow> isl (LINZPropertyVerifier_VerifyTitle net jerr c ref)
    | Some p \<Rightarrow> LINZPropertyVerifier_VerifyTitle net jerr c ref = Inr \<lparr>pvr_TitleNo = pb_TitleNo p,
        pvr_LegalDescription = pb_LegalDesc p, pvr_LINZLandAreaM2 = pb_AreaSqm p\<rparr>"
  by (auto simp: LINZPropertyVerifier_VerifyTitle_def SearchByTitleReference_sends [OF assms] title_reply_def decoded_def
      split: sum.split list.split option.split)

text \<open>A clause that is added carries what its verifier answered, and nothing otherwise.\<close>

lemma AddPropertyClause_lookup:
  assumes "WillService_AddPropertyClause (Some verify) k t title bene w = ((c, None), w')"
  shows "case verify title of
      Inl _ \<Rightarrow> LINZVerifiedAt c = None \<and> LegalDescription c = '''' \<and> LINZLandAreaM2 c = 0
    | Inr data \<Rightarrow> LINZVerifiedAt c \<noteq> None \<and> LegalDescription c = pvr_LegalDescription data \<and>
        LINZLandAreaM2 c = pvr_LINZLandAreaM2 data"
  using assms unfolding WillService_AddPropertyClause_def
proof (rule with_will [where fail = "\<lambda>e. (zero_property, Some e)"], goal_cases)
  case (2 will r w1)
  then show ?case
    by (auto simp: Let_def zero_property_def split: prod.splits if_splits sum.splits)
qed auto

lemma title_request_query:
  assumes "path_text (lc_baseURL c @ linz_path c)"
  shows "request_path (hr_url (title_request c ref)) = lc_baseURL c @ linz_path c"
    "set (request_query (hr_url (title_request c ref))) = set (title_params ref)"
  using title_url.server_reads [OF assms] by (simp_all add: title_request_def)

end
