(* ===== verification/Request_Bodies.thy ===== *)
theory Request_Bodies
  imports Go_Json Will_Service
begin

text \<open>
  The JSON bodies the handlers decode: \<open>CreateWillRequest\<close> with its parts, \<open>DigitalAssetClause\<close>, and
  the unnamed structs of the signing and property handlers.  Keys are matched as \<open>encoding/json\<close>
  matches them, unknown keys are passed over, and missing ones leave a field empty.
\<close>

section \<open>The structs\<close>

definition zero_clause :: Clause where
  "zero_clause = \<lparr>Clause_ID = '''', Clause_Text = '''', Clause_Index = 0\<rparr>"

definition clause_fields :: "string list" where
  "clause_fields = [''id'', ''text'', ''index'']"

definition into_Clause :: "Clause into" where
  "into_Clause = into_struct (\<lambda>c ms.
     (case into_field clause_fields ''id'' into_string (Clause_ID c) ms of None \<Rightarrow> None | Some i \<Rightarrow>
     (case into_field clause_fields ''text'' into_string (Clause_Text c) ms of None \<Rightarrow> None | Some t \<Rightarrow>
     (case into_field clause_fields ''index'' into_int (Clause_Index c) ms of None \<Rightarrow> None | Some n \<Rightarrow>
        Some \<lparr>Clause_ID = i, Clause_Text = t, Clause_Index = n\<rparr>))))"

definition zero_beneficiary :: Beneficiary where
  "zero_beneficiary = \<lparr>Beneficiary_ID = '''', Beneficiary_Name = '''', Beneficiary_Email = '''', Relation = ''''\<rparr>"

definition beneficiary_fields :: "string list" where
  "beneficiary_fields = [''id'', ''name'', ''email'', ''relation'']"

definition into_Beneficiary :: "Beneficiary into" where
  "into_Beneficiary = into_struct (\<lambda>b ms.
     (case into_field beneficiary_fields ''id'' into_string (Beneficiary_ID b) ms of None \<Rightarrow> None | Some i \<Rightarrow>
     (case into_field beneficiary_fields ''name'' into_string (Beneficiary_Name b) ms of None \<Rightarrow> None | Some n \<Rightarrow>
     (case into_field beneficiary_fields ''email'' into_string (Beneficiary_Email b) ms of None \<Rightarrow> None | Some e \<Rightarrow>
     (case into_field beneficiary_fields ''relation'' into_string (Relation b) ms of None \<Rightarrow> None | Some r \<Rightarrow>
        Some \<lparr>Beneficiary_ID = i, Beneficiary_Name = n, Beneficiary_Email = e, Relation = r\<rparr>)))))"

definition zero_executor :: Executor where
  "zero_executor = \<lparr>Executor_ID = '''', Executor_Name = '''', Executor_Email = '''', FLT = ''''\<rparr>"

definition executor_fields :: "string list" where
  "executor_fields = [''id'', ''name'', ''email'', ''flt'']"

definition into_Executor :: "Executor into" where
  "into_Executor = into_struct (\<lambda>x ms.
     (case into_field executor_fields ''id'' into_string (Executor_ID x) ms of None \<Rightarrow> None | Some i \<Rightarrow>
     (case into_field executor_fields ''name'' into_string (Executor_Name x) ms of None \<Rightarrow> None | Some n \<Rightarrow>
     (case into_field executor_fields ''email'' into_string (Executor_Email x) ms of None \<Rightarrow> None | Some e \<Rightarrow>
     (case into_field executor_fields ''flt'' into_string (FLT x) ms of None \<Rightarrow> None | Some f \<Rightarrow>
        Some \<lparr>Executor_ID = i, Executor_Name = n, Executor_Email = e, FLT = f\<rparr>)))))"

definition will_request_fields :: "string list" where
  "will_request_fields = [''clauses'', ''beneficiaries'', ''executors'', ''vaultCiphertext'', ''vaultNonce'',
     ''vaultAlg'', ''vaultUnlockDelayDays'']"

text \<open>Into a fresh variable, whose slices are nil.\<close>

definition into_CreateWillRequest :: "CreateWillRequest into" where
  "into_CreateWillRequest = into_struct (\<lambda>q ms.
     (case into_field will_request_fields ''clauses'' (into_slice zero_clause into_Clause) ([], 0) ms of None \<Rightarrow> None | Some cs \<Rightarrow>
     (case into_field will_request_fields ''beneficiaries'' (into_slice zero_beneficiary into_Beneficiary) ([], 0) ms of None \<Rightarrow> None | Some bs \<Rightarrow>
     (case into_field will_request_fields ''executors'' (into_slice zero_executor into_Executor) ([], 0) ms of None \<Rightarrow> None | Some xs \<Rightarrow>
     (case into_field will_request_fields ''vaultCiphertext'' into_string (rq_VaultCiphertext q) ms of None \<Rightarrow> None | Some c \<Rightarrow>
     (case into_field will_request_fields ''vaultNonce'' into_string (rq_VaultNonce q) ms of None \<Rightarrow> None | Some n \<Rightarrow>
     (case into_field will_request_fields ''vaultAlg'' into_string (rq_VaultAlg q) ms of None \<Rightarrow> None | Some a \<Rightarrow>
     (case into_field will_request_fields ''vaultUnlockDelayDays'' into_int (rq_VaultUnlockDelayDays q) ms of None \<Rightarrow> None | Some d \<Rightarrow>
        Some \<lparr>rq_Clauses = slice_elems cs, rq_Beneficiaries = slice_elems bs, rq_Executors = slice_elems xs,
          rq_VaultCiphertext = c, rq_VaultNonce = n, rq_VaultAlg = a, rq_VaultUnlockDelayDays = d\<rparr>))))))))"

definition decode_CreateWillRequest :: "string \<Rightarrow> CreateWillRequest option" where
  "decode_CreateWillRequest = json_Decode into_CreateWillRequest
     \<lparr>rq_Clauses = [], rq_Beneficiaries = [], rq_Executors = [], rq_VaultCiphertext = '''', rq_VaultNonce = '''',
       rq_VaultAlg = '''', rq_VaultUnlockDelayDays = 0\<rparr>"

definition payload_hash_fields :: "string list" where
  "payload_hash_fields = [''payloadHash'']"

definition decode_payloadHash :: "string \<Rightarrow> string option" where
  "decode_payloadHash = json_Decode (into_struct (into_field payload_hash_fields ''payloadHash'' into_string)) ''''"

definition asset_fields :: "string list" where
  "asset_fields = [''id'', ''willId'', ''clauseIndex'', ''assetType'', ''platform'', ''identifier'', ''instruction'', ''beneficiaryId'']"

definition into_DigitalAssetClause :: "DigitalAssetClause into" where
  "into_DigitalAssetClause = into_struct (\<lambda>c ms.
     (case into_field asset_fields ''id'' into_string (DA_ID c) ms of None \<Rightarrow> None | Some i \<Rightarrow>
     (case into_field asset_fields ''willId'' into_string (DA_WillID c) ms of None \<Rightarrow> None | Some k \<Rightarrow>
     (case into_field asset_fields ''clauseIndex'' into_int (DA_ClauseIndex c) ms of None \<Rightarrow> None | Some n \<Rightarrow>
     (case into_field asset_fields ''assetType'' into_string (asset_text (AssetType c)) ms of None \<Rightarrow> None | Some t \<Rightarrow>
     (case into_field asset_fields ''platform'' into_string (Platform c) ms of None \<Rightarrow> None | Some p \<Rightarrow>
     (case into_field asset_fields ''identifier'' into_string (DA_Identifier c) ms of None \<Rightarrow> None | Some j \<Rightarrow>
     (case into_field asset_fields ''instruction'' into_string (Instruction c) ms of None \<Rightarrow> None | Some s \<Rightarrow>
     (case into_field asset_fields ''beneficiaryId'' into_string (DA_BeneficiaryID c) ms of None \<Rightarrow> None | Some b \<Rightarrow>
        Some \<lparr>DA_ID = i, DA_WillID = k, DA_ClauseIndex = n, AssetType = asset_of_text t, Platform = p,
          DA_Identifier = j, Instruction = s, DA_BeneficiaryID = b\<rparr>)))))))))"

definition decode_DigitalAssetClause :: "string \<Rightarrow> DigitalAssetClause option" where
  "decode_DigitalAssetClause = json_Decode into_DigitalAssetClause
     \<lparr>DA_ID = '''', DA_WillID = '''', DA_ClauseIndex = 0, AssetType = asset_of_text '''', Platform = '''',
       DA_Identifier = '''', Instruction = '''', DA_BeneficiaryID = ''''\<rparr>"

definition title_fields :: "string list" where
  "title_fields = [''titleReference'', ''beneficiaryId'']"

definition decode_property :: "string \<Rightarrow> (string \<times> string) option" where
  "decode_property = json_Decode (into_struct (\<lambda>(t, b) ms.
     (case into_field title_fields ''titleReference'' into_string t ms of None \<Rightarrow> None | Some t \<Rightarrow>
     (case into_field title_fields ''beneficiaryId'' into_string b ms of None \<Rightarrow> None | Some b \<Rightarrow> Some (t, b))))) ('''', '''')"

section \<open>A request is read as it is written\<close>

definition clause_json :: "Clause \<Rightarrow> json" where
  "clause_json c = JObject [(''id'', JString (Clause_ID c)), (''text'', JString (Clause_Text c)),
     (''index'', JNumber (dec_int (Clause_Index c)))]"

definition beneficiary_json :: "Beneficiary \<Rightarrow> json" where
  "beneficiary_json b = JObject [(''id'', JString (Beneficiary_ID b)), (''name'', JString (Beneficiary_Name b)),
     (''email'', JString (Beneficiary_Email b)), (''relation'', JString (Relation b))]"

definition executor_json :: "Executor \<Rightarrow> json" where
  "executor_json x = JObject [(''id'', JString (Executor_ID x)), (''name'', JString (Executor_Name x)),
     (''email'', JString (Executor_Email x)), (''flt'', JString (FLT x))]"

definition will_request_json :: "CreateWillRequest \<Rightarrow> json" where
  "will_request_json q = JObject [(''clauses'', JArray (map clause_json (rq_Clauses q))),
     (''beneficiaries'', JArray (map beneficiary_json (rq_Beneficiaries q))),
     (''executors'', JArray (map executor_json (rq_Executors q))),
     (''vaultCiphertext'', JString (rq_VaultCiphertext q)), (''vaultNonce'', JString (rq_VaultNonce q)),
     (''vaultAlg'', JString (rq_VaultAlg q)),
     (''vaultUnlockDelayDays'', JNumber (dec_int (rq_VaultUnlockDelayDays q)))]"

text \<open>What a client can put into JSON: UTF-8 text and 64-bit integers.\<close>

definition request_writable :: "CreateWillRequest \<Rightarrow> bool" where
  "request_writable q \<longleftrightarrow>
     list_all (\<lambda>c. valid_utf8 (Clause_ID c) \<and> valid_utf8 (Clause_Text c) \<and> in_int64 (Clause_Index c)) (rq_Clauses q) \<and>
     list_all (\<lambda>b. valid_utf8 (Beneficiary_ID b) \<and> valid_utf8 (Beneficiary_Name b) \<and>
       valid_utf8 (Beneficiary_Email b) \<and> valid_utf8 (Relation b)) (rq_Beneficiaries q) \<and>
     list_all (\<lambda>x. valid_utf8 (Executor_ID x) \<and> valid_utf8 (Executor_Name x) \<and>
       valid_utf8 (Executor_Email x) \<and> valid_utf8 (FLT x)) (rq_Executors q) \<and>
     valid_utf8 (rq_VaultCiphertext q) \<and> valid_utf8 (rq_VaultNonce q) \<and> valid_utf8 (rq_VaultAlg q) \<and>
     in_int64 (rq_VaultUnlockDelayDays q)"

lemma into_elems_new:
  "list_all (\<lambda>x. f z (enc x) = Some x) xs \<Longrightarrow> into_elems z f [] (map enc xs) = Some xs"
  by (induction xs) auto

lemma into_slice_new:
  assumes "list_all (\<lambda>x. f z (enc x) = Some x) xs"
  obtains sl where "into_slice z f ([], 0) (JArray (map enc xs)) = Some sl" "slice_elems sl = xs"
proof (rule that)
  show "into_slice z f ([], 0) (JArray (map enc xs)) = Some (xs, length xs)"
    using into_elems_new [where f = f and z = z and enc = enc, OF assms] by (simp add: into_slice_def)
qed (simp add: slice_elems_def)

lemma json_depth_map: "(\<And>x. json_depth (enc x) \<le> n) \<Longrightarrow> foldr max (map json_depth (map enc xs)) 0 \<le> n"
  by (induction xs) auto

lemma decode_will_request:
  assumes "request_writable q"
  shows "decode_CreateWillRequest (json_text (will_request_json q)) = Some q"
proof -
  have depths: "json_depth (clause_json c) \<le> 1" "json_depth (beneficiary_json b) \<le> 1" "json_depth (executor_json x) \<le> 1" for c b x
    by (simp_all add: clause_json_def beneficiary_json_def executor_json_def)
  have "foldr max (map json_depth (map clause_json (rq_Clauses q))) 0 \<le> 1"
      "foldr max (map json_depth (map beneficiary_json (rq_Beneficiaries q))) 0 \<le> 1"
      "foldr max (map json_depth (map executor_json (rq_Executors q))) 0 \<le> 1"
    using json_depth_map depths by blast+
  then have depth: "json_depth (will_request_json q) \<le> 100" by (simp add: will_request_json_def)
  have ok: "json_ok (will_request_json q)"
    using assms by (auto simp: will_request_json_def request_writable_def list_all_iff clause_json_def beneficiary_json_def executor_json_def)
  obtain cs where cs: "into_slice zero_clause into_Clause ([], 0) (JArray (map clause_json (rq_Clauses q))) = Some cs" "slice_elems cs = rq_Clauses q"
    by (rule into_slice_new [of into_Clause zero_clause clause_json "rq_Clauses q"])
      (use assms in \<open>auto simp: request_writable_def list_all_iff into_Clause_def into_struct_def clause_json_def clause_fields_def into_string_def into_int_def\<close>)
  obtain bs where bs: "into_slice zero_beneficiary into_Beneficiary ([], 0) (JArray (map beneficiary_json (rq_Beneficiaries q))) = Some bs"
      "slice_elems bs = rq_Beneficiaries q"
    by (rule into_slice_new [of into_Beneficiary zero_beneficiary beneficiary_json "rq_Beneficiaries q"])
      (auto simp: list_all_iff into_Beneficiary_def into_struct_def beneficiary_json_def beneficiary_fields_def into_string_def)
  obtain xs where xs: "into_slice zero_executor into_Executor ([], 0) (JArray (map executor_json (rq_Executors q))) = Some xs"
      "slice_elems xs = rq_Executors q"
    by (rule into_slice_new [of into_Executor zero_executor executor_json "rq_Executors q"])
      (auto simp: list_all_iff into_Executor_def into_struct_def executor_json_def executor_fields_def into_string_def)
  have "into_CreateWillRequest z (will_request_json q) = Some q" for z
    using assms by (simp add: into_CreateWillRequest_def into_struct_def will_request_json_def will_request_fields_def
        request_writable_def into_string_def into_int_def cs bs xs)
  then show ?thesis unfolding decode_CreateWillRequest_def by (simp add: Unmarshal_text ok depth)
qed

end
