(* ===== verification/Number_Texts.thy ===== *)
theory Number_Texts
  imports Json_Numbers Go_Time
begin

text \<open>
  How \<open>encoding/json\<close> writes a \<open>float64\<close>: \<open>strconv\<close> takes as few digits as give the value back, of
  those the nearest, and a tie to the even digit.
\<close>

section \<open>The shortest digits\<close>

text \<open>
  \<open>decimal_point x\<close> is the \<open>k\<close> with \<open>10 ^ (k - 1) \<le> x < 10 ^ k\<close>, for an \<open>x\<close> that is not below \<open>10 ^ -400\<close>
  (no positive \<open>float64\<close> is).  \<open>nearest_digits x e\<close> are the digits down to the weight \<open>10 ^ e\<close>, if they
  give \<open>x\<close> back; 17 digits always do.
\<close>

definition float_digits :: nat where
  "float_digits = 400"

definition decimal_point :: "rat \<Rightarrow> int" where
  "decimal_point x = int (length (dec_pos \<lfloor>x * 10 ^ float_digits\<rfloor>)) - int float_digits"

definition nearest_digits :: "rat \<Rightarrow> int \<Rightarrow> int option" where
  "nearest_digits x e =
     (let y = x / scaled 1 e; lo = \<lfloor>y\<rfloor>; ok = (\<lambda>m. to_float64 (scaled m e) = x)
      in if ok lo \<and> ok (lo + 1) then Some (round_half_even y)
         else if ok lo then Some lo else if ok (lo + 1) then Some (lo + 1) else None)"

fun first_digits :: "rat \<Rightarrow> int \<Rightarrow> nat list \<Rightarrow> int \<times> int" where
  "first_digits x k [] = (round_half_even (x / scaled 1 (k - 17)), k - 17)"
| "first_digits x k (n # ns) = (case nearest_digits x (k - int n) of
       Some m \<Rightarrow> (m, k - int n) | None \<Rightarrow> first_digits x k ns)"

definition shortest_digits :: "rat \<Rightarrow> int \<times> int" where
  "shortest_digits x = first_digits x (decimal_point x) [1..<18]"

section \<open>Their text\<close>

text \<open>
  The digits \<open>ds\<close> with the point after the first \<open>p\<close> of them: plain, or with an exponent when the value
  is below \<open>1e-6\<close> or not below \<open>1e21\<close>.
\<close>

definition plain_text :: "string \<Rightarrow> int \<Rightarrow> string" where
  "plain_text ds p =
     (if p \<le> 0 then ''0.'' @ replicate (nat (- p)) (CHR ''0'') @ ds
      else if int (length ds) \<le> p then ds @ replicate (nat (p - int (length ds))) (CHR ''0'')
      else take (nat p) ds @ ''.'' @ drop (nat p) ds)"

definition exponent_text :: "string \<Rightarrow> int \<Rightarrow> string" where
  "exponent_text ds p =
     take 1 ds @ (if length ds = 1 then '''' else ''.'' @ drop 1 ds) @ ''e'' @
       (if p \<le> 0 then ''-'' @ dec_pos (1 - p) else ''+'' @ dec_pos (p - 1))"

definition float_text :: "rat \<Rightarrow> string" where
  "float_text x =
     (if x = 0 then ''0''
      else case shortest_digits \<bar>x\<bar> of (m, e) \<Rightarrow>
        (let ds = strip_zeros (dec_pos m); p = int (length (dec_pos m)) + e
         in (if x < 0 then ''-'' else '''') @
            (if \<bar>x\<bar> < 1 / 1000000 \<or> 1000000000000000000000 \<le> \<bar>x\<bar> then exponent_text ds p else plain_text ds p)))"

section \<open>It is a number\<close>

lemma scaled_powi: "scaled m e = of_int m * 10 powi e"
  by (simp add: scaled_def power_int_def field_simps)

lemma dec_pos_lower: "0 < n \<Longrightarrow> 10 ^ (length (dec_pos n) - 1) \<le> n"
proof (induction n rule: dec_pos.induct)
  case (1 n)
  show ?case
  proof (cases "n < 10")
    case False
    then have "10 ^ (length (dec_pos (n div 10)) - 1) \<le> n div 10" using 1 by simp
    moreover have "length (dec_pos (n div 10)) = Suc (length (dec_pos (n div 10)) - 1)"
      using dec_pos_reads [of "n div 10"] pos_imp_zdiv_nonneg_iff [of 10 n] False by (cases "dec_pos (n div 10)") auto
    ultimately have "10 ^ length (dec_pos (n div 10)) \<le> 10 * (n div 10)"
      by (metis mult_le_cancel_left_pos power_Suc zero_less_numeral)
    then show ?thesis using False by (simp add: dec_pos.simps [of n])
  qed (use 1 in \<open>simp add: dec_pos.simps [of n]\<close>)
qed

text \<open>The size of a \<open>float64\<close>: zero, or not below \<open>10 ^ -400\<close>.\<close>

definition float_sized :: "rat \<Rightarrow> bool" where
  "float_sized x \<longleftrightarrow> x = 0 \<or> 1 \<le> \<bar>x\<bar> * 10 ^ float_digits"

lemma decimal_point_lower:
  assumes "1 \<le> x * 10 ^ float_digits"
  shows "10 powi (decimal_point x - 1) \<le> x"
proof -
  let ?n = "\<lfloor>x * 10 ^ float_digits\<rfloor>"
  have pos: "0 < ?n" using assms by linarith
  then have len: "0 < length (dec_pos ?n)" using dec_pos_reads [of ?n] by simp
  have "(10 :: int) ^ (length (dec_pos ?n) - 1) \<le> ?n" by (rule dec_pos_lower [OF pos])
  then have "(10 :: rat) ^ (length (dec_pos ?n) - 1) \<le> of_int ?n"
    by (metis of_int_le_iff of_int_numeral of_int_power)
  also have "\<dots> \<le> x * 10 ^ float_digits" by simp
  finally have "10 ^ (length (dec_pos ?n) - 1) / 10 ^ float_digits \<le> x" by (simp add: field_simps)
  moreover have "(10 :: rat) powi (decimal_point x - 1) = 10 ^ (length (dec_pos ?n) - 1) / 10 ^ float_digits"
  proof -
    have "decimal_point x - 1 = int (length (dec_pos ?n) - 1) - int float_digits"
      using len by (simp add: decimal_point_def of_nat_diff del: length_greater_0_conv)
    then show ?thesis by (simp add: power_int_diff)
  qed
  ultimately show ?thesis by simp
qed

lemma digits_positive:
  assumes "1 \<le> x * 10 ^ float_digits" "e < decimal_point x"
  shows "1 \<le> x / scaled 1 e"
proof -
  have "(10 :: rat) powi e \<le> 10 powi (decimal_point x - 1)"
    by (rule power_int_increasing) (use assms(2) in simp_all)
  also have "\<dots> \<le> x" by (rule decimal_point_lower [OF assms(1)])
  finally show ?thesis by (simp add: scaled_powi)
qed

lemma round_half_even_ge_1: "1 \<le> y \<Longrightarrow> 1 \<le> round_half_even y"
  using le_floor_iff [of 1 y] by (auto simp: round_half_even_def Let_def)

lemma first_digits_positive:
  assumes "1 \<le> x * 10 ^ float_digits" "first_digits x (decimal_point x) ns = (m, e)" "\<forall>n \<in> set ns. 0 < n"
  shows "1 \<le> m"
  using assms(2,3)
proof (induction ns)
  case Nil
  then show ?case using round_half_even_ge_1 [OF digits_positive [OF assms(1)], of "decimal_point x - 17"] by auto
next
  case (Cons n ns)
  have "1 \<le> x / scaled 1 (decimal_point x - int n)" by (rule digits_positive [OF assms(1)]) (use Cons.prems(2) in simp)
  then have "1 \<le> m" if "nearest_digits x (decimal_point x - int n) = Some m" for m
    using that round_half_even_ge_1 [of "x / scaled 1 (decimal_point x - int n)"] le_floor_iff [of 1 "x / scaled 1 (decimal_point x - int n)"]
    by (auto simp: nearest_digits_def Let_def split: if_splits)
  then show ?case using Cons by (auto split: option.splits)
qed

lemma digits_until:
  "list_all is_digit ds \<Longrightarrow> r = [] \<or> \<not> is_digit (hd r) \<Longrightarrow> takeWhile is_digit (ds @ r) = ds \<and> dropWhile is_digit (ds @ r) = r"
  by (induction ds) (cases r; auto)+

definition digits_text :: "string \<Rightarrow> bool" where
  "digits_text ds \<longleftrightarrow> list_all is_digit ds \<and> ds \<noteq> []"

lemma some_digits_until:
  "digits_text ds \<Longrightarrow> r = [] \<or> \<not> is_digit (hd r) \<Longrightarrow> some_digits pre (ds @ r) = Some (pre @ ds, r)"
  using digits_until [of ds r] by (auto simp: digits_text_def some_digits_def split: list.split)

lemma json_number_parts:
  assumes i: "i = ''0'' \<or> digits_text i \<and> hd i \<noteq> CHR ''0''"
    and f: "f = [] \<or> (\<exists>ds. digits_text ds \<and> f = CHR ''.'' # ds)"
    and x: "x = [] \<or> (\<exists>s ds. s \<in> set ''+-'' \<and> digits_text ds \<and> x = [CHR ''e'', s] @ ds)"
  shows "json_number ((if neg then ''-'' else '''') @ i @ f @ x) = Some ((if neg then ''-'' else '''') @ i @ f @ x, [])"
proof -
  have dot: "\<not> is_digit (CHR ''.'')" "\<not> is_digit (CHR ''e'')" by (simp_all add: is_digit_def)
  have fx: "f @ x = [] \<or> \<not> is_digit (hd (f @ x))" and x': "x = [] \<or> \<not> is_digit (hd x)" using f x dot by auto
  have i': "i \<noteq> []" "hd i \<noteq> CHR ''-''" using i by (cases i; auto simp: digits_text_def is_digit_def)+
  have "number_sign ((if neg then ''-'' else '''') @ i @ f @ x) = ((if neg then ''-'' else ''''), i @ f @ x)"
    using i' by (cases i) (auto simp: number_sign_def)
  moreover have "number_int (i @ f @ x) = Some (i, f @ x)"
  proof (cases "i = ''0''")
    case False
    then have d: "digits_text i" "hd i \<noteq> CHR ''0''" using i by auto
    then show ?thesis using digits_until [OF _ fx, of i] by (cases i) (auto simp: number_int_def digits_text_def)
  qed (simp add: number_int_def)
  moreover have "number_frac (f @ x) = Some (f, x)"
  proof (cases "f = []")
    case True
    then show ?thesis using x by (auto simp: number_frac_def)
  next
    case False
    then obtain ds where "digits_text ds" "f = CHR ''.'' # ds" using f by auto
    then show ?thesis using some_digits_until [OF _ x'] by (simp add: number_frac_def)
  qed
  moreover have "number_exp x = Some (x, [])"
  proof (cases "x = []")
    case False
    then obtain s ds where p: "s \<in> set ''+-''" "digits_text ds" "x = [CHR ''e'', s] @ ds" using x by auto
    then have "some_digits [CHR ''e'', s] (ds @ []) = Some ([CHR ''e'', s] @ ds, [])" by (intro some_digits_until) auto
    then show ?thesis using p by (simp add: number_exp_def)
  qed (simp add: number_exp_def)
  ultimately show ?thesis by (simp add: json_number_def)
qed

lemma dec_pos_digits: "digits_text (dec_pos n)"
proof (cases "0 \<le> n")
  case True
  then show ?thesis using dec_pos_reads [of n] by (simp add: digits_text_def)
qed (simp add: dec_pos.simps [of n] digits_text_def dec_digit_zero is_digit_def)

lemma strip_zeros_digits:
  assumes "1 \<le> m"
  shows "digits_text (strip_zeros (dec_pos m))" "hd (strip_zeros (dec_pos m)) \<noteq> CHR ''0''"
proof -
  obtain c t where ct: "dec_pos m = c # t" "c \<noteq> CHR ''0''" using dec_pos_first [of m] assms by auto
  then obtain u where u: "strip_zeros (dec_pos m) = c # u"
    by (cases "\<forall>d \<in> set t. d = CHR ''0''") (auto simp: strip_zeros_def dropWhile_append)
  have "set (strip_zeros (dec_pos m)) \<subseteq> set (dec_pos m)" by (auto simp: strip_zeros_def dest: set_dropWhileD)
  then show "digits_text (strip_zeros (dec_pos m))" using dec_pos_digits [of m] u by (auto simp: digits_text_def list_all_iff)
  show "hd (strip_zeros (dec_pos m)) \<noteq> CHR ''0''" using u ct by simp
qed

lemma float_text_number:
  assumes "float_sized x"
  shows "json_number (float_text x) = Some (float_text x, [])"
proof (cases "x = 0")
  case True
  then show ?thesis using json_number_parts [of "''0''" "[]" "[]" False] by (simp add: float_text_def)
next
  case False
  obtain m e where me: "shortest_digits \<bar>x\<bar> = (m, e)" by fastforce
  have "1 \<le> \<bar>x\<bar> * 10 ^ float_digits" using assms False by (simp add: float_sized_def)
  then have m: "1 \<le> m" using first_digits_positive [of "\<bar>x\<bar>" "[1..<18]" m e] me by (simp add: shortest_digits_def)
  define ds p where "ds = strip_zeros (dec_pos m)" and "p = int (length (dec_pos m)) + e"
  have ds: "digits_text ds" "hd ds \<noteq> CHR ''0''" using strip_zeros_digits [OF m] by (simp_all add: ds_def)
  then have nz: "ds \<noteq> []" "list_all is_digit ds" by (simp_all add: digits_text_def)
  let ?g = "if x < 0 then ''-'' else ''''"
  have zeros: "list_all is_digit (replicate n (CHR ''0''))" for n by (simp add: list_all_iff is_digit_def)
  have "json_number (?g @ plain_text ds p) = Some (?g @ plain_text ds p, [])"
  proof -
    consider "p \<le> 0" | "0 < p" "int (length ds) \<le> p" | "0 < p" "p < int (length ds)" by linarith
    then show ?thesis
    proof cases
      case 1
      have "digits_text (replicate (nat (- p)) (CHR ''0'') @ ds)" using nz zeros by (simp add: digits_text_def)
      then show ?thesis using json_number_parts [of "''0''" "CHR ''.'' # replicate (nat (- p)) (CHR ''0'') @ ds" "[]" "x < 0"] 1
        by (simp add: plain_text_def)
    next
      case 2
      have "digits_text (ds @ replicate (nat (p - int (length ds))) (CHR ''0''))" using nz zeros by (simp add: digits_text_def)
      then show ?thesis using json_number_parts [of "ds @ replicate (nat (p - int (length ds))) (CHR ''0'')" "[]" "[]" "x < 0"] 2 ds nz
        by (simp add: plain_text_def)
    next
      case 3
      have "digits_text (take (nat p) ds)" "digits_text (drop (nat p) ds)" "hd (take (nat p) ds) = hd ds"
        using nz 3 by (auto simp: digits_text_def list_all_iff hd_take dest: in_set_takeD in_set_dropD)
      then show ?thesis using json_number_parts [of "take (nat p) ds" "CHR ''.'' # drop (nat p) ds" "[]" "x < 0"] 3 ds
        by (simp add: plain_text_def)
    qed
  qed
  moreover have "json_number (?g @ exponent_text ds p) = Some (?g @ exponent_text ds p, [])"
  proof -
    define f where "f = (if length ds = 1 then '''' else ''.'' @ drop 1 ds)"
    define z where "z = (if p \<le> 0 then ''-'' @ dec_pos (1 - p) else ''+'' @ dec_pos (p - 1))"
    have "digits_text (take 1 ds) \<and> hd (take 1 ds) \<noteq> CHR ''0''" using ds nz by (cases ds) (auto simp: digits_text_def)
    moreover have "f = [] \<or> (\<exists>fs. digits_text fs \<and> f = CHR ''.'' # fs)"
      using nz by (cases ds; cases "tl ds") (auto simp: f_def digits_text_def)
    moreover have "\<exists>s ys. s \<in> set ''+-'' \<and> digits_text ys \<and> ''e'' @ z = [CHR ''e'', s] @ ys"
      using dec_pos_digits by (auto simp: z_def)
    ultimately show ?thesis using json_number_parts [of "take 1 ds" f "''e'' @ z" "x < 0"]
      unfolding exponent_text_def f_def [symmetric] z_def [symmetric] by simp
  qed
  ultimately show ?thesis using False by (simp add: float_text_def me Let_def ds_def [symmetric] p_def [symmetric])
qed

end
