(* ===== verification/Json_Answers.thy ===== *)
theory Json_Answers
  imports Death_Trigger Number_Texts
begin

text \<open>
  What \<open>respondJSON\<close> writes: the values the handlers answer with, as \<open>encoding/json\<close> marshals them.  A
  time that came from the database is in the zone of the server, one the program made is in UTC.
\<close>

section \<open>Times\<close>

text \<open>The offset of the server's zone at an instant, in seconds east of UTC.\<close>

type_synonym zone = "gotime \<Rightarrow> int"

definition zone_minutes :: "int \<Rightarrow> int" where
  "zone_minutes off = go_div off 60"

definition zone_text :: "int \<Rightarrow> string" where
  "zone_text off = (if off = 0 then ''Z''
     else let m = zone_minutes off
       in (if m < 0 then ''-'' else ''+'') @ pad_dec 2 (\<bar>m\<bar> div 60) @ '':'' @ pad_dec 2 (\<bar>m\<bar> mod 60))"

text \<open>\<open>Time.MarshalJSON\<close>: RFC 3339 wants a year of four digits and an offset of less than a day.\<close>

definition time_json :: "int \<Rightarrow> gotime \<Rightarrow> json option" where
  "time_json off t =
     (let here = GoTime (wsec t + off) (wnsec t)
      in if 0 \<le> fst (date_of here) \<and> fst (date_of here) < 10000 \<and> \<bar>zone_minutes off\<bar> < 1440
         then Some (JString (butlast (RFC3339Nano here) @ zone_text off)) else None)"

definition local_json :: "zone \<Rightarrow> gotime \<Rightarrow> json option" where
  "local_json zone t = time_json (zone t) t"

section \<open>The structs\<close>

text \<open>The handlers' slices are nil when they are empty.\<close>

definition slice_json :: "json list \<Rightarrow> json" where
  "slice_json js = (if js = [] then JNull else JArray js)"

text \<open>A member with \<open>omitempty\<close>: nothing for a nil pointer, an empty string or a zero.\<close>

definition ptr_member :: "string \<Rightarrow> ('a \<Rightarrow> json option) \<Rightarrow> 'a option \<Rightarrow> (string \<times> json) list option" where
  "ptr_member k f v = (case v of None \<Rightarrow> Some [] | Some x \<Rightarrow> map_option (\<lambda>j. [(k, j)]) (f x))"

definition text_member :: "string \<Rightarrow> string \<Rightarrow> (string \<times> json) list" where
  "text_member k s = (if s = '''' then [] else [(k, JString s)])"

definition int_json :: "int \<Rightarrow> json" where
  "int_json n = JNumber (dec_int n)"

definition claims_json :: "IdentityClaims \<Rightarrow> json" where
  "claims_json c = JObject [(''RealMeFLT'', JString (RealMeFLT c)), (''FullName'', JString (FullName c)),
     (''AssuranceLevel'', JString (AssuranceLevel c)), (''IsVerified'', JBool (IsVerified c))]"

definition clause_answer :: "Clause \<Rightarrow> json" where
  "clause_answer c = JObject [(''id'', JString (Clause_ID c)), (''text'', JString (Clause_Text c)),
     (''index'', int_json (Clause_Index c))]"

definition beneficiary_answer :: "Beneficiary \<Rightarrow> json" where
  "beneficiary_answer b = JObject [(''id'', JString (Beneficiary_ID b)), (''name'', JString (Beneficiary_Name b)),
     (''email'', JString (Beneficiary_Email b)), (''relation'', JString (Relation b))]"

definition executor_json_answer :: "Executor \<Rightarrow> json" where
  "executor_json_answer x = JObject [(''id'', JString (Executor_ID x)), (''name'', JString (Executor_Name x)),
     (''email'', JString (Executor_Email x)), (''flt'', JString (FLT x))]"

definition signature_answer :: "zone \<Rightarrow> WitnessSignature \<Rightarrow> json option" where
  "signature_answer zone s = do {
     t \<leftarrow> local_json zone (SignedAt s);
     Some (JObject [(''witness'', claims_json (Witness s)), (''signedAt'', t), (''payloadHash'', JString (WS_PayloadHash s))])
   }"

definition asset_answer :: "DigitalAssetClause \<Rightarrow> json" where
  "asset_answer c = JObject [(''id'', JString (DA_ID c)), (''willId'', JString (DA_WillID c)),
     (''clauseIndex'', int_json (DA_ClauseIndex c)), (''assetType'', JString (asset_text (AssetType c))),
     (''platform'', JString (Platform c)), (''identifier'', JString (DA_Identifier c)),
     (''instruction'', JString (Instruction c)), (''beneficiaryId'', JString (DA_BeneficiaryID c))]"

definition property_answer :: "(gotime \<Rightarrow> json option) \<Rightarrow> PropertyClause \<Rightarrow> json option" where
  "property_answer time c = do {
     checked \<leftarrow> ptr_member ''linzVerifiedAt'' time (LINZVerifiedAt c);
     Some (JObject ([(''id'', JString (PC_ID c)), (''willId'', JString (PC_WillID c)),
       (''clauseIndex'', int_json (PC_ClauseIndex c)), (''titleReference'', JString (TitleReference c))] @ checked @
       (if LINZLandAreaM2 c = 0 then [] else [(''linzLandAreaM2'', JNumber (float_text (LINZLandAreaM2 c)))]) @
       text_member ''legalDescription'' (LegalDescription c) @ [(''beneficiaryId'', JString (PC_BeneficiaryID c))]))
   }"

definition entry_answer :: "zone \<Rightarrow> AuditEntry \<Rightarrow> json option" where
  "entry_answer zone e = do {
     t \<leftarrow> local_json zone (CreatedAt e);
     Some (JObject ([(''id'', JString (Entry_ID e)), (''willId'', JString (Entry_WillID e)),
       (''previousEntryId'', JString (PreviousEntryID e)), (''event'', JString (event_text (Event e)))] @
       text_member ''actorFlt'' (ActorFLT e) @ text_member ''payloadHash'' (PayloadHash e) @ [(''createdAt'', t)]))
   }"

definition will_answer :: "zone \<Rightarrow> Will \<Rightarrow> json option" where
  "will_answer zone w = do {
     let time = local_json zone;
     signed_at \<leftarrow> ptr_member ''testatorSignedAt'' time (TestatorSignedAt w);
     payload \<leftarrow> ptr_member ''testatorPayloadHash'' (Some \<circ> JString) (TestatorPayloadHash w);
     signatures \<leftarrow> those (map (signature_answer zone) (WitnessSignatures w));
     properties \<leftarrow> those (map (property_answer time) (PropertyClauses w));
     locked_at \<leftarrow> ptr_member ''lockedAt'' time (LockedAt w);
     superseded_by \<leftarrow> ptr_member ''supersededBy'' (Some \<circ> JString) (SupersededBy w);
     parent \<leftarrow> ptr_member ''parentWillId'' (Some \<circ> JString) (ParentWillID w);
     notified_at \<leftarrow> ptr_member ''deathNotifiedAt'' time (DeathNotifiedAt w);
     unlock_after \<leftarrow> ptr_member ''unlockAfter'' time (UnlockAfter w);
     unlocked_at \<leftarrow> ptr_member ''unlockedAt'' time (UnlockedAt w);
     confirmed_at \<leftarrow> ptr_member ''lastConfirmedAt'' time (LastConfirmedAt w);
     reminded_at \<leftarrow> ptr_member ''livenessNotifiedAt'' time (LivenessNotifiedAt w);
     Some (JObject ([(''id'', JString (Will_ID w)), (''testator'', claims_json (Testator w)),
       (''clauses'', slice_json (map clause_answer (Clauses w)))] @ signed_at @ payload @
       [(''witnessSignatures'', slice_json signatures),
        (''beneficiaries'', slice_json (map beneficiary_answer (Beneficiaries w))),
        (''executors'', slice_json (map executor_json_answer (Executors w))),
        (''digitalAssetClauses'', slice_json (map asset_answer (DigitalAssetClauses w))),
        (''propertyClauses'', slice_json properties), (''status'', JString (status_text (Status w)))] @
       locked_at @ superseded_by @ parent @ [(''isCodicil'', JBool (IsCodicil w))] @ notified_at @
       [(''vaultUnlockDelayDays'', int_json (VaultUnlockDelayDays w))] @ unlock_after @ unlocked_at @
       confirmed_at @ reminded_at @
       [(''vaultCiphertext'', JString (VaultCiphertext w)), (''vaultNonce'', JString (VaultNonce w)),
        (''vaultAlg'', JString (VaultAlg w)), (''auditNote'', JString (AuditNote w))]))
   }"

section \<open>The bodies\<close>

text \<open>U+2014.\<close>

definition dash :: string where
  "dash = [CHR 0xE2, CHR 0x80, CHR 0x94]"

definition ptr_json :: "('a \<Rightarrow> json option) \<Rightarrow> 'a option \<Rightarrow> json option" where
  "ptr_json f v = (case v of None \<Rightarrow> Some JNull | Some x \<Rightarrow> f x)"

text \<open>The keys of a map are written in order.  A property clause is answered as it was made, with its time in UTC.\<close>

definition body_json :: "zone \<Rightarrow> body \<Rightarrow> json option" where
  "body_json zone b = (case b of
       IdBody i \<Rightarrow> Some (JObject [(''id'', JString i)])
     | WillBody w \<Rightarrow> will_answer zone w
     | AssetBody c \<Rightarrow> Some (asset_answer c)
     | PropertyBody c \<Rightarrow> property_answer (time_json 0) c
     | AuditBody k es \<Rightarrow> map_option (\<lambda>js. JObject [(''entries'', slice_json js), (''willId'', JString k)])
         (those (map (entry_answer zone) es))
     | QueuedBody n \<Rightarrow> Some (JObject [
         (''note'', JString (''email delivery not yet implemented '' @ dash @ '' integrate an email provider here'')),
         (''queued'', int_json n)])
     | CoolingOffBody t \<Rightarrow> map_option (\<lambda>j. JObject [
         (''message'', JString ''vault is in the mandatory cooling-off period''), (''status'', JString ''death_notified''),
         (''unlockAfter'', j)]) (ptr_json (local_json zone) t)
     | SkippedBody t \<Rightarrow> map_option (\<lambda>j. JObject [
         (''lastReminderSentAt'', j), (''reason'', JString ''reminder already sent within the last 24 hours''),
         (''skipped'', JBool True)]) (ptr_json (local_json zone) t)
     | DispatchedBody \<Rightarrow> Some (JObject [(''dispatched'', JBool True),
         (''note'', JString (''email delivery not yet implemented '' @ dash @ '' wire in an email provider''))])
     | NotImplementedBody \<Rightarrow> Some (JObject [
         (''note'', JString (''bulk liveness check not yet implemented '' @ dash @
            '' add a repository query filtering on last_confirmed_at''))])
     | UnauthenticatedBody \<Rightarrow> Some (JObject [(''authenticated'', JBool False)])
     | IdentityBody flt name assurance verified \<Rightarrow> Some (JObject [(''authenticated'', JBool True),
         (''identity'', JObject [(''assurance'', JString assurance), (''flt'', JString flt),
            (''fullName'', JString name), (''isVerified'', JBool verified)])])
     | _ \<Rightarrow> None)"

text \<open>\<open>Encode\<close> ends the text with a newline; it writes nothing when a time cannot be marshalled.\<close>

definition body_text :: "zone \<Rightarrow> body \<Rightarrow> string option" where
  "body_text zone b = map_option (\<lambda>j. json_text j @ [CHR 0x0A]) (body_json zone b)"

section \<open>What a client reads\<close>

text \<open>An answer is valid JSON, and its first value is the one that was written.\<close>

lemma json_first_line:
  assumes "json_ok j" "json_depth j \<le> 100"
  shows "json_first (json_text j @ [CHR 0x0A]) = Some j"
  using json_value_reads [of j maxNestingDepth "[CHR 0x0A]"] skip_start [OF json_text_start, of j "[CHR 0x0A]"] assms
  by (simp add: json_first_def number_stop_def is_digit_def maxNestingDepth_def)

lemma ascii_digits: "list_all is_digit s \<Longrightarrow> list_all (\<lambda>c. byte c < 0x80) s"
  by (auto simp: is_digit_def list_all_iff)

lemma time_text_ascii: "list_all (\<lambda>c. byte c < 0x80) (butlast (RFC3339Nano t) @ zone_text off)"
proof -
  note pads = ascii_digits [OF pad_dec_digits] ascii_digits [OF dec_pos_digits [unfolded digits_text_def, THEN conjunct1]]
  have "list_all (\<lambda>c. byte c < 0x80) (year_text y)" for y
    using pads by (auto simp: year_text_def Let_def)
  moreover have "list_all (\<lambda>c. byte c < 0x80) (frac_text n)" for n
    using pads(1) [of 9 n] strip_zeros_set [of "pad_dec 9 n"] by (auto simp: frac_text_def list_all_iff)
  ultimately have "list_all (\<lambda>c. byte c < 0x80) (RFC3339Nano t)"
    using pads(1) by (simp add: RFC3339Nano_def split: prod.split del: pad_dec.simps)
  then have "list_all (\<lambda>c. byte c < 0x80) (butlast (RFC3339Nano t))" by (auto simp: list_all_iff dest: in_set_butlastD)
  then show ?thesis using pads(1) by (simp add: zone_text_def Let_def del: pad_dec.simps)
qed

lemma time_json_ok: "time_json off t = Some j \<Longrightarrow> json_ok j \<and> json_depth j = 0"
  using valid_utf8_ascii [OF time_text_ascii] by (auto simp: time_json_def Let_def split: if_splits)

lemma time_json_utc:
  "(\<exists>j. time_json 0 t = Some j) \<longleftrightarrow> (let y = fst (year_yday (wsec t div 86400)) in 0 \<le> y \<and> y < 10000)"
proof -
  have "fst (date_of t) = fst (year_yday (wsec t div 86400))" for t by (simp add: date_of_def split: prod.split)
  then show ?thesis by (cases t) (simp add: time_json_def Let_def zone_minutes_def go_div_def)
qed

text \<open>
  A will whose texts are UTF-8, as in the columns of the database, and whose areas have the size of a
  \<open>float64\<close>.
\<close>

definition will_printable :: "Will \<Rightarrow> bool" where
  "will_printable w \<longleftrightarrow>
     list_all valid_utf8 [Will_ID w, RealMeFLT (Testator w), FullName (Testator w), AssuranceLevel (Testator w),
       status_text (Status w), VaultCiphertext w, VaultNonce w, VaultAlg w, AuditNote w] \<and>
     list_all (\<lambda>v. case v of None \<Rightarrow> True | Some t \<Rightarrow> valid_utf8 t) [TestatorPayloadHash w, SupersededBy w, ParentWillID w] \<and>
     list_all (\<lambda>c. valid_utf8 (Clause_ID c) \<and> valid_utf8 (Clause_Text c)) (Clauses w) \<and>
     list_all (\<lambda>b. valid_utf8 (Beneficiary_ID b) \<and> valid_utf8 (Beneficiary_Name b) \<and> valid_utf8 (Beneficiary_Email b) \<and>
       valid_utf8 (Relation b)) (Beneficiaries w) \<and>
     list_all (\<lambda>x. valid_utf8 (Executor_ID x) \<and> valid_utf8 (Executor_Name x) \<and> valid_utf8 (Executor_Email x) \<and>
       valid_utf8 (FLT x)) (Executors w) \<and>
     list_all (\<lambda>s. valid_utf8 (RealMeFLT (Witness s)) \<and> valid_utf8 (FullName (Witness s)) \<and>
       valid_utf8 (AssuranceLevel (Witness s)) \<and> valid_utf8 (WS_PayloadHash s)) (WitnessSignatures w) \<and>
     list_all (\<lambda>c. valid_utf8 (DA_ID c) \<and> valid_utf8 (DA_WillID c) \<and> valid_utf8 (asset_text (AssetType c)) \<and>
       valid_utf8 (Platform c) \<and> valid_utf8 (DA_Identifier c) \<and> valid_utf8 (Instruction c) \<and>
       valid_utf8 (DA_BeneficiaryID c)) (DigitalAssetClauses w) \<and>
     list_all (\<lambda>c. valid_utf8 (PC_ID c) \<and> valid_utf8 (PC_WillID c) \<and> valid_utf8 (TitleReference c) \<and>
       valid_utf8 (LegalDescription c) \<and> valid_utf8 (PC_BeneficiaryID c) \<and> float_sized (LINZLandAreaM2 c)) (PropertyClauses w)"

text \<open>Members that are well-formed, with values of limited depth.\<close>

definition members_ok :: "nat \<Rightarrow> (string \<times> json) list \<Rightarrow> bool" where
  "members_ok n ms \<longleftrightarrow> list_all (\<lambda>(k, v). valid_utf8 k \<and> json_ok v \<and> json_depth v \<le> n) ms"

lemma members_ok_simps [simp]:
  "members_ok n []" "members_ok n ((k, v) # ms) \<longleftrightarrow> valid_utf8 k \<and> json_ok v \<and> json_depth v \<le> n \<and> members_ok n ms"
  "members_ok n (xs @ ys) \<longleftrightarrow> members_ok n xs \<and> members_ok n ys"
  by (simp_all add: members_ok_def)

lemma object_ok: "members_ok n ms \<Longrightarrow> json_ok (JObject ms) \<and> json_depth (JObject ms) \<le> Suc n"
  by (induction ms) auto

lemma slice_ok:
  assumes "\<forall>j \<in> set js. json_ok j \<and> json_depth j \<le> n"
  shows "json_ok (slice_json js) \<and> json_depth (slice_json js) \<le> Suc n"
proof -
  have "foldr max (map json_depth js) 0 \<le> n" using assms by (induction js) auto
  then show ?thesis using assms by (simp add: slice_json_def list_all_iff)
qed

lemma ptr_member_ok:
  assumes "ptr_member k f v = Some ms" "valid_utf8 k" "\<And>x j. v = Some x \<Longrightarrow> f x = Some j \<Longrightarrow> json_ok j \<and> json_depth j \<le> n"
  shows "members_ok n ms"
  using assms by (auto simp: ptr_member_def split: option.splits)

lemma those_set: "those xs = Some ys \<Longrightarrow> \<forall>y \<in> set ys. Some y \<in> set xs"
  by (induction xs arbitrary: ys) (auto split: option.splits)

lemma property_answer_ok:
  assumes "property_answer time c = Some j" "\<And>t i. time t = Some i \<Longrightarrow> json_ok i \<and> json_depth i = 0"
    and "valid_utf8 (PC_ID c) \<and> valid_utf8 (PC_WillID c) \<and> valid_utf8 (TitleReference c) \<and>
       valid_utf8 (LegalDescription c) \<and> valid_utf8 (PC_BeneficiaryID c) \<and> float_sized (LINZLandAreaM2 c)"
  shows "json_ok j \<and> json_depth j \<le> 1"
proof -
  obtain ms where ms: "ptr_member ''linzVerifiedAt'' time (LINZVerifiedAt c) = Some ms"
    using assms(1) by (auto simp: property_answer_def bind_eq_Some_conv)
  have "members_ok 0 ms" by (rule ptr_member_ok [OF ms]) (use assms(2) in auto)
  then show ?thesis using assms(1,3) float_text_number [of "LINZLandAreaM2 c"] object_ok [of 0]
    by (auto simp: property_answer_def ms text_member_def int_json_def simp del: json_ok.simps(4) json_depth.simps(2))
qed

lemma signature_answer_ok:
  assumes "signature_answer zone s = Some j"
    and "valid_utf8 (RealMeFLT (Witness s)) \<and> valid_utf8 (FullName (Witness s)) \<and>
       valid_utf8 (AssuranceLevel (Witness s)) \<and> valid_utf8 (WS_PayloadHash s)"
  shows "json_ok j \<and> json_depth j \<le> 2"
proof -
  obtain i where "local_json zone (SignedAt s) = Some i" using assms(1) by (auto simp: signature_answer_def bind_eq_Some_conv)
  moreover from this have "json_ok i \<and> json_depth i = 0" unfolding local_json_def by (rule time_json_ok)
  ultimately show ?thesis using assms by (auto simp: signature_answer_def claims_json_def)
qed

lemma those_mapped:
  assumes "those (map f xs) = Some js" "\<And>x j. x \<in> set xs \<Longrightarrow> f x = Some j \<Longrightarrow> P j"
  shows "\<forall>j \<in> set js. P j"
  using those_set [OF assms(1)] assms(2) by force

text \<open>The members of a will's answer: those that are always there, and the optional ones.\<close>

lemma will_answer_parts:
  assumes "will_answer zone w = Some j"
  obtains a b sg pr c d e f g h i k where
    "ptr_member ''testatorSignedAt'' (local_json zone) (TestatorSignedAt w) = Some a"
    "ptr_member ''testatorPayloadHash'' (Some \<circ> JString) (TestatorPayloadHash w) = Some b"
    "those (map (signature_answer zone) (WitnessSignatures w)) = Some sg"
    "those (map (property_answer (local_json zone)) (PropertyClauses w)) = Some pr"
    "ptr_member ''lockedAt'' (local_json zone) (LockedAt w) = Some c"
    "ptr_member ''supersededBy'' (Some \<circ> JString) (SupersededBy w) = Some d"
    "ptr_member ''parentWillId'' (Some \<circ> JString) (ParentWillID w) = Some e"
    "ptr_member ''deathNotifiedAt'' (local_json zone) (DeathNotifiedAt w) = Some f"
    "ptr_member ''unlockAfter'' (local_json zone) (UnlockAfter w) = Some g"
    "ptr_member ''unlockedAt'' (local_json zone) (UnlockedAt w) = Some h"
    "ptr_member ''lastConfirmedAt'' (local_json zone) (LastConfirmedAt w) = Some i"
    "ptr_member ''livenessNotifiedAt'' (local_json zone) (LivenessNotifiedAt w) = Some k"
    "j = JObject ([(''id'', JString (Will_ID w)), (''testator'', claims_json (Testator w)),
       (''clauses'', slice_json (map clause_answer (Clauses w)))] @ a @ b @
       [(''witnessSignatures'', slice_json sg), (''beneficiaries'', slice_json (map beneficiary_answer (Beneficiaries w))),
        (''executors'', slice_json (map executor_json_answer (Executors w))),
        (''digitalAssetClauses'', slice_json (map asset_answer (DigitalAssetClauses w))),
        (''propertyClauses'', slice_json pr), (''status'', JString (status_text (Status w)))] @
       c @ d @ e @ [(''isCodicil'', JBool (IsCodicil w))] @ f @
       [(''vaultUnlockDelayDays'', int_json (VaultUnlockDelayDays w))] @ g @ h @ i @ k @
       [(''vaultCiphertext'', JString (VaultCiphertext w)), (''vaultNonce'', JString (VaultNonce w)),
        (''vaultAlg'', JString (VaultAlg w)), (''auditNote'', JString (AuditNote w))])"
  using assms unfolding will_answer_def Let_def bind_eq_Some_conv option.inject
  by (elim exE conjE) (rule that, assumption+, rule sym)

lemma will_answer_ok:
  assumes "will_answer zone w = Some j" "will_printable w"
  shows "json_ok j \<and> json_depth j \<le> 100"
proof -
  note printable = assms(2) [unfolded will_printable_def]
  have time: "\<And>t i. local_json zone t = Some i \<Longrightarrow> json_ok i \<and> json_depth i = 0"
    unfolding local_json_def by (rule time_json_ok)
  have signatures: "\<forall>j \<in> set js. json_ok j \<and> json_depth j \<le> 2"
    if "those (map (signature_answer zone) (WitnessSignatures w)) = Some js" for js
    by (rule those_mapped [OF that], erule signature_answer_ok) (use printable in \<open>simp add: list_all_iff\<close>)
  have properties: "\<forall>j \<in> set js. json_ok j \<and> json_depth j \<le> 2"
    if "those (map (property_answer (local_json zone)) (PropertyClauses w)) = Some js" for js
  proof (rule those_mapped [OF that])
    fix c j assume c: "c \<in> set (PropertyClauses w)" "property_answer (local_json zone) c = Some j"
    have "json_ok j \<and> json_depth j \<le> 1"
      by (rule property_answer_ok [OF c(2) time]) (use c(1) printable in \<open>simp_all add: list_all_iff\<close>)
    then show "json_ok j \<and> json_depth j \<le> 2" by simp
  qed
  have lists: "\<forall>j \<in> set (map clause_answer (Clauses w)). json_ok j \<and> json_depth j \<le> 2"
      "\<forall>j \<in> set (map beneficiary_answer (Beneficiaries w)). json_ok j \<and> json_depth j \<le> 2"
      "\<forall>j \<in> set (map executor_json_answer (Executors w)). json_ok j \<and> json_depth j \<le> 2"
      "\<forall>j \<in> set (map asset_answer (DigitalAssetClauses w)). json_ok j \<and> json_depth j \<le> 2"
    using printable by (simp_all add: list_all_iff clause_answer_def beneficiary_answer_def executor_json_answer_def
        asset_answer_def int_json_def)
  note slices = lists [THEN slice_ok] signatures [THEN slice_ok] properties [THEN slice_ok]
  have opt: "\<forall>v \<in> {TestatorPayloadHash w, SupersededBy w, ParentWillID w}. \<forall>x. v = Some x \<longrightarrow> valid_utf8 x"
    using printable by (auto simp del: not_None_eq)
  have claims: "json_ok (claims_json (Testator w)) \<and> json_depth (claims_json (Testator w)) \<le> 3"
    using printable by (simp add: claims_json_def)
  have time_member: "members_ok 3 ms" if "ptr_member k (local_json zone) v = Some ms" "valid_utf8 k" for k v ms
    by (rule ptr_member_ok [OF that]) (use time in simp)
  have text_member: "members_ok 3 ms" if "ptr_member k (Some \<circ> JString) v = Some ms" "valid_utf8 k"
      "v \<in> {TestatorPayloadHash w, SupersededBy w, ParentWillID w}" for k v ms
    by (rule ptr_member_ok [OF that(1,2)]) (use that(3) opt in auto)
  from assms(1) show ?thesis
  proof (rule will_answer_parts, goal_cases)
    case (1 a b sg pr c d e f g h i k)
    have "members_ok 3 a" "members_ok 3 b" "members_ok 3 c" "members_ok 3 d" "members_ok 3 e" "members_ok 3 f" "members_ok 3 g"
        "members_ok 3 h" "members_ok 3 i" "members_ok 3 k"
      by (rule time_member text_member, (rule 1), simp_all)+
    then have "\<exists>ms. j = JObject ms \<and> members_ok 3 ms"
      using claims slices 1(3,4) printable by (simp add: 1(13) int_json_def)
    then show ?thesis using object_ok [of 3] by fastforce
  qed
qed

text \<open>The vault, as a client reads it: the three members that hold it.\<close>

definition vault_fields :: "string list" where
  "vault_fields = [''vaultCiphertext'', ''vaultNonce'', ''vaultAlg'']"

definition into_vault :: "(string \<times> string \<times> string) into" where
  "into_vault = into_struct (\<lambda>(c, n, a) ms. do {
     c \<leftarrow> into_field vault_fields ''vaultCiphertext'' into_string c ms;
     n \<leftarrow> into_field vault_fields ''vaultNonce'' into_string n ms;
     a \<leftarrow> into_field vault_fields ''vaultAlg'' into_string a ms;
     Some (c, n, a)
   })"

definition read_vault :: "string \<Rightarrow> (string \<times> string \<times> string) option" where
  "read_vault = json_Decode into_vault ('''', '''', '''')"

lemma into_field_append: "into_field names n f old (xs @ ys) = do { new \<leftarrow> into_field names n f old xs; into_field names n f new ys }"
  by (induction names n f old xs rule: into_field.induct) (auto split: option.split)

lemma into_field_ptr:
  assumes "ptr_member k g v = Some ms" "field_of names k \<noteq> Some n"
  shows "into_field names n f old ms = Some old"
  using assms by (auto simp: ptr_member_def split: option.splits)

lemma field_of_vault_None:
  assumes "byte c < 0x80" "byte (upper c) \<noteq> 86"
  shows "field_of vault_fields (c # s) = None"
proof -
  have "fold_name (c # s) = upper c # fold_name s" using assms(1) by auto
  moreover have "byte (hd (fold_name n)) = 86" if "n \<in> set vault_fields" for n
    using that by (auto simp: vault_fields_def upper_def)
  moreover have other: "c # s \<notin> set vault_fields" using assms(2) by (auto simp: vault_fields_def upper_def)
  ultimately have "\<not> (\<exists>n. n \<in> set vault_fields \<and> fold_name n = fold_name (c # s))" using assms(2) by (metis list.sel(1))
  with other show ?thesis by (simp add: field_of_def find_None_iff del: fold_name.simps)
qed

text \<open>No other key of the answer names a field of the vault.\<close>

lemma vault_keys:
  "list_all (\<lambda>k. field_of vault_fields k = None) [
    ''id'', ''testator'', ''clauses'', ''testatorSignedAt'', ''testatorPayloadHash'', ''witnessSignatures'',
    ''beneficiaries'', ''executors'', ''digitalAssetClauses'', ''propertyClauses'', ''status'', ''lockedAt'',
    ''supersededBy'', ''parentWillId'', ''isCodicil'', ''deathNotifiedAt'', ''vaultUnlockDelayDays'',
    ''unlockAfter'', ''unlockedAt'', ''lastConfirmedAt'', ''livenessNotifiedAt'', ''auditNote'']"
  "list_all (\<lambda>k. field_of vault_fields k = Some k) vault_fields"
proof -
  have "field_of vault_fields ''vaultUnlockDelayDays'' = None" by (simp add: vault_fields_def field_of_def upper_def)
  then show "list_all (\<lambda>k. field_of vault_fields k = None) [
    ''id'', ''testator'', ''clauses'', ''testatorSignedAt'', ''testatorPayloadHash'', ''witnessSignatures'',
    ''beneficiaries'', ''executors'', ''digitalAssetClauses'', ''propertyClauses'', ''status'', ''lockedAt'',
    ''supersededBy'', ''parentWillId'', ''isCodicil'', ''deathNotifiedAt'', ''vaultUnlockDelayDays'',
    ''unlockAfter'', ''unlockedAt'', ''lastConfirmedAt'', ''livenessNotifiedAt'', ''auditNote'']" by (simp add: field_of_vault_None upper_def)
qed (simp add: vault_fields_def field_of_def)

lemma into_vault_will:
  assumes "will_answer zone w = Some j"
  shows "into_vault z j = Some (VaultCiphertext w, VaultNonce w, VaultAlg w)"
  using assms
proof (rule will_answer_parts, goal_cases)
  case 1
  note other = 1(1,2,5-12) [THEN into_field_ptr, of vault_fields]
  note keys = vault_keys [unfolded vault_fields_def list.pred_inject, folded vault_fields_def]
  show ?case
    unfolding 1(13)
    by (cases z) (simp add: into_vault_def into_struct_def into_field_append other keys into_string_def)
qed

text \<open>The instants of a will; it can be answered when each has a year of four digits where the server is.\<close>

definition will_times :: "Will \<Rightarrow> gotime option list" where
  "will_times w = [TestatorSignedAt w, LockedAt w, DeathNotifiedAt w, UnlockAfter w, UnlockedAt w, LastConfirmedAt w,
     LivenessNotifiedAt w] @ map (\<lambda>s. Some (SignedAt s)) (WitnessSignatures w) @ map LINZVerifiedAt (PropertyClauses w)"

definition answerable :: "zone \<Rightarrow> Will \<Rightarrow> bool" where
  "answerable zone w \<longleftrightarrow> will_printable w \<and>
     list_all (\<lambda>v. case v of None \<Rightarrow> True | Some t \<Rightarrow> local_json zone t \<noteq> None) (will_times w)"

lemma those_total: "(\<And>x. x \<in> set xs \<Longrightarrow> f x \<noteq> None) \<Longrightarrow> \<exists>ys. those (map f xs) = Some ys"
  by (induction xs) fastforce+

lemma bind_total: "x \<noteq> None \<Longrightarrow> (\<And>y. \<exists>z. f y = Some z) \<Longrightarrow> \<exists>z. Option.bind x f = Some z"
  by (cases x) auto

lemma will_answer_total:
  assumes "answerable zone w"
  shows "\<exists>j. will_answer zone w = Some j"
proof -
  have texts: "\<exists>ms. ptr_member k (Some \<circ> JString) v = Some ms" for k v
    by (cases v) (simp_all add: ptr_member_def)
  have all: "\<forall>v \<in> set (will_times w). \<forall>t. v = Some t \<longrightarrow> (\<exists>j. local_json zone t = Some j)"
    using assms by (auto simp: answerable_def list_all_iff)
  have times: "\<exists>ms. ptr_member k (local_json zone) v = Some ms" if "v \<in> set (will_times w)" for k v
    using all that by (cases v) (auto simp: ptr_member_def)
  have "\<exists>js. those (map (signature_answer zone) (WitnessSignatures w)) = Some js"
  proof (rule those_total)
    fix s assume "s \<in> set (WitnessSignatures w)"
    then have "Some (SignedAt s) \<in> set (will_times w)" by (simp add: will_times_def)
    then obtain j where "local_json zone (SignedAt s) = Some j" using all by blast
    then show "signature_answer zone s \<noteq> None" by (simp add: signature_answer_def)
  qed
  moreover have "\<exists>js. those (map (property_answer (local_json zone)) (PropertyClauses w)) = Some js"
  proof (rule those_total)
    fix c assume "c \<in> set (PropertyClauses w)"
    then have "LINZVerifiedAt c \<in> set (will_times w)" by (simp add: will_times_def)
    then obtain ms where "ptr_member ''linzVerifiedAt'' (local_json zone) (LINZVerifiedAt c) = Some ms" using times by blast
    then show "property_answer (local_json zone) c \<noteq> None" by (simp add: property_answer_def)
  qed
  moreover have "ptr_member k (local_json zone) v \<noteq> None" if "v \<in> {TestatorSignedAt w, LockedAt w, DeathNotifiedAt w,
      UnlockAfter w, UnlockedAt w, LastConfirmedAt w, LivenessNotifiedAt w}" for k v
    using times [of v k] that by (auto simp: will_times_def)
  moreover have "ptr_member k (Some \<circ> JString) v \<noteq> None" for k v using texts [of k v] by auto
  ultimately show ?thesis unfolding will_answer_def Let_def by (intro bind_total) simp_all
qed

lemma read_vault_answer:
  assumes "answerable zone w"
  obtains t where "body_text zone (WillBody w) = Some t" "read_vault t = Some (VaultCiphertext w, VaultNonce w, VaultAlg w)"
proof -
  obtain j where j: "will_answer zone w = Some j" using will_answer_total [OF assms] by blast
  then have "json_ok j \<and> json_depth j \<le> 100" using assms will_answer_ok by (simp add: answerable_def)
  then have "read_vault (json_text j @ [CHR 0x0A]) = Some (VaultCiphertext w, VaultNonce w, VaultAlg w)"
    using json_first_line [of j] by (simp add: read_vault_def json_Decode_def into_vault_will [OF j])
  then show ?thesis using that by (simp add: body_text_def body_json_def j)
qed

end
