(* ===== verification/Pagination.thy ===== *)
theory Pagination
  imports Go_Time "HOL-Library.List_Lexorder" "HOL-Library.Char_ord"
begin

text \<open>
  \<open>packages/nz-common/pagination\<close>: cursors and pages.  \<open>base64.RawURLEncoding\<close> and \<open>strconv.Atoi\<close> are
  written out; a call that panics has the value \<open>None\<close>.
\<close>

section \<open>Unpadded base64 with the URL alphabet\<close>

definition b64_char :: "nat \<Rightarrow> char" where
  "b64_char n = char_of (if n < 26 then 65 + n else if n < 52 then 71 + n else if n < 62 then n - 4
     else if n = 62 then 45 else 95)"

definition b64_value :: "char \<Rightarrow> nat option" where
  "b64_value c = (let n = of_char c in
     if 65 \<le> n \<and> n \<le> 90 then Some (n - 65) else if 97 \<le> n \<and> n \<le> 122 then Some (n - 71)
     else if 48 \<le> n \<and> n \<le> 57 then Some (n + 4) else if n = 45 then Some 62
     else if n = 95 then Some 63 else None)"

fun b64_sextets :: "nat list \<Rightarrow> nat list" where
  "b64_sextets [] = []"
| "b64_sextets [x] = [x div 4, x mod 4 * 16]"
| "b64_sextets [x, y] = [x div 4, x mod 4 * 16 + y div 16, y mod 16 * 4]"
| "b64_sextets (x # y # z # r) =
     [x div 4, x mod 4 * 16 + y div 16, y mod 16 * 4 + z div 64, z mod 64] @ b64_sextets r"

definition b64_EncodeToString :: "string \<Rightarrow> string" where
  "b64_EncodeToString s = map b64_char (b64_sextets (map of_char s))"

text \<open>
  Decoding: line breaks are skipped, a single left-over character is an error, the unused low bits of
  the last one are not looked at.
\<close>

fun b64_octets :: "nat list \<Rightarrow> nat list option" where
  "b64_octets [] = Some []"
| "b64_octets [a] = None"
| "b64_octets [a, b] = Some [a * 4 + b div 16]"
| "b64_octets [a, b, c] = Some [a * 4 + b div 16, b mod 16 * 16 + c div 4]"
| "b64_octets (a # b # c # d # r) =
     map_option ((@) [a * 4 + b div 16, b mod 16 * 16 + c div 4, c mod 4 * 64 + d]) (b64_octets r)"

definition b64_DecodeString :: "string \<Rightarrow> string option" where
  "b64_DecodeString s =
     (case those (map b64_value (filter (\<lambda>c. of_char c \<noteq> (10 :: nat) \<and> of_char c \<noteq> (13 :: nat)) s)) of
        None \<Rightarrow> None
      | Some vs \<Rightarrow> map_option (map char_of) (b64_octets vs))"

lemma b64_char_inverse:
  assumes "n < 64"
  shows "b64_value (b64_char n) = Some n" "of_char (b64_char n) \<noteq> (10 :: nat)" "of_char (b64_char n) \<noteq> (13 :: nat)"
  using assms by (auto simp: b64_char_def b64_value_def Let_def)

lemma sextet_bounds:
  "x < 256 \<Longrightarrow> x div 4 < (64 :: nat)" "y < 256 \<Longrightarrow> x mod 4 * 16 + y div 16 < (64 :: nat)"
  "z < 256 \<Longrightarrow> y mod 16 * 4 + z div 64 < (64 :: nat)" "x mod 4 * 16 < (64 :: nat)" "y mod 16 * 4 < (64 :: nat)"
  using mod_less_divisor [of 4 x] mod_less_divisor [of 16 y] less_mult_imp_div_less [of y 16 16]
    less_mult_imp_div_less [of z 4 64] less_mult_imp_div_less [of x 64 4] by linarith+

lemma sextets_bound: "list_all (\<lambda>x. x < 256) xs \<Longrightarrow> list_all (\<lambda>n. n < 64) (b64_sextets xs)"
  by (induction xs rule: b64_sextets.induct) (simp_all add: sextet_bounds)

lemma octets_sextets: "list_all (\<lambda>x. x < 256) xs \<Longrightarrow> b64_octets (b64_sextets xs) = Some xs"
proof (induction xs rule: b64_sextets.induct)
  case (4 x y z r)
  have "y div 16 < 16" "z div 64 < 4" using 4 by (simp_all add: less_mult_imp_div_less)
  then show ?case using 4 by simp
next
  case (3 x y)
  have "y div 16 < 16" using 3 by (simp add: less_mult_imp_div_less)
  then show ?case by simp
qed simp_all

lemma those_map: "list_all (\<lambda>x. f (g x) = Some x) xs \<Longrightarrow> those (map f (map g xs)) = Some xs"
  by (induction xs) simp_all

lemma b64_Decode_Encode [simp]: "b64_DecodeString (b64_EncodeToString s) = Some s"
proof -
  let ?xs = "map of_char s :: nat list"
  have xs: "list_all (\<lambda>x. x < 256) ?xs" by (simp add: list_all_iff nat_of_char_less_256)
  note sx = sextets_bound [OF xs]
  have "filter (\<lambda>c. of_char c \<noteq> (10 :: nat) \<and> of_char c \<noteq> (13 :: nat)) (b64_EncodeToString s) = b64_EncodeToString s"
    using sx b64_char_inverse by (auto simp: b64_EncodeToString_def filter_id_conv list_all_iff)
  moreover have "those (map b64_value (map b64_char (b64_sextets ?xs))) = Some (b64_sextets ?xs)"
    using sx b64_char_inverse(1) by (intro those_map) (auto simp: list_all_iff)
  ultimately show ?thesis
    by (simp add: b64_DecodeString_def b64_EncodeToString_def octets_sextets [OF xs] comp_def)
qed

interpretation cursor_codec: codec b64_EncodeToString "\<lambda>s. the (b64_DecodeString s)" "\<lambda>_. True"
  by unfold_locales simp

section \<open>\<open>strconv.Atoi\<close>\<close>

definition atoi_digits :: "string \<Rightarrow> int option" where
  "atoi_digits s = (if s = [] \<or> \<not> list_all is_digit s then None else Some (number_value s))"

definition strconv_Atoi :: "string \<Rightarrow> int option" where
  "strconv_Atoi s =
     (case (case s of
         c # r \<Rightarrow> if c = CHR ''-'' then map_option uminus (atoi_digits r)
                  else if c = CHR ''+'' then atoi_digits r else atoi_digits s
       | [] \<Rightarrow> None) of
        None \<Rightarrow> None
      | Some n \<Rightarrow> if in_int64 n then Some n else None)"

section \<open>Pages\<close>

definition defaultPageSize :: int where "defaultPageSize = 20"
definition maxPageSize :: int where "maxPageSize = 100"

record Page =
  After :: string
  Limit :: int

definition PageFromQuery :: "string \<Rightarrow> string \<Rightarrow> Page \<times> goerror option" where
  "PageFromQuery after limitStr =
     (let p = \<lparr>After = '''', Limit = defaultPageSize\<rparr>
      in case (if after \<noteq> ''''
               then (case b64_DecodeString after of
                   None \<Rightarrow> (p, Some (Wrap ''pagination: invalid cursor: '' (Errorf ''illegal base64 data'')))
                 | Some decoded \<Rightarrow> (p\<lparr>After := decoded\<rparr>, None))
               else (p, None)) of
           (p, Some e) \<Rightarrow> (p, Some e)
         | (p, None) \<Rightarrow>
             if limitStr \<noteq> ''''
             then (case strconv_Atoi limitStr of
                 None \<Rightarrow> (p, Some (Errorf ''pagination: limit must be a positive integer''))
               | Some n \<Rightarrow> if n < 1 then (p, Some (Errorf ''pagination: limit must be a positive integer''))
                   else (p\<lparr>Limit := (if n > maxPageSize then maxPageSize else n)\<rparr>, None))
             else (p, None))"

definition EncodeCursor :: "string \<Rightarrow> string" where
  "EncodeCursor v = b64_EncodeToString v"

record 'r Result =
  Items :: "'r list"
  NextCursor :: string
  HasMore :: bool

definition NewResult :: "'r list \<Rightarrow> int \<Rightarrow> ('r \<Rightarrow> string) \<Rightarrow> 'r Result option" where
  "NewResult items limit cursorKey =
     (let hasMore = (int (length items) > limit)
      in if hasMore \<and> limit < 0 then None
         else let items = (if hasMore then take (nat limit) items else items);
                  r = \<lparr>Items = items, NextCursor = '''', HasMore = hasMore\<rparr>
           in Some (if hasMore \<and> items \<noteq> [] then r\<lparr>NextCursor := EncodeCursor (cursorKey (last items))\<rparr> else r))"

definition IDCursorSQL :: "string \<Rightarrow> int \<Rightarrow> string \<times> string list" where
  "IDCursorSQL after paramIdx =
     (if after = '''' then ('''', [])
      else (''AND id > $'' @ dec_int paramIdx, [takeWhile (\<lambda>c. c \<noteq> CHR '':'') after]))"

section \<open>What a page guarantees\<close>

lemma PageFromQuery_bounds:
  "PageFromQuery after limitStr = (p, None) \<Longrightarrow> 1 \<le> Limit p \<and> Limit p \<le> 100"
  by (auto simp: PageFromQuery_def Let_def defaultPageSize_def maxPageSize_def
      split: if_splits option.splits prod.splits)

text \<open>The limit does not depend on the cursor, and the cursor gives back the key it was made from.\<close>

definition page_limit_of :: "string \<Rightarrow> int option" where
  "page_limit_of limitStr = (if limitStr = '''' then Some 20
     else (case strconv_Atoi limitStr of None \<Rightarrow> None | Some n \<Rightarrow> if n < 1 then None else Some (min n 100)))"

lemma EncodeCursor_simps [simp]:
  "b64_DecodeString (EncodeCursor v) = Some v" "EncodeCursor v = [] \<longleftrightarrow> v = []"
  by (simp_all add: EncodeCursor_def) (auto simp: b64_EncodeToString_def elim: b64_sextets.elims)

lemma PageFromQuery_EncodeCursor:
  "page_limit_of limitStr = Some n \<Longrightarrow> PageFromQuery (EncodeCursor v) limitStr = (\<lparr>After = v, Limit = n\<rparr>, None)"
  by (auto simp: PageFromQuery_def Let_def page_limit_of_def min_def defaultPageSize_def maxPageSize_def
      split: if_splits option.splits)

lemma PageFromQuery_start:
  "page_limit_of limitStr = Some n \<Longrightarrow> PageFromQuery '''' limitStr = (\<lparr>After = '''', Limit = n\<rparr>, None)"
  by (auto simp: PageFromQuery_def Let_def page_limit_of_def min_def defaultPageSize_def maxPageSize_def
      split: if_splits option.splits)

lemma page_limit_of_bounds: "page_limit_of limitStr = Some n \<Longrightarrow> 1 \<le> n \<and> n \<le> 100"
  by (auto simp: page_limit_of_def split: if_splits option.splits)

lemma NewResult_more:
  "0 < limit \<Longrightarrow> limit < int (length items) \<Longrightarrow> NewResult items limit key =
     Some \<lparr>Items = take (nat limit) items, NextCursor = EncodeCursor (key (last (take (nat limit) items))), HasMore = True\<rparr>"
  by (auto simp: NewResult_def Let_def)

lemma NewResult_all:
  "int (length items) \<le> limit \<Longrightarrow> NewResult items limit key = Some \<lparr>Items = items, NextCursor = '''', HasMore = False\<rparr>"
  by (auto simp: NewResult_def Let_def)

section \<open>Walking all pages\<close>

text \<open>
  The loop the package documents: ask for one row more than the limit, keyset order, rows after the
  cursor; go on from the next cursor while there is more.  The fuel bounds the number of requests.
\<close>

definition list_rows :: "('r \<Rightarrow> string) \<Rightarrow> 'r list \<Rightarrow> string \<Rightarrow> int \<Rightarrow> 'r list" where
  "list_rows key rows after n = take (nat n) (if after = '''' then rows else filter (\<lambda>r. after < key r) rows)"

primrec walk :: "nat \<Rightarrow> ('r \<Rightarrow> string) \<Rightarrow> 'r list \<Rightarrow> string \<Rightarrow> string \<Rightarrow> 'r list option" where
  "walk 0 key rows limitStr cursor = None"
| "walk (Suc fuel) key rows limitStr cursor =
     (case PageFromQuery cursor limitStr of
        (p, Some e) \<Rightarrow> None
      | (p, None) \<Rightarrow> (case NewResult (list_rows key rows (After p) (Limit p + 1)) (Limit p) key of
            None \<Rightarrow> None
          | Some r \<Rightarrow> if HasMore r
              then map_option ((@) (Items r)) (walk fuel key rows limitStr (NextCursor r))
              else Some (Items r)))"

lemma rows_after:
  fixes key :: "'r \<Rightarrow> string"
  assumes "sorted_wrt (<) (map key (xs @ y # ys))"
  shows "filter (\<lambda>r. key y < key r) (xs @ y # ys) = ys"
proof -
  have "\<forall>x \<in> set xs. key x < key y" "\<forall>z \<in> set ys. key y < key z"
    using assms by (auto simp: sorted_wrt_append)
  then have "filter (\<lambda>r. key y < key r) xs = []" "filter (\<lambda>r. key y < key r) ys = ys"
    by (auto simp: filter_empty_conv filter_id_conv dest: order.asym)
  then show ?thesis by simp
qed

lemma walk_all:
  assumes "page_limit_of limitStr = Some n" and "sorted_wrt (<) (map key rows)" and "'''' \<notin> key ` set rows"
    and "rows = pre @ post" and "fuel > length post"
    and "PageFromQuery cursor limitStr = (\<lparr>After = a, Limit = n\<rparr>, None)"
    and "if a = '''' then post = rows else filter (\<lambda>r. a < key r) rows = post"
  shows "walk fuel key rows limitStr cursor = Some post"
  using assms(4-)
proof (induction fuel arbitrary: pre post cursor a)
  case (Suc fuel)
  have n: "1 \<le> n" using page_limit_of_bounds [OF assms(1)] by simp
  have rows': "list_rows key rows a (n + 1) = take (Suc (nat n)) post"
    using Suc.prems(4) n by (simp add: list_rows_def nat_add_distrib split: if_splits)
  show ?case
  proof (cases "int (length post) \<le> n")
    case True
    then have "take (Suc (nat n)) post = post" by simp
    then show ?thesis using True by (simp add: Suc.prems(3) rows' NewResult_all)
  next
    case False
    let ?items = "take (nat n) post"
    have items: "?items \<noteq> []" using False n by auto
    have lim: "0 < n" "n < int (length (take (Suc (nat n)) post))" using False n by auto
    have take': "take (nat n) (take (Suc (nat n)) post) = ?items" by simp
    let ?y = "last ?items"
    have split: "rows = (pre @ butlast ?items) @ ?y # drop (nat n) post"
      using append_butlast_last_id [OF items] append_take_drop_id [of "nat n" post] Suc.prems(1)
      by (metis append.assoc append_Cons append_Nil)
    have "?y \<in> set rows" using split by (metis in_set_conv_decomp)
    then have y: "key ?y \<noteq> ''''" using assms(3) by (metis image_eqI)
    have rest: "filter (\<lambda>r. key ?y < key r) rows = drop (nat n) post"
      using rows_after [of key "pre @ butlast ?items" ?y "drop (nat n) post"] assms(2) split by simp
    have "walk fuel key rows limitStr (EncodeCursor (key ?y)) = Some (drop (nat n) post)"
    proof (rule Suc.IH)
      show "rows = (pre @ ?items) @ drop (nat n) post" using Suc.prems(1) by simp
      show "length (drop (nat n) post) < fuel" using Suc.prems(2) False n by simp
      show "PageFromQuery (EncodeCursor (key ?y)) limitStr = (\<lparr>After = key ?y, Limit = n\<rparr>, None)"
        by (rule PageFromQuery_EncodeCursor [OF assms(1)])
      show "if key ?y = '''' then drop (nat n) post = rows else filter (\<lambda>r. key ?y < key r) rows = drop (nat n) post"
        using y rest by simp
    qed
    then show ?thesis
      using NewResult_more [OF lim, of key] by (simp add: Suc.prems(3) rows' take')
  qed
qed simp

end
