(* ===== verification/Interleaving.thy ===== *)
theory Interleaving
  imports Lifecycle_Spec
begin

text \<open>
  What two requests can do to each other.  A service call reads, decides, and writes, with no lock in
  between; here the calls are cut at that point, and the halves of two calls alternate.  The one-
  active-will rule, which every call keeps on its own, is not kept by two calls of this kind.
\<close>

section \<open>The two halves of a call\<close>

definition Lock_read :: "WillID \<Rightarrow> world \<Rightarrow> (goerror + Will) \<times> world" where
  "Lock_read wid w = WillRepo_GetByID wid w"

definition Lock_write :: "WillID \<Rightarrow> gotime \<Rightarrow> Will \<Rightarrow> world \<Rightarrow> goerror option \<times> world" where
  "Lock_write wid lockedAt will w =
     (if Status will \<noteq> WillStatusDraft then (Some ErrInvalidState, w)
      else if TestatorSignedAt will = None \<or> length (WitnessSignatures will) < 2
      then (Some ErrInvalidState, w)
      else (case WillRepo_UpdateStatus wid WillStatusLocked (Some lockedAt) None w of
              (Some e, w) \<Rightarrow> (Some e, w)
            | (None, w) \<Rightarrow> (None, AuditService_Record wid AuditEventLocked (RealMeFLT (Testator will)) '''' w)))"

lemma Lock_halves:
  "WillService_Lock wid t w = (case Lock_read wid w of
     (Inl e, w) \<Rightarrow> (Some e, w) | (Inr will, w) \<Rightarrow> Lock_write wid t will w)"
  unfolding WillService_Lock_def Lock_read_def Lock_write_def by (rule refl)

definition Draft_read :: "IdentityClaims \<Rightarrow> CreateWillRequest \<Rightarrow> world \<Rightarrow> (goerror + Will \<times> WillID list) \<times> world" where
  "Draft_read testator req w =
     (case ValidateVault (rq_VaultCiphertext req) (rq_VaultNonce req) (rq_VaultAlg req) of
        Some e \<Rightarrow> (Inl e, w)
      | None \<Rightarrow>
     (case newWillID w of (wid, w) \<Rightarrow>
     (case buildWill wid testator req False None w of (will, w) \<Rightarrow>
     (case FindActiveByTestatorFLT (RealMeFLT testator) w of
        ((_, Some e), w) \<Rightarrow> (Inl e, w)
      | ((supersede, None), w) \<Rightarrow> (Inr (will, supersede), w)))))"

definition Draft_write :: "IdentityClaims \<Rightarrow> Will \<Rightarrow> WillID list \<Rightarrow> world \<Rightarrow> (goerror + WillID) \<times> world" where
  "Draft_write testator will supersede w =
     (case WillRepo_CreateDraft will supersede w of
        (Some e, w) \<Rightarrow> (Inl e, w)
      | (None, w) \<Rightarrow>
          (let w = AuditService_Record (Will_ID will) AuditEventCreated (RealMeFLT testator) '''' w
           in (Inr (Will_ID will), record_superseded supersede (RealMeFLT testator) (Will_ID will) w)))"

lemma buildWill_ID: "buildWill k t req c p w = (will, w') \<Longrightarrow> Will_ID will = k"
  by (erule buildWill_cases) simp

lemma Draft_halves:
  "WillService_CreateDraft t req w = (case Draft_read t req w of
     (Inl e, w) \<Rightarrow> (Inl e, w) | (Inr (will, sids), w) \<Rightarrow> Draft_write t will sids w)"
  by (auto simp: WillService_CreateDraft_def Draft_read_def Draft_write_def Let_def dest: buildWill_ID
      split: option.split prod.split)

section \<open>What a half does\<close>

lemma superseding_same [simp]:
  "wr_id (superseding k sids r) = wr_id r" "wr_is_codicil (superseding k sids r) = wr_is_codicil r"
  "wr_testator_flt (superseding k sids r) = wr_testator_flt r"
  by (simp_all add: superseding_def supersede_row_def)

lemma Draft_read_found:
  assumes "Draft_read t req w = (Inr (will, sids), w')"
  shows "sids = active_ids (RealMeFLT t) (w_db w)" "Testator will = t" "Status will = WillStatusDraft"
    "\<not> IsCodicil will" "w_db w' = w_db w"
proof -
  obtain k w1 where 1: "newWillID w = (k, w1)" by fastforce
  obtain x w2 where 2: "buildWill k t req False None w1 = (x, w2)" by fastforce
  have db: "w_db w1 = w_db w" "w_db w2 = w_db w1"
    using newID_keeps(1) [OF 1] buildWill_keeps [OF 2] by simp_all
  from assms have x: "x = will" and found: "FindActiveByTestatorFLT (RealMeFLT t) w2 = ((sids, None), w')"
    by (auto simp: Draft_read_def 1 2 split: option.splits prod.splits)
  show "sids = active_ids (RealMeFLT t) (w_db w)"
    using FindActive_None [OF found] by (simp add: active_ids_def db)
  show "w_db w' = w_db w" using FindActive_frame(1) [of "RealMeFLT t" w2] by (simp add: found db)
  show "Testator will = t" "Status will = WillStatusDraft" "\<not> IsCodicil will"
    using 2 x by (auto elim: buildWill_cases)
qed

lemma Draft_write_rows:
  assumes "Draft_write t will sids w = (Inr k, w')" "set sids \<subseteq> will_ids (w_db w)"
  shows "k = Will_ID will" "k \<notin> will_ids (w_db w)"
    "will_t (w_db w') = map (superseding k sids) (will_t (w_db w)) @ [will_row_of will]"
proof -
  obtain w1 where 1: "WillRepo_CreateDraft will sids w = (None, w1)"
    using assms(1) by (auto simp: Draft_write_def split: prod.splits option.splits)
  have k: "k = Will_ID will" and w': "w' = record_superseded sids (RealMeFLT t) (Will_ID will)
      (AuditService_Record (Will_ID will) AuditEventCreated (RealMeFLT t) '''' w1)"
    using assms(1) by (auto simp: Draft_write_def 1 Let_def)
  have "exec_all (draft_stmts will sids) (w_db w) = Inr (w_db w1)" using CreateDraft_effect [OF 1] by simp
  note eff = draft_effect [OF this assms(2)]
  have "audited\<^sup>*\<^sup>* (w_db w1) (w_db w')"
    unfolding w' by (rule rtranclp_trans [OF Record_audited record_superseded_audited])
  then obtain rows where "w_db w' = w_db w1\<lparr>audit_t := audit_t (w_db w1) @ rows\<rparr>" using audited_rows by blast
  with eff k show "k = Will_ID will" "k \<notin> will_ids (w_db w)"
    "will_t (w_db w') = map (superseding k sids) (will_t (w_db w)) @ [will_row_of will]" by simp_all
qed

lemma Lock_write_rows:
  assumes "Lock_write k t will w = (None, w')"
  shows "Status will = WillStatusDraft" "2 \<le> length (WitnessSignatures will)"
    "will_t (w_db w') = sql_update wr_id k (status_row (WillStatusLocked, Some t, None)) (will_t (w_db w))"
proof -
  show "Status will = WillStatusDraft" "2 \<le> length (WitnessSignatures will)"
    using assms by (auto simp: Lock_write_def split: if_splits)
  obtain w1 where 1: "WillRepo_UpdateStatus k WillStatusLocked (Some t) None w = (None, w1)"
    and w': "w' = AuditService_Record k AuditEventLocked (RealMeFLT (Testator will)) '''' w1"
    using assms by (auto simp: Lock_write_def split: if_splits prod.splits option.splits)
  have "w_db w1 = upd_will k (status_row (WillStatusLocked, Some t, None)) (w_db w)"
    using status_upd.success [of "(WillStatusLocked, Some t, None)" k w w1] 1 by simp
  moreover obtain rows where "w_db w' = w_db w1\<lparr>audit_t := audit_t (w_db w1) @ rows\<rparr>"
    unfolding w' using audit_svc.only_log by blast
  ultimately show "will_t (w_db w') = sql_update wr_id k (status_row (WillStatusLocked, Some t, None)) (will_t (w_db w))"
    by (simp add: upd_will_def)
qed

section \<open>Two calls at once\<close>

text \<open>
  Two drafts of one testator, both read before either writes: each supersedes what was active before,
  none the other.
\<close>

lemma two_drafts_at_once:
  assumes "Draft_read t req1 v1 = (Inr (a, sa), v1')" "Draft_read t req2 v2 = (Inr (b, sb), v2')"
    and "w_db v1 = d" "w_db v2 = d"
    and "Draft_write t a sa w1 = (Inr k, w1')" "w_db w1 = d"
    and "Draft_write t b sb w2 = (Inr j, w2')" "w_db w2 = w_db w1'"
  shows "k \<noteq> j" "{k, j} \<subseteq> set (active_ids (RealMeFLT t) (w_db w2'))"
proof -
  have sids: "set sa \<subseteq> will_ids d" "set sb \<subseteq> will_ids d"
    using Draft_read_found(1) [OF assms(1)] Draft_read_found(1) [OF assms(2)] assms(3,4) by simp_all
  note first = Draft_write_rows [OF assms(5), unfolded assms(6), OF sids(1)]
  have ids: "will_ids (w_db w1') = insert k (will_ids d)"
    unfolding will_ids_def first(3) by (simp add: image_image first(1) will_row_of_def)
  then have "set sb \<subseteq> will_ids (w_db w1')" using sids by auto
  note second = Draft_write_rows [OF assms(7), unfolded assms(8), OF this]
  show ne: "k \<noteq> j" using second(2) ids by auto
  have "will_row_of a \<in> set (will_t (w_db w1'))" using first(3) by simp
  moreover have "superseding j sb (will_row_of a) = will_row_of a"
    using sids(2) first(1,2) by (auto simp: superseding_def will_row_of_def)
  ultimately have "will_row_of a \<in> set (will_t (w_db w2'))" "will_row_of b \<in> set (will_t (w_db w2'))"
    unfolding second(3) by (metis UnI1 image_eqI list.set_map set_append, simp)
  moreover have "active_of (RealMeFLT t) (will_row_of a)" "active_of (RealMeFLT t) (will_row_of b)"
    using Draft_read_found [OF assms(1)] Draft_read_found [OF assms(2)] by (auto simp: active_of_def will_row_of_def)
  moreover have "wr_id (will_row_of a) = k" "wr_id (will_row_of b) = j"
    using first(1) second(1) by (simp_all add: will_row_of_def)
  ultimately show "{k, j} \<subseteq> set (active_ids (RealMeFLT t) (w_db w2'))"
    by (auto simp: active_ids_def rev_image_eqI)
qed

text \<open>
  A lock that read its will before a new will superseded it: the lock brings the superseded will back,
  beside the new one.
\<close>

lemma lock_revives_superseded:
  assumes "Lock_read k v = (Inr will, v')" "w_db v = d" "\<not> IsCodicil will"
    and "WillService_CreateDraft t req w1 = (Inr j, w1')" "w_db w1 = d" "RealMeFLT t = RealMeFLT (Testator will)"
    and "Lock_write k lockedAt will w2 = (None, w2')" "w_db w2 = w_db w1'"
  shows "k \<noteq> j" "{k, j} \<subseteq> set (active_ids (RealMeFLT t) (w_db w2'))"
proof -
  let ?f = "RealMeFLT t" let ?ids = "active_ids ?f d" let ?lock = "status_row (WillStatusLocked, Some lockedAt, None)"
  note lock = Lock_write_rows [OF assms(7), unfolded assms(8)]
  from assms(1) [unfolded Lock_read_def] obtain r where r: "find_will k d = Some r" "wr_id r = k"
      "Status will = status_of_text (wr_status r)" "RealMeFLT (Testator will) = wr_testator_flt r"
      "IsCodicil will = wr_is_codicil r"
    by (rule GetByID_Inr) (auto simp: will_of_row_def assms(2))
  have mem: "r \<in> set (will_t d)" using r(1) unfolding find_will_def by (rule will_tab.sel_mem)
  have act: "active_of ?f r" using lock(1) r assms(3,6) by (simp add: active_of_def status_reads)
  then have k: "k \<in> set ?ids" using mem r(2) by (auto simp: active_ids_def)
  obtain new where new: "Testator new = t" "Status new = WillStatusDraft" "\<not> IsCodicil new" "j = Will_ID new"
      "j \<notin> will_ids d" "will_t (w_db w1') = map (superseding j ?ids) (will_t d) @ [will_row_of new]"
    using CreateDraft_tables [OF assms(4)] by (auto simp: assms(5))
  show ne: "k \<noteq> j" using k new(5) active_ids_subset by blast
  have "?lock (superseding j ?ids r) \<in> set (will_t (w_db w2'))"
    unfolding lock(3) new(6) sql_update_def using mem r(2) by (auto intro!: image_eqI [of _ _ "superseding j ?ids r"])
  moreover have "will_row_of new \<in> set (will_t (w_db w2'))"
    unfolding lock(3) new(6) sql_update_def using ne new(4) by (auto simp: will_row_of_def)
  moreover have "active_of ?f (?lock (superseding j ?ids r))" "wr_id (?lock (superseding j ?ids r)) = k"
    using act r(2) by (simp_all add: active_of_def status_row_def)
  moreover have "active_of ?f (will_row_of new)" "wr_id (will_row_of new) = j"
    using new by (simp_all add: active_of_def will_row_of_def)
  ultimately show "{k, j} \<subseteq> set (active_ids ?f (w_db w2'))"
    by (auto simp: active_ids_def rev_image_eqI)
qed

lemma two_members: "x \<noteq> y \<Longrightarrow> {x, y} \<subseteq> set xs \<Longrightarrow> 2 \<le> length xs"
proof -
  assume "x \<noteq> y" "{x, y} \<subseteq> set xs"
  then have "card {x, y} \<le> card (set xs)" by (intro card_mono) simp_all
  with \<open>x \<noteq> y\<close> show ?thesis using card_length [of xs] by simp
qed

end
