(* ===== verification/Example_Platform.thy ===== *)
theory Example_Platform
  imports App_Stack Pagination Interleaving Example_Estate
begin

text \<open>
  Concrete stand-ins for the libraries the platform packages use, on which the properties are
  instantiated.  The token library writes the key and the claims as an encoded parameter list, and
  checks both when it reads them: it has the documented behaviour, on all claims (and no secrecy).
\<close>

section \<open>A token library\<close>

definition int_of_text :: "string \<Rightarrow> int" where
  "int_of_text s = (case s of c # r \<Rightarrow> if c = CHR ''-'' then - number_value r else number_value s | [] \<Rightarrow> 0)"

lemma int_of_dec_int [simp]: "int_of_text (dec_int n) = n"
proof (cases "n < 0")
  case True
  then show ?thesis using dec_pos_reads [of "- n"] by (simp add: int_of_text_def dec_int_def)
next
  case False
  then have pos: "number_value (dec_pos n) = n" "list_all is_digit (dec_pos n)" "dec_pos n \<noteq> []"
    using dec_pos_reads [of n] by simp_all
  then have "hd (dec_pos n) \<noteq> CHR ''-''" by (cases "dec_pos n") (auto simp: is_digit_def)
  then show ?thesis using False pos by (cases "dec_pos n") (simp_all add: int_of_text_def dec_int_def)
qed

definition time_text :: "gotime \<Rightarrow> string \<times> string" where
  "time_text t = (dec_int (wsec t), dec_int (wnsec t))"

definition time_of_text :: "string \<times> string \<Rightarrow> gotime" where
  "time_of_text p = GoTime (int_of_text (fst p)) (int_of_text (snd p))"

definition claim_pairs :: "identityClaims_jwt \<Rightarrow> (string \<times> string) list" where
  "claim_pairs c = [time_text (IssuedAt c), time_text (ExpiresAt c), (jc_FLT c, dec_int (jc_AssuranceLevel c)),
     (jc_SessionIndex c, jc_FullName c), (jc_DOB c, jc_PlaceOfBirth c), (jc_Gender c, AddressJSON c)]"

fun claims_of_pairs :: "(string \<times> string) list \<Rightarrow> identityClaims_jwt option" where
  "claims_of_pairs [i, x, (flt, l), (si, fn), (dob, pob), (g, addr)] =
     Some \<lparr>IssuedAt = time_of_text i, ExpiresAt = time_of_text x, jc_FLT = flt,
       jc_AssuranceLevel = int_of_text l, jc_SessionIndex = si, jc_FullName = fn, jc_DOB = dob,
       jc_PlaceOfBirth = pob, jc_Gender = g, AddressJSON = addr\<rparr>"
| "claims_of_pairs _ = None"

lemma time_of_time_text [simp]: "time_of_text (time_text t) = t"
  by (cases t) (simp add: time_of_text_def time_text_def)

lemma claims_of_claim_pairs [simp]: "claims_of_pairs (claim_pairs c) = Some c"
  by (simp add: claim_pairs_def)

definition pairs_text :: "(string \<times> string) list \<Rightarrow> string" where
  "pairs_text ps = strings_Join (map encode_pair ps) ''&''"

lemma ParseQuery_pairs_text [simp]: "url_ParseQuery (pairs_text ps) = ps"
  by (simp add: pairs_text_def ParseQuery_pairs)

definition plain_jwt :: "identityClaims_jwt jwt" where
  "plain_jwt = \<lparr>SignedString = (\<lambda>key c. Inr (pairs_text ((key, '''') # claim_pairs c))),
     ParseWithClaims = (\<lambda>kf now token. case url_ParseQuery token of
         (key, _) # ps \<Rightarrow> (case claims_of_pairs ps of
             None \<Rightarrow> Inl (Errorf ''malformed'')
           | Some c \<Rightarrow> if kf (SigningMethodHMAC ''HS256'') \<noteq> Inr key then Inl (Errorf ''signature'')
               else if now < ExpiresAt c then Inr c else Inl (Errorf ''expired''))
       | [] \<Rightarrow> Inl (Errorf ''malformed''))\<rparr>"

definition plain_lib :: session_lib where
  "plain_lib = \<lparr>sl_jwt = plain_jwt\<rparr>"

lemma plain_lib_parses [simp]: "jwt_parses_signed ExpiresAt claims_utf8 (sl_jwt plain_lib)"
  by (auto simp: jwt_parses_signed_def plain_lib_def plain_jwt_def)

section \<open>A service provider\<close>

definition ex_getenv :: "string \<Rightarrow> string" where
  "ex_getenv k = (if k = ''REALME_ENTITY_ID'' then ''https://w.nz/md'' else if k = ''REALME_ACS_URL'' then ''https://w.nz/acs''
     else if k = ''REALME_CERT_FILE'' then ''sp.crt'' else if k = ''REALME_KEY_FILE'' then ''sp.key''
     else if k = ''REALME_IDP_METADATA_URL'' then ''https://idp/md'' else if k = ''LINZ_API_KEY'' then ''k'' else '''')"

definition ex_config :: Config where
  "ex_config = realmeConfigFromEnv ex_getenv"

definition ex_store :: cookieSessionStore where
  "ex_store = newCookieSessionStore ex_config"

definition ex_loader :: loader where
  "ex_loader = \<lparr>LoadX509KeyPair = (\<lambda>c k. Inr \<lparr>kp_Leaf = Some ''leaf'', kp_RSA = True\<rparr>), os_ReadFile = Inr,
     http_Get = (\<lambda>u. Inr (200, [''<md/>''], Errorf ''EOF'')), xml_Unmarshal = Inr, url_Parse = Inr\<rparr>"

definition ex_provider :: Provider where
  "ex_provider = \<lparr>pv_cfg = ex_config, pv_sp = \<lparr>sp_EntityID = EntityID ex_config, sp_Certificate = ''leaf'',
       sp_MetadataURL = EntityID ex_config, sp_AcsURL = ACSURL ex_config, sp_IDPMetadata = ''<md/>'',
       sp_ForceAuthn = False, sp_AllowIDPInitiated = False\<rparr>, pv_store = ex_store\<rparr>"

lemma ex_config_simps:
  "EntityID ex_config = ''https://w.nz/md''" "ACSURL ex_config = ''https://w.nz/acs''" "CertFile ex_config = ''sp.crt''"
  "KeyFile ex_config = ''sp.key''" "IdPMetadataFile ex_config = ''''" "IdPMetadataURL ex_config = ''https://idp/md''"
  "\<not> ForceAuthn ex_config" "\<not> AllowIDPInitiated ex_config"
  by (simp_all add: ex_config_def realmeConfigFromEnv_def ex_getenv_def Let_def)

lemma ex_provider_starts [simp]: "NewProvider ex_loader ex_config [] = Inr ex_provider"
  by (simp add: NewProvider_def Config_Validate_def loadIdPMetadata_def ex_loader_def ex_provider_def ex_store_def
      ex_config_simps)

definition ex_assertion :: Assertion where
  "ex_assertion = \<lparr>AuthnStatements = [\<lparr>as_AuthnInstant = ex_time 0, as_SessionIndex = ''s'',
       as_ClassRef = Some ''ModStrength''\<rparr>],
     AttributeStatements = [[\<lparr>at_Name = AttrFLT, at_Values = [''ann'']\<rparr>,
       \<lparr>at_Name = AttrDateOfBirth, at_Values = [''1985-03-22'']\<rparr>,
       \<lparr>at_Name = AttrAddressCity, at_Values = [''Nelson'']\<rparr>]]\<rparr>"

definition ex_claims_for :: "string \<Rightarrow> identityClaims_jwt" where
  "ex_claims_for flt = \<lparr>IssuedAt = ex_time 0, ExpiresAt = ex_time 1000, jc_FLT = flt, jc_AssuranceLevel = 2,
     jc_SessionIndex = '''', jc_FullName = '''', jc_DOB = '''', jc_PlaceOfBirth = '''', jc_Gender = '''', AddressJSON = ''''\<rparr>"

text \<open>A token for anybody, written with the public key.\<close>

definition ex_token :: "string \<Rightarrow> string" where
  "ex_token flt = pairs_text ((EntityID ex_config, '''') # claim_pairs (ex_claims_for flt))"

lemma ex_token_signed [simp]: "SignedString (sl_jwt plain_lib) (EntityID ex_config) (ex_claims_for flt) = Inr (ex_token flt)"
  by (simp add: plain_lib_def plain_jwt_def ex_token_def)

lemma ex_token_valid [simp]: "ex_time 5 < ExpiresAt (ex_claims_for flt)" "jc_AssuranceLevel (ex_claims_for flt) = 2"
  by (simp_all add: ex_claims_for_def ex_time_def less_gotime_def)

lemma ex_claims_utf8 [simp]: "valid_utf8 flt \<Longrightarrow> claims_utf8 (ex_claims_for flt)"
  by (simp add: claims_utf8_def ex_claims_for_def)

lemma ex_token_session:
  "valid_utf8 flt \<Longrightarrow> GetSession plain_lib ex_store (ex_time 5) [(sessionCookieName ex_config, ex_token flt)] =
     Some (identity_of_claims (ex_claims_for flt))"
  unfolding ex_store_def by (rule forged_session) simp_all

lemma ex_ann_session:
  "GetSession plain_lib ex_store (ex_time 5) [(sessionCookieName ex_config, ex_token ''ann'')] =
     Some (identity_of_claims (ex_claims_for ''ann''))"
  by (rule ex_token_session) simp

text \<open>The answer to a title request: one parcel, with the text of its area.\<close>

definition ex_title :: PropertyBoundary where
  "ex_title = \<lparr>ParcelID = 1, Appellation = '''', pb_AreaSqm = 500, pb_LegalDesc = ''Lot 1'', pb_TitleNo = ''NA1''\<rparr>"

definition ex_title_answer :: "(PropertyBoundary \<times> string) list" where
  "ex_title_answer = [(ex_title, dec_int 500)]"

lemma ex_title_writable: "list_all parcel_writable ex_title_answer"
  using into_float_int [of 500 0] by (simp add: ex_title_answer_def parcel_writable_def ex_title_def in_int64_def)

definition ex_saml :: saml_lib where
  "ex_saml = \<lparr>HandleStartAuthFlow = (\<lambda>r. answer (respond 302 (RedirectTo ''https://idp''))),
     ParseResponse = (\<lambda>r. Inr ex_assertion), DefaultOnError = (\<lambda>e. http_Error ''Forbidden'' 403)\<rparr>"

definition ex_app :: app where
  "ex_app = \<lparr>ap_sessions = plain_lib,
     ap_saml = (\<lambda>sp. ex_saml), ap_metadata = (\<lambda>sp. (''<md/>'', None)),
     ap_auth = (\<lambda>r. \<lparr>aq_Path = in_Path r, aq_RawQuery = '''', aq_Cookies = [], aq_TLS = True, aq_Form = None\<rparr>),
     ap_cookie_text = ck_Value,
     ap_match = (\<lambda>routes r. case find (\<lambda>(v, prefix, p). v = in_Method r \<and> prefix @ p = in_Path r) routes of
       Some rt \<Rightarrow> RouteTo rt ''w''
     | None \<Rightarrow> Unrouted (http_Error ''404 page not found'' 404)),
     ap_cookies = (\<lambda>r. [(sessionCookieName ex_config, ex_token ''ann'')]), ap_uri = in_Path, ap_zone = (\<lambda>t. 0),
     ap_server = ex_server, ap_provider = ex_provider\<rparr>"

definition ex_env :: "db \<Rightarrow> env" where
  "ex_env d = \<lparr>ev_world = ex_at d, ev_log = [], ev_idem = []\<rparr>"

definition ex_http :: "string \<Rightarrow> string \<Rightarrow> url_values \<Rightarrow> http_in" where
  "ex_http meth path hs = \<lparr>in_Method = meth, in_Path = path, in_Header = hs, in_RemoteAddr = '''', in_Body = None, in_request_id = None\<rparr>"

text \<open>A will as it is posted; the cookie is the one above.\<close>

definition ex_will_post :: "CreateWillRequest \<Rightarrow> http_in" where
  "ex_will_post q = \<lparr>in_Method = ''POST'', in_Path = ''/api/wills'', in_Header = [], in_RemoteAddr = '''',
     in_Body = Some (json_text (will_request_json q)), in_request_id = None\<rparr>"

text \<open>A death notice as it is posted.\<close>

definition ex_notice_post :: http_in where
  "ex_notice_post = \<lparr>in_Method = ''POST'', in_Path = ''/webhooks/bdm/death'',
     in_Header = [(''X-Bdm-Signature'', ''sha256=key:'' @ ex_notice)], in_RemoteAddr = '''', in_Body = Some ex_notice,
     in_request_id = None\<rparr>"

lemma ex_posts:
  "in_Body (ex_will_post q) = Some (json_text (will_request_json q))"
  "ap_match ex_app (map fst main_routes) (ex_will_post q) = RouteTo (''POST'', ''/api/wills'', '''') ''w''"
  "in_Body ex_notice_post = Some ex_notice"
  "ap_match ex_app (map fst main_routes) ex_notice_post = RouteTo (''POST'', '''', ''/webhooks/bdm/death'') ''w''"
  by (simp_all add: ex_will_post_def ex_notice_post_def ex_app_def main_routes_def auth_routes_def will_routes_def)

lemma ex_session_now:
  "GetSession (ap_sessions ex_app) (pv_store (ap_provider ex_app)) (w_clock (ev_world (ex_env d)) 0) (ap_cookies ex_app r) =
     Some (identity_of_claims (ex_claims_for ''ann''))"
  using forged_session [OF plain_lib_parses ex_token_signed ex_claims_utf8, of "''ann''" "ex_time 0"]
  by (simp add: ex_app_def ex_provider_def ex_store_def ex_env_def ex_claims_for_def ex_time_def less_gotime_def)

lemma claims_flt [simp]: "RealMeFLT (claims flt) = flt"
  by (simp add: claims_def person_def identityClaims_def)

lemma ex_env_tables [simp]: "app_tables (ex_env d) = d"
  by (simp add: app_tables_def ex_env_def)

text \<open>An idempotency table that is served, and a handler that creates something.\<close>

definition ex_idem :: idem_db where
  "ex_idem = \<lparr>lookup_served = True, store_served = True, jsonb = Some\<rparr>"

definition ex_create :: handler where
  "ex_create r e = ([WriteHeader 201, WriteBody ''{}''], e)"

definition ex_post :: "string \<Rightarrow> string \<Rightarrow> http_in" where
  "ex_post path key = ex_http ''POST'' path [(''Idempotency-Key'', key)]"

lemma ex_post_simps [simp]:
  "in_Method (ex_post path key) = ''POST''" "values_Get ''Idempotency-Key'' (in_Header (ex_post path key)) = key"
  by (simp_all add: ex_post_def ex_http_def values_Get_def)

text \<open>The will of the opened estate can be written as JSON.\<close>

lemma ex_time_json:
  assumes "0 \<le> n" "n < 10"
  shows "\<exists>j. time_json 0 (ex_time n) = Some j"
proof -
  have "(63900000000 + n) div 86400 = 739583" using assms by simp
  then show ?thesis by (simp add: time_json_utc ex_time_def year_yday_def)
qed

lemma ex_time_timestamptz [simp]: "timestamptz (ex_time n) = ex_time n"
  by (simp add: ex_time_def timestamptz_def)

lemma ex_opened_answerable:
  "answerable (\<lambda>t. 0) (full_will ''w''
     ((upd_will ''w'' (status_row (WillStatusUnlockedDead, None, Some (ex_time 0))) (ex_notified_db (ex_time 0)))\<lparr>audit_t := rows\<rparr>)
     (status_row (WillStatusUnlockedDead, None, Some (ex_time 0)) (death_row (ex_time 4, ex_time 0) ex_locked_row)))"
  by (simp add: ex_will_def ex_draft_db_def ex_witness_def ex_locked_row_def ex_locked_db_def ex_notified_db_def empty_db_def
      claims_def person_def identityClaims_def death_row_def signed_row_def status_row_def will_row_of_def
      answerable_def will_printable_def will_times_def full_will_def stored_will_def will_of_row_def local_json_def
      upd_will_def executors_of_def signatures_of_def assets_of_def properties_of_def sql_where_def executor_of_row_def
      signature_of_row_def AssuranceLevel_String_def LevelVerified_def ex_time_json)

end
