(* ===== verification/Money.thy ===== *)
theory Money
  imports Go_Float
begin

text \<open>
  \<open>packages/nz-common/money\<close>: amounts in cents as \<open>int64\<close>.  An amount is an integer; arithmetic wraps.
\<close>

section \<open>Operations\<close>

type_synonym NZD = int

definition FromDollars :: "int \<Rightarrow> int \<Rightarrow> NZD" where
  "FromDollars dollars cents = wrap64 (wrap64 (dollars * 100) + cents)"

definition NZD_Dollars :: "NZD \<Rightarrow> int" where
  "NZD_Dollars m = go_div m 100"

definition NZD_Cents :: "NZD \<Rightarrow> int" where
  "NZD_Cents m = (let c = go_mod m 100 in if c < 0 then - c else c)"

text \<open>\<open>%02d\<close> of a value that is never negative and has at most two digits.\<close>

definition NZD_String :: "NZD \<Rightarrow> string" where
  "NZD_String m =
     (if m < 0
      then ''-NZD $'' @ dec_int (NZD_Dollars (wrap64 (- m))) @ ''.'' @ pad_dec 2 (NZD_Cents (wrap64 (- m)))
      else ''NZD $'' @ dec_int (NZD_Dollars m) @ ''.'' @ pad_dec 2 (NZD_Cents m))"

definition NZD_Add :: "NZD \<Rightarrow> NZD \<Rightarrow> NZD" where
  "NZD_Add m other = wrap64 (m + other)"

definition NZD_Sub :: "NZD \<Rightarrow> NZD \<Rightarrow> NZD" where
  "NZD_Sub m other = wrap64 (m - other)"

definition NZD_IsZero :: "NZD \<Rightarrow> bool" where
  "NZD_IsZero m \<longleftrightarrow> m = 0"

definition NZD_IsNegative :: "NZD \<Rightarrow> bool" where
  "NZD_IsNegative m \<longleftrightarrow> m < 0"

text \<open>The conversion, the product and the quotient each round to \<open>float64\<close>.\<close>

definition NZD_GST :: "NZD \<Rightarrow> NZD" where
  "NZD_GST m = math_Round (to_float64 (to_float64 (to_float64 (of_int m) * 3) / 23))"

definition NZD_ExGST :: "NZD \<Rightarrow> NZD" where
  "NZD_ExGST m = wrap64 (m - NZD_GST m)"

section \<open>Dollars and cents\<close>

lemma Dollars_nonneg: "0 \<le> m \<Longrightarrow> NZD_Dollars m = m div 100"
  by (cases "m = 0") (simp_all add: NZD_Dollars_def go_div_def)

lemma Cents_nonneg: "0 \<le> m \<Longrightarrow> NZD_Cents m = m mod 100"
  using Dollars_nonneg [of m] by (simp add: NZD_Cents_def go_mod_def NZD_Dollars_def minus_mult_div_eq_mod Let_def not_less)

lemma go_div_minus: "go_div (- m) n = - go_div m n"
  by (simp add: go_div_def)

lemma Cents_minus: "NZD_Cents (- m) = NZD_Cents m"
  by (simp add: NZD_Cents_def go_mod_def go_div_minus Let_def)

lemma Dollars_minus: "NZD_Dollars (- m) = - NZD_Dollars m"
  by (simp add: NZD_Dollars_def go_div_minus)

lemma Cents_abs: "NZD_Cents m = \<bar>m\<bar> mod 100"
  using Cents_nonneg [of m] Cents_nonneg [of "- m"] Cents_minus [of m] by (cases "0 \<le> m") auto

lemma Dollars_abs: "NZD_Dollars m = sgn m * (\<bar>m\<bar> div 100)"
  by (simp add: NZD_Dollars_def go_div_def)

lemma Cents_bounds: "0 \<le> NZD_Cents m" "NZD_Cents m < 100"
  by (simp_all add: Cents_abs)

lemma FromDollars_parts:
  assumes "0 \<le> m" "in_int64 m"
  shows "FromDollars (NZD_Dollars m) (NZD_Cents m) = m"
proof -
  have m: "m div 100 * 100 + m mod 100 = m" by simp
  have "in_int64 (m div 100 * 100)"
    unfolding in_int64_def
  proof
    show "- (2 ^ 63) \<le> m div 100 * 100" using assms(1) by (simp add: pos_imp_zdiv_nonneg_iff order_trans [of _ 0])
    have "m div 100 * 100 \<le> m" using m pos_mod_sign [of 100 m] by linarith
    then show "m div 100 * 100 < 2 ^ 63" using assms(2) by (simp add: in_int64_def)
  qed
  then show ?thesis
    using assms m by (simp add: FromDollars_def Dollars_nonneg Cents_nonneg)
qed

section \<open>The text of an amount\<close>

text \<open>What is printed is the whole and the rest of the magnitude; the least amount prints a second sign.\<close>

lemma NZD_String_pos:
  "0 \<le> m \<Longrightarrow> NZD_String m = ''NZD $'' @ dec_pos (m div 100) @ ''.'' @ pad_dec 2 (m mod 100)"
  by (simp add: NZD_String_def Dollars_nonneg Cents_nonneg dec_int_def pos_imp_zdiv_neg_iff not_less)

lemma NZD_String_neg:
  assumes "m < 0" "in_int64 m" "m \<noteq> - (2 ^ 63)"
  shows "NZD_String m = ''-NZD $'' @ dec_pos (- m div 100) @ ''.'' @ pad_dec 2 (- m mod 100)"
proof -
  have "in_int64 (- m)" using assms unfolding in_int64_def by linarith
  moreover have "0 \<le> - m" using assms(1) by simp
  ultimately show ?thesis using assms(1)
    by (simp add: NZD_String_def Dollars_nonneg Cents_nonneg dec_int_def pos_imp_zdiv_neg_iff not_less)
qed

lemma NZD_String_parts_inj:
  assumes "0 \<le> a" "0 \<le> b"
    and "dec_pos (a div 100) @ ''.'' @ pad_dec 2 (a mod 100) = dec_pos (b div 100) @ ''.'' @ pad_dec 2 (b mod 100)"
  shows "a = b"
proof -
  have "dec_pos (a div 100) @ ''.'' = dec_pos (b div 100) @ ''.'' \<and> pad_dec 2 (a mod 100) = pad_dec 2 (b mod 100)"
    using assms(3) by (subst (asm) append_assoc [symmetric], subst (asm) append_assoc [symmetric],
        subst (asm) append_eq_append_conv) simp_all
  then have "a div 100 = b div 100" "a mod 100 = b mod 100"
    using dec_pos_inj [of "a div 100" "b div 100"] pad_dec_inj [of "a mod 100" 2 "b mod 100"] assms(1,2)
    by (simp_all add: pos_imp_zdiv_nonneg_iff)
  then show ?thesis by (metis div_mult_mod_eq)
qed

lemma NZD_String_inj:
  assumes "in_int64 m" "in_int64 n" "m \<noteq> - (2 ^ 63)" "n \<noteq> - (2 ^ 63)" "NZD_String m = NZD_String n"
  shows "m = n"
proof (cases "m < 0"; cases "n < 0")
  assume "m < 0" "n < 0"
  then have "- m = - n"
    using assms by (intro NZD_String_parts_inj) (simp_all add: NZD_String_neg)
  then show ?thesis by simp
next
  assume "\<not> m < 0" "\<not> n < 0"
  then show ?thesis using assms by (intro NZD_String_parts_inj) (simp_all add: NZD_String_pos)
qed (use assms in \<open>simp_all add: NZD_String_pos NZD_String_neg\<close>)

section \<open>GST\<close>

text \<open>
  The reference: three twenty-thirds, rounded to the nearest cent (no tie is possible, the denominator
  being odd).  Up to \<open>2 ^ 50\<close> cents the conversion and the product are exact and the error of the
  quotient is below one sixty-fourth, while the quotient is at least one forty-sixth from a half.
\<close>

definition gst_exact :: "int \<Rightarrow> int" where
  "gst_exact m = sgn m * ((6 * \<bar>m\<bar> + 23) div 46)"

lemma gst_exact_near: "\<bar>3 * of_int m / 23 - of_int (gst_exact m)\<bar> \<le> (11 / 23 :: rat)"
proof -
  let ?a = "\<bar>m\<bar>" let ?k = "(6 * ?a + 23) div 46" let ?r = "(6 * ?a + 23) mod 46"
  have split: "46 * ?k + ?r = 6 * ?a + 23" by simp
  have r: "0 \<le> ?r" "?r < 46" by simp_all
  have "odd (46 * ?k + ?r)" unfolding split by simp
  then have "odd ?r" by (metis dvd_add dvd_mult2 even_numeral)
  then have r': "1 \<le> ?r" "?r \<le> 45" using r by (metis even_zero int_one_le_iff_zero_less order_le_less, simp)
  have "6 * ?a - 46 * ?k = ?r - 23" using split by linarith
  then have "\<bar>6 * ?a - 46 * ?k\<bar> \<le> 22" using r' by linarith
  then have "\<bar>6 * (of_int ?a :: rat) - 46 * of_int ?k\<bar> \<le> 22"
    by (metis (mono_tags, opaque_lifting) of_int_abs of_int_diff of_int_le_iff of_int_mult of_int_numeral)
  then have near: "\<bar>3 * (of_int ?a :: rat) / 23 - of_int ?k\<bar> \<le> 11 / 23" by (simp add: abs_le_iff field_simps)
  show ?thesis
  proof (cases m "0 :: int" rule: linorder_cases)
    case less
    have flip: "\<bar>x - y\<bar> = \<bar>- x - - y\<bar>" for x y :: rat by simp
    show ?thesis using near less by (subst flip) (simp add: gst_exact_def)
  next
    case equal
    then show ?thesis by (simp add: gst_exact_def)
  next
    case greater
    then show ?thesis using near by (simp add: gst_exact_def)
  qed
qed

lemma NZD_GST_exact:
  assumes "\<bar>m\<bar> \<le> 2 ^ 50"
  shows "NZD_GST m = gst_exact m"
proof -
  have conv: "to_float64 (of_int m) = of_int m" by (rule to_float64_int) (use assms in simp)
  have prod: "to_float64 (of_int m * 3) = of_int m * 3"
    using to_float64_int [of "m * 3"] assms by (simp add: abs_mult)
  let ?q = "of_int m * 3 / 23 :: rat"
  have "\<bar>of_int m :: rat\<bar> \<le> 2 ^ 50" using assms by (metis of_int_abs of_int_le_iff of_int_numeral of_int_power)
  then have "\<bar>?q\<bar> < 2 ^ 48" by (simp add: abs_mult)
  from to_float64_near [OF this] have err: "\<bar>to_float64 ?q - ?q\<bar> \<le> 1 / 64" by simp
  have "\<bar>?q - of_int (gst_exact m)\<bar> \<le> 11 / 23" using gst_exact_near [of m] by (simp add: mult.commute)
  with err have "\<bar>to_float64 ?q - of_int (gst_exact m)\<bar> < 1 / 2" by linarith
  then show ?thesis unfolding NZD_GST_def conv prod by (rule math_Round_unique)
qed

lemma gst_exact_le: "\<bar>gst_exact m\<bar> \<le> \<bar>m\<bar>"
proof -
  have "(6 * \<bar>m\<bar> + 23) div 46 \<le> \<bar>m\<bar>" "0 \<le> (6 * \<bar>m\<bar> + 23) div 46" by (simp_all add: pos_imp_zdiv_nonneg_iff)
  then show ?thesis by (auto simp: gst_exact_def abs_mult sgn_if)
qed

lemma NZD_ExGST_split:
  assumes "\<bar>m\<bar> \<le> 2 ^ 50"
  shows "NZD_ExGST m = m - gst_exact m" "NZD_Add (NZD_ExGST m) (NZD_GST m) = m"
proof -
  have "in_int64 (m - gst_exact m)" "in_int64 m"
    using assms gst_exact_le [of m] unfolding in_int64_def by auto
  then show "NZD_ExGST m = m - gst_exact m" "NZD_Add (NZD_ExGST m) (NZD_GST m) = m"
    by (simp_all add: NZD_ExGST_def NZD_GST_exact [OF assms] NZD_Add_def)
qed

end
