(* ===== verification/Concurrency.thy ===== *)
theory Concurrency
  imports Interleaving
begin

text \<open>
  All service calls at the granularity of their round trips.  A call reads the row of its will, then
  the rest of the will, decides, and runs one statement (or one transaction); audit entries follow.
  Any number of calls may be at any of these points, and the database takes their statements in any
  order.  What a call has read may be out of date by the time it writes.
\<close>

section \<open>The writing halves\<close>

datatype call =
    SignsTestator IdentityClaims string
  | SignsWitness IdentityClaims string
  | Locks gotime
  | Notifies int gotime
  | Unlocks gotime
  | Confirms IdentityClaims
  | AddsCodicil IdentityClaims CreateWillRequest
  | AddsAsset IdentityClaims DigitalAssetClause
  | AddsProperty "PropertyVerifier option" IdentityClaims string string

text \<open>What a call does after it has read the will \<open>k\<close> as \<open>will\<close>, up to its audit entries.\<close>

fun call_write :: "call \<Rightarrow> WillID \<Rightarrow> Will \<Rightarrow> world \<Rightarrow> goerror option \<times> world" where
  "call_write (SignsTestator signer h) k will w =
     (if Status will \<noteq> WillStatusDraft then (Some ErrInvalidState, w)
      else if RealMeFLT (Testator will) \<noteq> RealMeFLT signer then (Some ErrForbidden, w)
      else (case time_Now w of (now, w) \<Rightarrow> RecordTestatorSignature k h now w))"
| "call_write (SignsWitness witness h) k will w =
     (if Status will \<noteq> WillStatusDraft then (Some ErrInvalidState, w)
      else if RealMeFLT (Testator will) = RealMeFLT witness then (Some ErrForbidden, w)
      else if TestatorSignedAt will = None then (Some ErrInvalidState, w)
      else (case time_Now w of (now, w) \<Rightarrow> RecordWitnessSignature k h now witness w))"
| "call_write (Locks t) k will w =
     (if Status will \<noteq> WillStatusDraft then (Some ErrInvalidState, w)
      else if TestatorSignedAt will = None \<or> length (WitnessSignatures will) < 2 then (Some ErrInvalidState, w)
      else WillRepo_UpdateStatus k WillStatusLocked (Some t) None w)"
| "call_write (Notifies delay t) k will w =
     (if Status will \<noteq> WillStatusLocked then (Some ErrInvalidState, w)
      else if delay = 0 then WillRepo_UpdateStatus k WillStatusUnlockedDead None (Some t) w
      else WillRepo_NotifyDeath k t (time_AddDays t delay) w)"
| "call_write (Unlocks t) k will w =
     (if Status will \<noteq> WillStatusDeathNotified then (Some ErrInvalidState, w)
      else if (case UnlockAfter will of None \<Rightarrow> False | Some u \<Rightarrow> time_Before t u) then (Some ErrInvalidState, w)
      else WillRepo_UpdateStatus k WillStatusUnlockedDead None (Some t) w)"
| "call_write (Confirms testator) k will w =
     (if RealMeFLT (Testator will) \<noteq> RealMeFLT testator then (Some ErrForbidden, w)
      else if Status will = WillStatusSuperseded \<or> Status will = WillStatusUnlockedDead then (Some ErrInvalidState, w)
      else (case time_Now w of (now, w) \<Rightarrow> RecordLivenessConfirmation k now w))"
| "call_write (AddsCodicil testator req) k will w =
     (if Status will \<noteq> WillStatusLocked then (Some ErrInvalidState, w)
      else if RealMeFLT (Testator will) \<noteq> RealMeFLT testator then (Some ErrForbidden, w)
      else (case ValidateVault (rq_VaultCiphertext req) (rq_VaultNonce req) (rq_VaultAlg req) of
         Some e \<Rightarrow> (Some e, w)
       | None \<Rightarrow> (case newWillID w of (j, w) \<Rightarrow> (case buildWill j testator req True (Some k) w of (new, w) \<Rightarrow>
           WillRepo_CreateDraft (new\<lparr>AuditNote := ''codicil to '' @ k\<rparr>) [] w))))"
| "call_write (AddsAsset testator clause) k will w =
     (if Status will \<noteq> WillStatusDraft then (Some ErrInvalidState, w)
      else if RealMeFLT (Testator will) \<noteq> RealMeFLT testator then (Some ErrForbidden, w)
      else (case newChildID k ''da'' w of (i, w) \<Rightarrow> InsertDigitalAsset (clause\<lparr>DA_ID := i, DA_WillID := k\<rparr>) w))"
| "call_write (AddsProperty verifier testator titleRef beneficiaryID) k will w =
     (if Status will \<noteq> WillStatusDraft then (Some ErrInvalidState, w)
      else if RealMeFLT (Testator will) \<noteq> RealMeFLT testator then (Some ErrForbidden, w)
      else (case newChildID k ''prop'' w of (i, w) \<Rightarrow>
        let clause = zero_property\<lparr>PC_ID := i, PC_WillID := k, TitleReference := titleRef, PC_BeneficiaryID := beneficiaryID\<rparr>
        in case (case verifier of
                   None \<Rightarrow> (clause, w)
                 | Some verify \<Rightarrow> (case verify titleRef of
                       Inl _ \<Rightarrow> (clause, w)
                     | Inr data \<Rightarrow> (case time_Now w of (now, w) \<Rightarrow>
                         (clause\<lparr>LINZVerifiedAt := Some now, LINZLandAreaM2 := pvr_LINZLandAreaM2 data,
                            LegalDescription := pvr_LegalDescription data\<rparr>, w)))) of
             (clause, w) \<Rightarrow> InsertPropertyClause clause w))"

section \<open>Steps\<close>

text \<open>
  What the calls in flight hold: a row that was read, a whole will as it was read with the call it
  is for, a new will with the active wills that were read.  A reading is never dropped, so a call
  may also be taken up twice, which is more than the code does.
\<close>

datatype pending =
    Seen WillID will_row
  | Ready call WillID Will
  | Superseding IdentityClaims Will "WillID list"

inductive conc :: "db \<times> pending set \<Rightarrow> db \<times> pending set \<Rightarrow> bool" where
  conc_row: "find_will k d = Some r \<Longrightarrow> conc (d, P) (d, insert (Seen k r) P)"
| conc_will: "Seen k r \<in> P \<Longrightarrow> ws = take n (signatures_of k d) \<Longrightarrow>
    conc (d, P) (d, insert (Ready c k (will_of_row r cs bs es ws)) P)"
| conc_write: "Ready c k will \<in> P \<Longrightarrow> call_write c k will w = (e, w') \<Longrightarrow> w_db w = d \<Longrightarrow> conc (d, P) (w_db w', P)"
| conc_active: "Draft_read t req w = (Inr (will, sids), w') \<Longrightarrow> w_db w = d \<Longrightarrow>
    conc (d, P) (d, insert (Superseding t will sids) P)"
| conc_draft: "Superseding t will sids \<in> P \<Longrightarrow> WillRepo_CreateDraft will sids w = (e, w') \<Longrightarrow> w_db w = d \<Longrightarrow>
    conc (d, P) (w_db w', P)"
| conc_remind: "conc (d, P) (upd_will k (reminded_row t) d, P)"
| conc_audit: "INSERT_audit r d = Inr d' \<Longrightarrow> conc (d, P) (d', P)"

section \<open>Every call is a run of these steps\<close>

lemma audited_conc: "audited\<^sup>*\<^sup>* d d' \<Longrightarrow> conc\<^sup>*\<^sup>* (d, P) (d', P)"
proof (induction rule: rtranclp_induct)
  case (step d1 d2)
  then show ?case unfolding audited_def by (meson conc_audit rtranclp.rtrancl_into_rtrancl)
qed simp

lemma conc_read:
  assumes "WillRepo_GetByID k w = (Inr will, w')"
  shows "\<exists>P. conc\<^sup>*\<^sup>* (w_db w, P0) (w_db w, insert (Ready c k will) P) \<and> P0 \<subseteq> P"
proof -
  from assms obtain r cs bs es ws n where r: "find_will k (w_db w) = Some r" "will = will_of_row r cs bs es ws"
      "ws = take n (signatures_of k (w_db w))" by (rule GetByID_Inr)
  have "conc (w_db w, P0) (w_db w, insert (Seen k r) P0)" using r(1) by (rule conc_row)
  moreover have "conc (w_db w, insert (Seen k r) P0) (w_db w, insert (Ready c k will) (insert (Seen k r) P0))"
    unfolding r(2) by (rule conc_will [OF _ r(3)]) simp
  ultimately show ?thesis by (meson rtranclp.rtrancl_into_rtrancl rtranclp.rtrancl_refl subset_insertI)
qed

text \<open>A call that reads, writes, and then writes audit entries.\<close>

lemma conc_call:
  assumes "\<And>will w1. WillRepo_GetByID k w = (Inr will, w1) \<Longrightarrow> audited\<^sup>*\<^sup>* (w_db (snd (call_write c k will w1))) (w_db w')"
    and "\<And>e w1. WillRepo_GetByID k w = (Inl e, w1) \<Longrightarrow> w_db w' = w_db w1"
  shows "\<exists>P. conc\<^sup>*\<^sup>* (w_db w, {}) (w_db w', P)"
proof (cases "WillRepo_GetByID k w")
  case (Pair res w1)
  have db: "w_db w1 = w_db w" using GetByID_frame [of k w] Pair by simp
  show ?thesis
  proof (cases res)
    case (Inl e)
    then show ?thesis using assms(2) Pair db by (metis rtranclp.rtrancl_refl)
  next
    case (Inr will)
    obtain P where read: "conc\<^sup>*\<^sup>* (w_db w, {}) (w_db w, insert (Ready c k will) P)"
      using conc_read Pair Inr by blast
    obtain e w2 where wrt: "call_write c k will w1 = (e, w2)" by fastforce
    have "conc (w_db w, insert (Ready c k will) P) (w_db w2, insert (Ready c k will) P)"
      by (rule conc_write [OF _ wrt db]) simp
    moreover have "conc\<^sup>*\<^sup>* (w_db w2, insert (Ready c k will) P) (w_db w', insert (Ready c k will) P)"
      by (rule audited_conc) (use assms(1) Pair Inr wrt in force)
    ultimately show ?thesis using read by (meson converse_rtranclp_into_rtranclp rtranclp_trans)
  qed
qed

lemma SignTestator_conc: "\<exists>P. conc\<^sup>*\<^sup>* (w_db w, {}) (w_db (snd (WillService_SignTestator k c h w)), P)"
  by (rule conc_call [where k = k and c = "SignsTestator c h"])
    (auto simp: WillService_SignTestator_def Record_audited split: prod.split option.split)

lemma SignWitness_conc: "\<exists>P. conc\<^sup>*\<^sup>* (w_db w, {}) (w_db (snd (WillService_SignWitness k c h w)), P)"
  by (rule conc_call [where k = k and c = "SignsWitness c h"])
    (auto simp: WillService_SignWitness_def Record_audited split: prod.split option.split)

lemma Lock_conc: "\<exists>P. conc\<^sup>*\<^sup>* (w_db w, {}) (w_db (snd (WillService_Lock k t w)), P)"
  by (rule conc_call [where k = k and c = "Locks t"])
    (auto simp: WillService_Lock_def Record_audited split: prod.split option.split)

lemma NotifyDeath_conc: "\<exists>P. conc\<^sup>*\<^sup>* (w_db w, {}) (w_db (snd (WillService_NotifyDeath k n t w)), P)"
  by (rule conc_call [where k = k and c = "Notifies n t"])
    (auto simp: WillService_NotifyDeath_def Let_def Record_audited split: prod.split option.split)

lemma CompleteUnlock_conc: "\<exists>P. conc\<^sup>*\<^sup>* (w_db w, {}) (w_db (snd (WillService_CompleteUnlock k t w)), P)"
  by (rule conc_call [where k = k and c = "Unlocks t"])
    (auto simp: WillService_CompleteUnlock_def Record_audited split: prod.split option.split)

lemma ConfirmLiveness_conc: "\<exists>P. conc\<^sup>*\<^sup>* (w_db w, {}) (w_db (snd (WillService_ConfirmLiveness k c w)), P)"
  by (rule conc_call [where k = k and c = "Confirms c"])
    (auto simp: WillService_ConfirmLiveness_def Record_audited split: prod.split option.split)

lemma CreateCodicil_conc: "\<exists>P. conc\<^sup>*\<^sup>* (w_db w, {}) (w_db (snd (WillService_CreateCodicil k c req w)), P)"
  by (rule conc_call [where k = k and c = "AddsCodicil c req"])
    (auto simp: WillService_CreateCodicil_def Let_def split: prod.split option.split
      intro: rtranclp_trans [OF Record_audited Record_audited])

lemma AddDigitalAssetClause_conc: "\<exists>P. conc\<^sup>*\<^sup>* (w_db w, {}) (w_db (snd (WillService_AddDigitalAssetClause k c x w)), P)"
  by (rule conc_call [where k = k and c = "AddsAsset c x"])
    (auto simp: WillService_AddDigitalAssetClause_def Let_def split: prod.split)

lemma AddPropertyClause_conc: "\<exists>P. conc\<^sup>*\<^sup>* (w_db w, {}) (w_db (snd (WillService_AddPropertyClause v k c x b w)), P)"
  by (rule conc_call [where k = k and c = "AddsProperty v c x b"])
    (auto simp: WillService_AddPropertyClause_def Let_def split: prod.split option.split sum.split)

lemma Draft_read_frame: "w_db (snd (Draft_read t req w)) = w_db w"
proof -
  obtain k w1 where 1: "newWillID w = (k, w1)" by fastforce
  obtain x w2 where 2: "buildWill k t req False None w1 = (x, w2)" by fastforce
  show ?thesis using newID_keeps(1) [OF 1] buildWill_keeps [OF 2] FindActive_frame(1) [of "RealMeFLT t" w2]
    by (auto simp: Draft_read_def 1 2 split: option.split prod.split)
qed

lemma CreateDraft_conc: "\<exists>P. conc\<^sup>*\<^sup>* (w_db w, {}) (w_db (snd (WillService_CreateDraft t req w)), P)"
proof (cases "Draft_read t req w")
  case (Pair res w1)
  show ?thesis
  proof (cases res)
    case (Inl e)
    have "w_db w1 = w_db w" using Draft_read_frame [of t req w] Pair by simp
    then show ?thesis by (auto simp: Draft_halves Pair Inl)
  next
    case (Inr x)
    obtain will sids where x: "x = (will, sids)" by fastforce
    note read = Pair [unfolded Inr x]
    have db: "w_db w1 = w_db w" using Draft_read_frame [of t req w] Pair by simp
    obtain e w2 where draft: "WillRepo_CreateDraft will sids w1 = (e, w2)" by fastforce
    let ?P = "{Superseding t will sids}"
    have "conc (w_db w, {}) (w_db w, ?P)" by (rule conc_active [OF read refl])
    moreover have "conc (w_db w, ?P) (w_db w2, ?P)" by (rule conc_draft [OF _ draft db]) simp
    moreover have "audited\<^sup>*\<^sup>* (w_db w2) (w_db (snd (WillService_CreateDraft t req w)))"
      by (auto simp: Draft_halves read Draft_write_def draft Let_def split: option.split
          intro: rtranclp_trans [OF Record_audited record_superseded_audited])
    ultimately show ?thesis by (meson audited_conc converse_rtranclp_into_rtranclp)
  qed
qed

lemma RecordLivenessReminder_conc: "\<exists>P. conc\<^sup>*\<^sup>* (w_db w, {}) (w_db (snd (WillService_RecordLivenessReminder k w)), P)"
proof -
  obtain e w' where op: "WillService_RecordLivenessReminder k w = (e, w')" by fastforce
  from RecordLivenessReminder_effect [OF op] show ?thesis
  proof (elim disjE conjE exE)
    fix t assume "logged k AuditEventLivenessReminder '''' '''' (upd_will k (reminded_row t) (w_db w)) (w_db w')"
    then have "conc\<^sup>*\<^sup>* (upd_will k (reminded_row t) (w_db w), {}) (w_db w', {})"
      by (intro audited_conc logged_audited)
    then show ?thesis unfolding op snd_conv by (meson conc_remind converse_rtranclp_into_rtranclp)
  qed (auto simp: op)
qed

section \<open>What a call has read stays true enough\<close>

text \<open>
  The stored wills only gain: identity, testator and signature of a will, and the number of witness
  signatures.
\<close>

definition grows :: "db \<Rightarrow> db \<Rightarrow> bool" where
  "grows d d' \<longleftrightarrow> will_ids d \<subseteq> will_ids d' \<and> (\<forall>k. witness_count k d \<le> witness_count k d') \<and>
     (\<forall>s' \<in> set (will_t d'). wr_id s' \<in> will_ids d \<longrightarrow> (\<exists>s \<in> set (will_t d). wr_id s = wr_id s' \<and>
        wr_testator_flt s = wr_testator_flt s' \<and> (wr_testator_signed_at s \<noteq> None \<longrightarrow> wr_testator_signed_at s' \<noteq> None)))"

text \<open>A will of which \<open>signed\<close>, the testator and a number of witness signatures are known.\<close>

definition known :: "db \<Rightarrow> WillID \<Rightarrow> string \<Rightarrow> bool \<Rightarrow> nat \<Rightarrow> bool" where
  "known d k flt is_signed n \<longleftrightarrow> k \<in> will_ids d \<and> n \<le> witness_count k d \<and>
     (\<forall>s \<in> set (will_t d). wr_id s = k \<longrightarrow> wr_testator_flt s = flt \<and> (is_signed \<longrightarrow> wr_testator_signed_at s \<noteq> None))"

lemma known_grows: "known d k flt b n \<Longrightarrow> grows d d' \<Longrightarrow> known d' k flt b n"
  unfolding known_def grows_def by (metis (no_types, lifting) order_trans subsetD)

fun pending_ok :: "db \<Rightarrow> pending \<Rightarrow> bool" where
  "pending_ok d (Seen k r) \<longleftrightarrow> known d k (wr_testator_flt r) (wr_testator_signed_at r \<noteq> None) 0 \<and>
     (executed r \<longrightarrow> known d k (wr_testator_flt r) True 2)"
| "pending_ok d (Ready c k will) \<longleftrightarrow>
     known d k (RealMeFLT (Testator will)) (TestatorSignedAt will \<noteq> None) (length (WitnessSignatures will)) \<and>
     (Status will \<in> {WillStatusLocked, WillStatusDeathNotified} \<longrightarrow> known d k (RealMeFLT (Testator will)) True 2)"
| "pending_ok d (Superseding t will sids) \<longleftrightarrow> set sids \<subseteq> will_ids d \<and> Status will = WillStatusDraft"

lemma pending_grows: "pending_ok d p \<Longrightarrow> grows d d' \<Longrightarrow> pending_ok d' p"
  by (cases p) (auto simp: known_grows, auto simp: grows_def)

text \<open>What a write may do, whatever the state it was decided on.\<close>

definition attested :: "db \<Rightarrow> bool" where
  "attested d \<longleftrightarrow> (\<forall>r \<in> set (will_t d). executed r \<longrightarrow>
     wr_testator_signed_at r \<noteq> None \<and> 2 \<le> witness_count (wr_id r) d)"

definition row_late :: "nat \<Rightarrow> will_row \<Rightarrow> will_row \<Rightarrow> bool" where
  "row_late n r r' \<longleftrightarrow> wr_id r' = wr_id r \<and> wr_testator_flt r' = wr_testator_flt r \<and>
     (wr_testator_signed_at r \<noteq> None \<longrightarrow> wr_testator_signed_at r' \<noteq> None) \<and>
     (executed r' \<longrightarrow> executed r \<or> wr_testator_signed_at r' \<noteq> None \<and> 2 \<le> n)"

inductive late :: "db \<Rightarrow> db \<Rightarrow> bool" where
  late_row: "(\<And>r. r \<in> set (will_t d) \<Longrightarrow> wr_id r = k \<Longrightarrow> row_late (witness_count k d) r (f r)) \<Longrightarrow> late d (upd_will k f d)"
| late_witness: "INSERT_witness s d = Inr d' \<Longrightarrow>
    (\<And>r. r \<in> set (will_t d) \<Longrightarrow> wr_id r = wsr_will_id s \<Longrightarrow> wr_testator_flt r \<noteq> wsr_flt s \<and> wr_testator_signed_at r \<noteq> None) \<Longrightarrow>
    late d d'"
| late_draft: "exec_all (draft_stmts will sids) d = Inr d' \<Longrightarrow> set sids \<subseteq> will_ids d \<Longrightarrow> Status will = WillStatusDraft \<Longrightarrow> late d d'"
| late_other: "will_t d' = will_t d \<Longrightarrow> witness_t d' = witness_t d \<Longrightarrow> late d d'"

lemma executed_superseding: "executed (superseding k sids r) \<Longrightarrow> executed r"
  by (auto simp: executed_def superseding_def supersede_row_def split: if_splits)

lemma signed_superseding [simp]: "wr_testator_signed_at (superseding k sids r) = wr_testator_signed_at r"
  by (simp add: superseding_def supersede_row_def)

lemma upd_will_ids:
  assumes "\<And>r. r \<in> set (will_t d) \<Longrightarrow> wr_id r = k \<Longrightarrow> wr_id (f r) = k"
  shows "map wr_id (will_t (upd_will k f d)) = map wr_id (will_t d)"
  using assms by simp

lemma upd_will_rows:
  assumes "r' \<in> set (will_t (upd_will k f d))"
  obtains r where "r \<in> set (will_t d)" "wr_id r = k" "r' = f r" | "r' \<in> set (will_t d)" "wr_id r' \<noteq> k"
  using assms by (auto split: if_splits)

lemma upd_witness_count [simp]: "witness_count j (upd_will k f d) = witness_count j d"
  by (simp add: witness_count_def)

lemma superseding_ids [simp]: "wr_id \<circ> superseding n sids = wr_id"
  by (rule ext) simp

lemma late_grows:
  assumes "late d d'"
  shows "grows d d'"
  using assms
proof cases
  case (late_row k f)
  then have "map wr_id (will_t (upd_will k f d)) = map wr_id (will_t d)"
    by (intro upd_will_ids) (auto simp: row_late_def)
  then have "will_ids (upd_will k f d) = will_ids d" unfolding will_ids_def by (metis set_map)
  moreover have "\<exists>s \<in> set (will_t d). wr_id s = wr_id s' \<and> wr_testator_flt s = wr_testator_flt s' \<and>
      (wr_testator_signed_at s \<noteq> None \<longrightarrow> wr_testator_signed_at s' \<noteq> None)" if "s' \<in> set (will_t (upd_will k f d))" for s'
    using that by (rule upd_will_rows) (use late_row(2) in \<open>auto simp: row_late_def\<close>)
  ultimately show ?thesis unfolding late_row(1) grows_def by simp
next
  case (late_witness s)
  then show ?thesis by (auto simp: grows_def INSERT_witness_Inr will_ids_def witness_count_def sql_where_def)
next
  case (late_draft will sids)
  note eff = draft_effect [OF late_draft(1,2)]
  have "witness_count k d' = witness_count k d" for k unfolding eff(1) by (simp add: witness_count_def)
  moreover have "will_ids d \<subseteq> will_ids d'" unfolding eff(1) by (auto simp: will_ids_def image_image)
  ultimately show ?thesis using eff(2) unfolding eff(1) grows_def
    by (auto simp: will_ids_def will_row_of_def)
next
  case late_other
  then show ?thesis by (auto simp: grows_def will_ids_def witness_count_def)
qed

text \<open>What survives: keys stay unique, no testator is their own witness, executed wills are attested.\<close>

definition sound_late :: "db \<Rightarrow> bool" where
  "sound_late d \<longleftrightarrow> keys_ok d \<and> witnesses_ok d \<and> attested d"

lemma late_keys:
  assumes "late d d'" "keys_ok d"
  shows "keys_ok d'"
  using assms
proof cases
  case (late_row k f)
  then have "map wr_id (will_t (upd_will k f d)) = map wr_id (will_t d)"
    by (intro upd_will_ids) (auto simp: row_late_def)
  then show ?thesis using assms(2) unfolding late_row(1) keys_ok_def by metis
next
  case (late_witness s)
  then show ?thesis using assms(2) by (auto simp: keys_ok_def INSERT_witness_Inr)
next
  case (late_draft will sids)
  note eff = draft_effect [OF late_draft(1,2)]
  show ?thesis using assms(2) eff(2) unfolding eff(1) keys_ok_def by (simp add: will_ids_def will_row_of_def)
next
  case late_other
  then show ?thesis using assms(2) by (simp add: keys_ok_def)
qed

lemma late_attested:
  assumes "late d d'" "attested d"
  shows "attested d'"
  using assms(1)
proof cases
  case (late_row k f)
  have "wr_testator_signed_at s' \<noteq> None \<and> 2 \<le> witness_count (wr_id s') d"
    if mem: "s' \<in> set (will_t (upd_will k f d))" and "executed s'" for s'
    using mem
  proof (rule upd_will_rows)
    fix r assume r: "r \<in> set (will_t d)" "wr_id r = k" "s' = f r"
    from late_row(2) [OF r(1,2)] have "row_late (witness_count (wr_id r) d) r s'" using r by simp
    then show ?thesis using assms(2) r(1) \<open>executed s'\<close> unfolding attested_def row_late_def by metis
  qed (use assms(2) \<open>executed s'\<close> in \<open>auto simp: attested_def\<close>)
  then show ?thesis unfolding late_row(1) attested_def by simp
next
  case (late_witness s)
  then show ?thesis using assms(2)
    by (fastforce simp: attested_def INSERT_witness_Inr witness_count_def sql_where_def)
next
  case (late_draft will sids)
  note eff = draft_effect [OF late_draft(1,2)]
  have "witness_count k d' = witness_count k d" for k unfolding eff(1) by (simp add: witness_count_def)
  moreover have "\<not> executed (will_row_of will)" using late_draft(3) by (simp add: executed_def will_row_of_def)
  ultimately show ?thesis using assms(2) unfolding attested_def eff(1)
    by (auto dest!: executed_superseding)
next
  case late_other
  then show ?thesis using assms(2) by (simp add: attested_def witness_count_def)
qed

lemma late_witnesses:
  assumes "late d d'" "witnesses_ok d"
  shows "witnesses_ok d'"
  using assms(1)
proof cases
  case (late_row k f)
  show ?thesis unfolding witnesses_ok_def
  proof
    fix x assume "x \<in> set (witness_t d')"
    then obtain r where r: "r \<in> set (will_t d)" "wr_id r = wsr_will_id x" "wr_testator_flt r \<noteq> wsr_flt x" "wr_testator_signed_at r \<noteq> None"
      using assms(2) late_row(1) unfolding witnesses_ok_def by auto
    then show "\<exists>r \<in> set (will_t d'). wr_id r = wsr_will_id x \<and> wr_testator_flt r \<noteq> wsr_flt x \<and> wr_testator_signed_at r \<noteq> None"
      using late_row(2) [of r] unfolding late_row(1)
      by (intro bexI [of _ "if wr_id r = k then f r else r"]) (auto simp: row_late_def)
  qed
next
  case (late_witness s)
  then show ?thesis using assms(2) by (fastforce simp: witnesses_ok_def INSERT_witness_Inr will_ids_def)
next
  case (late_draft will sids)
  note eff = draft_effect [OF late_draft(1,2)]
  show ?thesis unfolding witnesses_ok_def
  proof
    fix x assume "x \<in> set (witness_t d')"
    then obtain r where r: "r \<in> set (will_t d)" "wr_id r = wsr_will_id x" "wr_testator_flt r \<noteq> wsr_flt x" "wr_testator_signed_at r \<noteq> None"
      using assms(2) unfolding witnesses_ok_def eff(1) by auto
    then show "\<exists>r \<in> set (will_t d'). wr_id r = wsr_will_id x \<and> wr_testator_flt r \<noteq> wsr_flt x \<and> wr_testator_signed_at r \<noteq> None"
      unfolding eff(1) by (intro bexI [of _ "superseding (Will_ID will) sids r"]) simp_all
  qed
next
  case late_other
  then show ?thesis using assms(2) by (simp add: witnesses_ok_def)
qed

lemma late_sound: "late d d' \<Longrightarrow> sound_late d \<Longrightarrow> sound_late d'"
  unfolding sound_late_def using late_keys late_attested late_witnesses by blast

section \<open>What overlapping calls keep\<close>

lemma late_refl: "late d d"
  by (rule late_other) simp_all

lemma row_late_plain [simp]:
  "row_late n r (signed_row x r)" "row_late n r (confirmed_row t r)" "row_late n r (reminded_row t r)"
  by (simp_all add: row_late_def executed_def row_defs split: prod.split)

lemma row_late_executed:
  assumes "wr_testator_signed_at r \<noteq> None" "2 \<le> n"
  shows "row_late n r (status_row x r)" "row_late n r (death_row y r)"
  using assms by (simp_all add: row_late_def row_defs split: prod.split)

text \<open>Each of the statements, decided on an outdated reading.\<close>

lemma late_executed:
  assumes "known d k flt True 2"
  shows "late d (upd_will k (status_row x) d)" "late d (upd_will k (death_row y) d)"
  using assms by (auto simp: known_def intro!: late_row row_late_executed)

lemma late_plain: "late d (upd_will k (signed_row x) d)" "late d (upd_will k (confirmed_row t) d)" "late d (upd_will k (reminded_row t) d)"
  by (auto intro!: late_row)

lemma late_RecordWitness:
  assumes "RecordWitnessSignature k h t c w = (e, w')" "known (w_db w) k flt True n" "flt \<noteq> RealMeFLT c"
  shows "late (w_db w) (w_db w')"
  using RecordWitnessSignature_effect [OF assms(1)]
proof
  assume ins: "INSERT_witness (witness_row_of k h t c) (w_db w) = Inr (w_db w')"
  show ?thesis by (rule late_witness [OF ins]) (use assms(2,3) in \<open>auto simp: witness_row_of_def known_def\<close>)
qed (simp add: late_refl)

lemma late_CreateDraft:
  assumes "WillRepo_CreateDraft will sids w = (e, w')" "set sids \<subseteq> will_ids (w_db w)" "Status will = WillStatusDraft"
  shows "late (w_db w) (w_db w')"
  using CreateDraft_effect [OF assms(1)] late_draft [OF _ assms(2,3)] late_refl by auto

lemma late_clauses:
  "InsertDigitalAsset c w = (e, w') \<Longrightarrow> late (w_db w) (w_db w')"
  "InsertPropertyClause x w = (e, w') \<Longrightarrow> late (w_db w) (w_db w')"
  by (auto dest!: InsertDigitalAsset_effect InsertPropertyClause_effect simp: INSERT_asset_Inr INSERT_property_Inr late_refl
      intro: late_other)

lemma late_UpdateStatus:
  assumes "WillRepo_UpdateStatus k st l u w = (e, w')" "known (w_db w) k flt True 2"
  shows "late (w_db w) (w_db w')"
  using row_effects(1) [OF assms(1)] late_executed(1) [OF assms(2)] late_refl by auto

lemma known_less: "known d k flt b n \<Longrightarrow> m \<le> n \<Longrightarrow> known d k flt b m"
  by (auto simp: known_def)

lemma call_write_late:
  assumes "call_write c k will w = (e, w')" "pending_ok (w_db w) (Ready c k will)"
  shows "late (w_db w) (w_db w')"
proof (cases c)
  case (SignsTestator x h)
  show ?thesis using assms(1) unfolding SignsTestator
    by (auto simp: late_refl split: if_splits prod.splits dest!: store_keeps(1) row_effects(3) intro: late_plain)
next
  case (SignsWitness x h)
  have "late (w_db w) (w_db w')" if op: "RecordWitnessSignature k h now x w1 = (e, w')" "w_db w1 = w_db w"
      "TestatorSignedAt will \<noteq> None" "RealMeFLT (Testator will) \<noteq> RealMeFLT x" for now w1
    using late_RecordWitness [OF op(1)] assms(2) op(2-4) by auto
  then show ?thesis using assms(1) unfolding SignsWitness
    by (auto simp: late_refl split: if_splits prod.splits dest!: store_keeps(1))
next
  case (Locks t)
  have "known (w_db w) k (RealMeFLT (Testator will)) True 2"
    if "TestatorSignedAt will \<noteq> None" "\<not> length (WitnessSignatures will) < 2"
    using assms(2) that by (auto intro: known_less)
  then show ?thesis using assms(1) unfolding Locks
    by (auto simp: late_refl split: if_splits intro: late_UpdateStatus)
next
  case (Notifies n t)
  then show ?thesis using assms
    by (auto simp: late_refl split: if_splits dest!: row_effects(2) intro: late_UpdateStatus late_executed)
next
  case (Unlocks t)
  then show ?thesis using assms by (auto simp: late_refl split: if_splits intro: late_UpdateStatus)
next
  case (Confirms x)
  show ?thesis using assms(1) unfolding Confirms
    by (auto simp: late_refl split: if_splits prod.splits dest!: store_keeps(1) row_effects(4) intro: late_plain)
next
  case (AddsCodicil x req)
  have "late (w_db w) (w_db w')" if op: "newWillID w = (j, w1)" "buildWill j x req True (Some k) w1 = (new, w2)"
      "WillRepo_CreateDraft (new\<lparr>AuditNote := ''codicil to '' @ k\<rparr>) [] w2 = (e, w')" for j w1 new w2
  proof -
    have "w_db w2 = w_db w" using newID_keeps(1) [OF op(1)] buildWill_keeps [OF op(2)] by simp
    moreover have "Status new = WillStatusDraft" using op(2) by (auto elim: buildWill_cases)
    ultimately show ?thesis using late_CreateDraft [OF op(3)] by simp
  qed
  then show ?thesis using assms(1) unfolding AddsCodicil
    by (auto simp: late_refl split: if_splits prod.splits option.splits)
next
  case (AddsAsset x y)
  show ?thesis using assms(1) unfolding AddsAsset
    by (auto simp: late_refl split: if_splits prod.splits dest!: newID_keeps late_clauses(1))
next
  case (AddsProperty v x y b)
  show ?thesis using assms(1) unfolding AddsProperty
    by (auto simp: late_refl Let_def split: if_splits prod.splits option.splits sum.splits
        dest!: newID_keeps store_keeps(1) late_clauses(2))
qed

definition conc_ok :: "db \<times> pending set \<Rightarrow> bool" where
  "conc_ok x \<longleftrightarrow> sound_late (fst x) \<and> (\<forall>p \<in> snd x. pending_ok (fst x) p)"

lemma known_row:
  assumes "sound_late d" "find_will k d = Some r"
  shows "known d k (wr_testator_flt r) (wr_testator_signed_at r \<noteq> None) 0"
    "executed r \<Longrightarrow> known d k (wr_testator_flt r) True 2"
proof -
  have r: "r \<in> set (will_t d)" "wr_id r = k" using find_will_mem [OF assms(2)] by simp_all
  have only: "s = r" if "s \<in> set (will_t d)" "wr_id s = k" for s
    using find_will_unique [OF _ assms(2) that] assms(1) by (simp add: sound_late_def)
  have "k \<in> will_ids d" using r by (auto simp: will_ids_def)
  then show "known d k (wr_testator_flt r) (wr_testator_signed_at r \<noteq> None) 0" using only by (auto simp: known_def)
  assume "executed r"
  then have "wr_testator_signed_at r \<noteq> None" "2 \<le> witness_count k d"
    using assms(1) r by (auto simp: sound_late_def attested_def)
  with \<open>k \<in> will_ids d\<close> only show "known d k (wr_testator_flt r) True 2" by (auto simp: known_def)
qed

lemma known_will:
  assumes "pending_ok d (Seen k r)"
  shows "pending_ok d (Ready c k (will_of_row r cs bs es (take n (signatures_of k d))))"
proof -
  have "length (signatures_of k d) = witness_count k d" by (simp add: signatures_of_def witness_count_def)
  then show ?thesis using assms by (auto simp: will_of_row_def known_def executed_def)
qed

interpretation conc_inv: step_invariant conc conc_ok
proof unfold_locales
  fix x y assume step: "conc x y" and ok: "conc_ok x"
  have kept: "conc_ok (d', P)" if "late d d'" "x = (d, P)" for d d' P
    using that ok late_sound [OF that(1)] pending_grows [OF _ late_grows [OF that(1)]] by (auto simp: conc_ok_def)
  from step show "conc_ok y"
  proof cases
    case (conc_row k d r P)
    then show ?thesis using ok known_row [of d k r] by (auto simp: conc_ok_def)
  next
    case (conc_will k r P ws n d c cs bs es)
    then show ?thesis using ok known_will [of d k r] by (auto simp: conc_ok_def)
  next
    case (conc_write c k will P w e w' d)
    then have "late d (w_db w')" using call_write_late [OF conc_write(4)] ok by (auto simp: conc_ok_def)
    then show ?thesis using conc_write kept by simp
  next
    case (conc_active t req w will sids w' d P)
    then show ?thesis using ok Draft_read_found [OF conc_active(3)] active_ids_subset by (auto simp: conc_ok_def)
  next
    case (conc_draft t will sids P w e w' d)
    then have "late d (w_db w')" using late_CreateDraft [OF conc_draft(4)] ok by (auto simp: conc_ok_def)
    then show ?thesis using conc_draft kept by simp
  next
    case (conc_remind d P k t)
    then show ?thesis using kept [OF late_plain(3) conc_remind(1)] by simp
  next
    case (conc_audit r d d' P)
    then have "late d d'" by (auto dest!: INSERT_audit_Inr intro: late_other)
    then show ?thesis using conc_audit kept by simp
  qed
qed

text \<open>From a sound registry, with no call in flight.\<close>

lemma registry_sound_late: "registry_ok d \<Longrightarrow> sound_late d"
  by (auto simp: registry_ok_def sound_late_def rows_ok_def row_ok_def attested_def)

lemma conc_keeps:
  assumes "conc\<^sup>*\<^sup>* (d, {}) (d', P)" "registry_ok d"
  shows "sound_late d'"
proof -
  have "conc_ok (d', P)"
    by (rule conc_inv.inv_steps [OF assms(1)]) (simp add: conc_ok_def registry_sound_late [OF assms(2)])
  then show ?thesis by (simp add: conc_ok_def)
qed

end
