(* ===== verification/Platform_Properties.thy ===== *)
theory Platform_Properties
  imports Example_Platform Money Concurrency
begin

text \<open>
  The properties of the platform around the will registry: the HTTP stack of the server, sessions
  and the login flow, the LINZ lookup, and the shared packages; and what two overlapping requests do
  to the registry.
\<close>

text \<open>The draft will, signed by its testator and twice witnessed.\<close>

definition ex_ready_db :: db where
  "ex_ready_db = ex_draft_db\<lparr>will_t := [signed_row (ex_time 1, ''h'') (will_row_of ex_will)],
     witness_t := [ex_witness ''s1'' ''wit1'', ex_witness ''s2'' ''wit2'']\<rparr>"

text \<open>A request for a will with neither clauses nor executors; on the database above it is served.\<close>

definition ex_bare_request :: CreateWillRequest where
  "ex_bare_request = ex_request\<lparr>rq_Clauses := [], rq_Executors := []\<rparr>"

lemma ex_bare_draft:
  assumes "healthy v" "w_db v = ex_ready_db" "RealMeFLT t = ''ann''"
  shows "\<exists>j. fst (WillService_CreateDraft t ex_bare_request v) = Inr j"
proof -
  let ?will = "draft_of t ex_bare_request v"
  obtain k w where k: "newWillID v = (k, w)" by fastforce
  then have "length k = 36" using newWillID_length [of v] by simp
  then have ne: "k \<noteq> ''w''" by auto
  have ids: "will_ids ex_ready_db = {''w''}"
    by (simp add: will_ids_def ex_ready_db_def signed_row_def will_row_of_def ex_will_def)
  have act: "active_ids ''ann'' ex_ready_db = [''w'']"
    by (simp add: active_ids_def active_of_def ex_ready_db_def signed_row_def will_row_of_def ex_will_def claims_def
        person_def identityClaims_def)
  have will: "Will_ID ?will = k" "Clauses ?will = []" "Beneficiaries ?will = []" "Executors ?will = []"
      "VaultUnlockDelayDays ?will = 0" "ParentWillID ?will = None" "SupersededBy ?will = None"
    by (simp_all add: draft_of_def k buildWill_def ex_bare_request_def ex_request_def)
  have "INSERT_will (will_row_of ?will) ex_ready_db = Inr (ex_ready_db\<lparr>will_t := will_t ex_ready_db @ [will_row_of ?will]\<rparr>)"
    using ne ids by (auto simp: INSERT_will_Inr will will_row_of_def in_int32_def ref_ok_def)
  then have "exec_all (draft_stmts ?will [''w'']) ex_ready_db \<noteq> Inl e" for e
    by (simp add: draft_stmts_def will UPDATE_supersede_def) (simp add: will_ids_def will_row_of_def will)
  then show ?thesis
    using ValidateVault_None [of "rq_VaultCiphertext ex_bare_request" "rq_VaultNonce ex_bare_request" "rq_VaultAlg ex_bare_request"]
    by (auto simp: CreateDraft_result [OF assms(1)] act ex_bare_request_def ex_request_def assms split: option.split sum.split)
qed

section \<open>The server as a whole\<close>

text \<open>C29. From the bytes of a request to the columns of the tables.  A request for a will posted as
  JSON with the cookie of a verified session, once it has reached the create handler behind its gate,
  is the call of \<open>CreateDraft\<close> with exactly that request in the name of the session, answered 201 with
  the new identifier or 400.  On success there is one new will row, with the person of the session,
  the ciphertext, nonce, algorithm and delay that were posted, and one new row for every clause,
  beneficiary and executor that was posted, in order and column by column.\<close>

theorem posted_will:
  assumes "in_Body r = Some (json_text (will_request_json q))" and "request_writable q"
    and "GetSession (ap_sessions a) (pv_store (ap_provider a)) (w_clock (ev_world e) 0) (ap_cookies a r) = Some i"
    and "LevelVerified \<le> Id_AssuranceLevel i"
  shows "\<exists>res w. WillService_CreateDraft (identityClaims i) q (ev_world (snd (env_Now e))) = (res, w) \<and>
    api_router a (EpCreate (body_as decode_CreateWillRequest r)) r e =
      (response_calls (ap_zone a) (case res of Inr j \<Rightarrow> respond 201 (IdBody j)
        | Inl err \<Rightarrow> http_Error (error_text err) 400), (snd (env_Now e))\<lparr>ev_world := w\<rparr>) \<and>
    (case res of Inl _ \<Rightarrow> True | Inr j \<Rightarrow> \<exists>old row cs bs es. drafted j (identityClaims i) q row cs bs es \<and>
       wr_testator_flt row = Id_FLT i \<and> wr_testator_full_name row = Id_FullName i \<and>
       length old = length (will_t (app_tables e)) \<and> will_t (w_db w) = old @ [row] \<and>
       clause_t (w_db w) = clause_t (app_tables e) @ cs \<and>
       beneficiary_t (w_db w) = beneficiary_t (app_tables e) @ bs \<and>
       executor_t (w_db w) = executor_t (app_tables e) @ es)"
proof -
  obtain e1 where now: "env_Now e = (w_clock (ev_world e) 0, e1)"
    by (simp add: env_Now_def time_Now_def)
  have db: "w_db (ev_world e1) = app_tables e" using env_Now_frame(1) [of e] by (simp add: now app_tables_def)
  let ?ep = "EpCreate (Some q)"
  have ep: "body_as decode_CreateWillRequest r = Some q"
    by (simp add: assms(1) body_as_def decode_will_request [OF assms(2)])
  obtain res w where run: "WillService_CreateDraft (identityClaims i) q (ev_world e1) = (res, w)" by fastforce
  have "serve (ap_server a) \<lparr>rq_endpoint = ?ep, rq_session = Some i, rq_uri = u\<rparr> (ev_world e1) =
     (case res of Inr j \<Rightarrow> respond 201 (IdBody j) | Inl err \<Rightarrow> http_Error (error_text err) 400, w)" for u
    using assms(4) by (simp add: serve_acting acting_def WillHandler_Create_def requireVerified_def run split: sum.split)
  then have answer: "api_router a (EpCreate (body_as decode_CreateWillRequest r)) r e =
      (response_calls (ap_zone a) (case res of Inr j \<Rightarrow> respond 201 (IdBody j)
        | Inl err \<Rightarrow> http_Error (error_text err) 400), (snd (env_Now e))\<lparr>ev_world := w\<rparr>)"
    by (simp add: ep api_router_def app_session_def now assms(3))
  have "case res of Inl _ \<Rightarrow> True | Inr j \<Rightarrow> \<exists>old row cs bs es. drafted j (identityClaims i) q row cs bs es \<and>
       wr_testator_flt row = Id_FLT i \<and> wr_testator_full_name row = Id_FullName i \<and>
       length old = length (will_t (app_tables e)) \<and> will_t (w_db w) = old @ [row] \<and>
       clause_t (w_db w) = clause_t (app_tables e) @ cs \<and>
       beneficiary_t (w_db w) = beneficiary_t (app_tables e) @ bs \<and>
       executor_t (w_db w) = executor_t (app_tables e) @ es"
  proof (cases res)
    case (Inr j)
    from CreateDraft_tables [OF run] obtain will rows where will: "Testator will = identityClaims i" "j = Will_ID will"
      "drafted (Will_ID will) (identityClaims i) q (will_row_of will) (map (clause_row_of will) (Clauses will))
         (map (beneficiary_row_of will) (Beneficiaries will)) (map (executor_row_of will) (Executors will))"
      and tab: "w_db w = (app_tables e)\<lparr>
         will_t := map (superseding (Will_ID will) (active_ids (RealMeFLT (identityClaims i)) (app_tables e)))
           (will_t (app_tables e)) @ [will_row_of will],
         clause_t := clause_t (app_tables e) @ map (clause_row_of will) (Clauses will),
         beneficiary_t := beneficiary_t (app_tables e) @ map (beneficiary_row_of will) (Beneficiaries will),
         executor_t := executor_t (app_tables e) @ map (executor_row_of will) (Executors will),
         audit_t := audit_t (app_tables e) @ rows\<rparr>"
      by (auto simp: Inr db)
    have "wr_testator_flt (will_row_of will) = Id_FLT i" "wr_testator_full_name (will_row_of will) = Id_FullName i"
      by (simp_all add: will_row_of_def will(1) identityClaims_def)
    with will tab show ?thesis
      unfolding Inr sum.case
      by (intro exI [of _ "map (superseding (Will_ID will) (active_ids (RealMeFLT (identityClaims i)) (app_tables e)))
           (will_t (app_tables e))"] exI [of _ "will_row_of will"] exI [of _ "map (clause_row_of will) (Clauses will)"]
          exI [of _ "map (beneficiary_row_of will) (Beneficiaries will)"]
          exI [of _ "map (executor_row_of will) (Executors will)"]) simp
  qed simp
  with run answer show ?thesis unfolding now snd_conv by blast
qed

theorem posted_will_witness:
  "\<exists>j w r. api_router ex_app (EpCreate (body_as decode_CreateWillRequest (ex_will_post ex_bare_request)))
       (ex_will_post ex_bare_request) (ex_env ex_ready_db) = (response_calls (ap_zone ex_app) (respond 201 (IdBody j)), w) \<and>
     r \<in> set (will_t (app_tables w)) \<and> wr_id r = j \<and> wr_testator_flt r = ''ann'' \<and>
     wr_vault_ciphertext r = ''c'' \<and> wr_vault_nonce r = ''n''"
proof -
  let ?i = "identity_of_claims (ex_claims_for ''ann'')" let ?e = "ex_env ex_ready_db"
  obtain v where "time_Now (ex_at ex_ready_db) = (w_clock (ex_at ex_ready_db) 0, v)" "healthy v" "w_db v = ex_ready_db"
    by (rule healthy_clock [OF ex_at_simps(2)]) simp
  then have e1: "healthy (ev_world (snd (env_Now ?e)))" "w_db (ev_world (snd (env_Now ?e))) = ex_ready_db"
    by (simp_all add: ex_env_def env_Now_def)
  obtain res w where run: "WillService_CreateDraft (identityClaims ?i) ex_bare_request (ev_world (snd (env_Now ?e))) = (res, w)" by fastforce
  have ann: "RealMeFLT (identityClaims ?i) = ''ann''" by (simp add: identityClaims_def identity_of_claims_def ex_claims_for_def)
  from ex_bare_draft [OF e1 this] obtain j where j: "res = Inr j" by (auto simp: run)
  have flt: "Id_FLT ?i = ''ann''" by (simp add: identity_of_claims_def ex_claims_for_def)
  have vault: "rq_VaultCiphertext ex_bare_request = ''c''" "rq_VaultNonce ex_bare_request = ''n''"
    by (simp_all add: ex_bare_request_def ex_request_def)
  have "request_writable ex_bare_request"
    by (simp add: request_writable_def ex_bare_request_def ex_request_def in_int64_def)
  moreover have "LevelVerified \<le> Id_AssuranceLevel ?i" by (simp add: identity_of_claims_def levels)
  ultimately obtain old row cs bs es where ok: "api_router ex_app
        (EpCreate (body_as decode_CreateWillRequest (ex_will_post ex_bare_request))) (ex_will_post ex_bare_request) ?e =
      (response_calls (ap_zone ex_app) (respond 201 (IdBody j)), (snd (env_Now ?e))\<lparr>ev_world := w\<rparr>)"
      "drafted j (identityClaims ?i) ex_bare_request row cs bs es" "will_t (w_db w) = old @ [row]"
    using posted_will [OF ex_posts(1) _ ex_session_now, of ex_bare_request ex_ready_db] by (auto simp: run j)
  then have "wr_id row = j" "wr_testator_flt row = ''ann''" "wr_vault_ciphertext row = ''c''" "wr_vault_nonce row = ''n''"
    by (simp_all add: drafted_def flt vault)
  moreover have "row \<in> set (will_t (app_tables ((snd (env_Now ?e))\<lparr>ev_world := w\<rparr>)))"
    using ok(3) by (simp add: app_tables_def)
  ultimately show ?thesis using ok(1) by blast
qed

text \<open>C30. Composition.  Any sequence of raw HTTP requests, through request identifiers, logging, CORS,
  routing, session cookies and the gate, changes the tables only by a run of the abstract registry,
  so the registry stays sound.  Preflight requests change nothing.\<close>

theorem http_requests_keep_registry_ok:
  assumes "registry_ok (app_tables e)"
  shows "reg_step\<^sup>*\<^sup>* (app_tables e) (app_tables (handle_all getenv a rs e))
    \<and> registry_ok (app_tables (handle_all getenv a rs e))
    \<and> (in_Method r = ''OPTIONS'' \<longrightarrow> app_tables (snd (main_handler getenv a r e)) = app_tables e)"
proof (intro conjI impI)
  show steps: "reg_step\<^sup>*\<^sup>* (app_tables e) (app_tables (handle_all getenv a rs e))" by (rule handle_all_refines)
  show "registry_ok (app_tables (handle_all getenv a rs e))"
    by (rule registry_inv.inv_steps [OF steps assms])
  assume "in_Method r = ''OPTIONS''"
  then show "app_tables (snd (main_handler getenv a r e)) = app_tables e" by (rule main_handler_preflight)
qed

theorem http_requests_keep_registry_ok_witness:
  "registry_ok (app_tables (handle_all ex_getenv ex_app [ex_http ''GET'' ''/'' [(''Origin'', ''x'')], ex_notice_post]
     (ex_env ex_locked_db)))"
  using http_requests_keep_registry_ok [of "ex_env ex_locked_db" ex_getenv ex_app
      "[ex_http ''GET'' ''/'' [(''Origin'', ''x'')], ex_notice_post]"] by (simp del: handle_all.simps)

text \<open>C31. Every request leaves exactly one log entry, with its method and path, the status that was
  really sent, and the request identifier the client finds in the answer; unless the XML encoder of
  the metadata document fails after it has written a part of it.\<close>

theorem log_agrees_with_answer:
  assumes "metadata_whole a"
  shows "\<exists>entry. ev_log (snd (main_handler getenv a r e)) = ev_log e @ [entry] \<and>
    lg_method entry = in_Method r \<and> lg_path entry = in_Path r \<and>
    lg_status entry = sent_status (fst (main_handler getenv a r e)) \<and>
    lg_request_id entry = values_Get ''X-Request-Id'' (wt_header (send (fst (main_handler getenv a r e)))) \<and>
    lg_request_id entry \<noteq> ''''"
proof -
  obtain ws e' where run: "main_handler getenv a r e = (ws, e')" by fastforce
  have "fst (request_id_of r e) \<noteq> ''''" by (rule request_id_nonempty)
  with main_handler_logs [OF run assms] show ?thesis by (auto simp: run)
qed

theorem log_agrees_with_answer_witness:
  "\<exists>entry. ev_log (snd (main_handler ex_getenv ex_app (ex_http ''GET'' ''/auth/metadata'' []) (ex_env empty_db))) = [entry] \<and>
     lg_status entry = sent_status (fst (main_handler ex_getenv ex_app (ex_http ''GET'' ''/auth/metadata'' []) (ex_env empty_db)))"
  using log_agrees_with_answer [of ex_app ex_getenv "ex_http ''GET'' ''/auth/metadata'' []" "ex_env empty_db"]
  by (auto simp: metadata_whole_def ex_app_def ex_env_def)

section \<open>Two requests at once\<close>

text \<open>C32. The one-active-will rule holds of requests served one after the other, not of overlapping
  ones: a lock whose read precedes a new draft of the same testator and whose write follows it
  leaves the superseded will locked, and active, beside the new one.\<close>

theorem overlapping_requests_leave_two_active_wills:
  assumes "Lock_read k v = (Inr will, v')" and "w_db v = d" and "\<not> IsCodicil will"
    and "WillService_CreateDraft t req w1 = (Inr j, w1')" and "w_db w1 = d"
    and "RealMeFLT t = RealMeFLT (Testator will)"
    and "Lock_write k lockedAt will w2 = (None, w2')" and "w_db w2 = w_db w1'"
  shows "2 \<le> length (active_ids (RealMeFLT t) (w_db w2'))"
  using lock_revives_superseded [OF assms] by (rule two_members)

theorem overlapping_requests_leave_two_active_wills_witness:
  "\<exists>will v' j w1' w2'. Lock_read ''w'' (ex_at ex_ready_db) = (Inr will, v') \<and>
     WillService_CreateDraft (claims ''ann'') ex_bare_request (ex_at ex_ready_db) = (Inr j, w1') \<and>
     Lock_write ''w'' (ex_time 9) will (ex_at (w_db w1')) = (None, w2') \<and>
     2 \<le> length (active_ids ''ann'' (w_db w2'))"
proof -
  let ?w = "ex_at ex_ready_db" let ?draft = "WillService_CreateDraft (claims ''ann'') ex_bare_request ?w"
  have row: "find_will ''w'' ex_ready_db = Some (signed_row (ex_time 1, ''h'') (will_row_of ex_will))"
    by (simp add: ex_ready_db_def find_will_def sql_find_def signed_row_def will_row_of_def ex_will_def)
  obtain v' where 1: "Lock_read ''w'' ?w = (Inr (stored_will ''w'' ex_ready_db (signed_row (ex_time 1, ''h'') (will_row_of ex_will))), v')"
    using healthy_GetByID [of ?w "''w''"] by (auto simp: Lock_read_def row)
  let ?will = "stored_will ''w'' ex_ready_db (signed_row (ex_time 1, ''h'') (will_row_of ex_will))"
  have shape: "\<not> IsCodicil ?will" "RealMeFLT (claims ''ann'') = RealMeFLT (Testator ?will)" "Status ?will = WillStatusDraft"
      "TestatorSignedAt ?will \<noteq> None" "\<not> length (WitnessSignatures ?will) < 2"
    by code_simp+
  obtain j w1' where 2: "?draft = (Inr j, w1')" using ex_bare_draft [of ?w "claims ''ann''"] shape(2)
    by (metis ex_at_simps(1,2) prod.collapse claims_flt)
  have "fst (Lock_write ''w'' (ex_time 9) ?will (ex_at (w_db w1'))) = None"
    using shape by (simp add: Lock_write_def healthy_upd)
  then obtain w2' where 3: "Lock_write ''w'' (ex_time 9) ?will (ex_at (w_db w1')) = (None, w2')" by (metis prod.collapse)
  from overlapping_requests_leave_two_active_wills [OF 1 _ shape(1) 2 _ shape(2) 3] 1 2 3 show ?thesis
    by (simp add: claims_def person_def identityClaims_def)
qed

text \<open>C33. What overlapping requests do keep.  However the reads, writes and audit entries of any number of
  service calls alternate, identifiers stay unique, every locked, death-notified or unlocked will
  carries the testator's and two witness signatures, and no witness is the testator.\<close>

theorem overlapping_requests_keep_attestation:
  assumes "registry_ok d" and "conc\<^sup>*\<^sup>* (d, {}) (d', P)"
  shows "distinct (map wr_id (will_t d')) \<and>
    (\<forall>r \<in> set (will_t d'). executed r \<longrightarrow> wr_testator_signed_at r \<noteq> None \<and> 2 \<le> witness_count (wr_id r) d') \<and>
    (\<forall>s \<in> set (witness_t d'). \<exists>r \<in> set (will_t d'). wr_id r = wsr_will_id s \<and> wr_testator_flt r \<noteq> wsr_flt s)"
  using conc_keeps [OF assms(2,1)]
  by (auto simp: sound_late_def keys_ok_def attested_def witnesses_ok_def)

text \<open>Two locks that have both read the draft before either writes: both go through, the second over a
  will that is no draft any more.\<close>

theorem overlapping_requests_keep_attestation_witness:
  "\<exists>P. conc\<^sup>*\<^sup>* (ex_ready_db, {}) (upd_will ''w'' (status_row (WillStatusLocked, Some (ex_time 10), None))
       (upd_will ''w'' (status_row (WillStatusLocked, Some (ex_time 9), None)) ex_ready_db), P) \<and>
     2 \<le> witness_count ''w'' (upd_will ''w'' (status_row (WillStatusLocked, Some (ex_time 10), None))
       (upd_will ''w'' (status_row (WillStatusLocked, Some (ex_time 9), None)) ex_ready_db))"
proof -
  let ?lock = "\<lambda>n. upd_will ''w'' (status_row (WillStatusLocked, Some (ex_time n), None))"
  let ?r = "signed_row (ex_time 1, ''h'') (will_row_of ex_will)"
  let ?will = "stored_will ''w'' ex_ready_db ?r"
  have row: "find_will ''w'' ex_ready_db = Some ?r"
    by (simp add: ex_ready_db_def find_will_def sql_find_def signed_row_def will_row_of_def ex_will_def)
  have shape: "Status ?will = WillStatusDraft" "TestatorSignedAt ?will \<noteq> None" "\<not> length (WitnessSignatures ?will) < 2"
    by code_simp+
  obtain v where read: "WillRepo_GetByID ''w'' (ex_at ex_ready_db) = (Inr ?will, v)"
    using healthy_GetByID [of "ex_at ex_ready_db" "''w''"] by (auto simp: row)
  obtain P1 where 1: "conc\<^sup>*\<^sup>* (ex_ready_db, {}) (ex_ready_db, insert (Ready (Locks (ex_time 9)) ''w'' ?will) P1)"
    using conc_read [OF read, of "{}" "Locks (ex_time 9)"] by auto
  obtain P where 2: "conc\<^sup>*\<^sup>* (ex_ready_db, insert (Ready (Locks (ex_time 9)) ''w'' ?will) P1)
      (ex_ready_db, insert (Ready (Locks (ex_time 10)) ''w'' ?will) P)" and keep: "Ready (Locks (ex_time 9)) ''w'' ?will \<in> P"
    using conc_read [OF read, of "insert (Ready (Locks (ex_time 9)) ''w'' ?will) P1" "Locks (ex_time 10)"] by auto
  have wrt: "conc (d, Q) (?lock n d, Q)" if "Ready (Locks (ex_time n)) ''w'' ?will \<in> Q" for n d Q
    using conc_write [OF that, of "ex_at d"] shape by (fastforce simp: healthy_upd)
  have run: "conc\<^sup>*\<^sup>* (ex_ready_db, {}) (?lock 10 (?lock 9 ex_ready_db), insert (Ready (Locks (ex_time 10)) ''w'' ?will) P)"
    using 1 2 wrt keep by (meson insertI1 insertI2 rtranclp.rtrancl_into_rtrancl rtranclp_trans)
  have ok: "registry_ok ex_ready_db"
    by (simp add: registry_ok_defs ex_ready_db_def ex_defs will_row_of_def signed_row_def)
  have "find_will ''w'' (?lock 10 (?lock 9 ex_ready_db)) =
      Some (status_row (WillStatusLocked, Some (ex_time 10), None) (status_row (WillStatusLocked, Some (ex_time 9), None) ?r))"
    by (simp add: find_will_upd row status_row_def)
  moreover have "executed (status_row (WillStatusLocked, t, u) r)" for t u r
    by (simp add: status_row_def executed_def)
  ultimately obtain r where r: "r \<in> set (will_t (?lock 10 (?lock 9 ex_ready_db)))" "wr_id r = ''w''" "executed r"
    using find_will_mem by meson
  have "2 \<le> witness_count (wr_id r) (?lock 10 (?lock 9 ex_ready_db))"
    using overlapping_requests_keep_attestation [OF ok run] r(1,3) by blast
  then show ?thesis unfolding r(2) using run by (intro exI conjI)
qed

section \<open>Sessions\<close>

text \<open>C34. A session cookie the server has set is read back, until it expires, as the identity of the
  assertion it was made for; only the instant of authentication is lost.\<close>

theorem session_round_trip:
  assumes "jwt_parses_signed ExpiresAt claims_utf8 (sl_jwt j)"
    and "CreateSession j s tls a w = (Inr ck, w')" and "extractIdentity a = Inr i" and "identity_utf8 i"
    and "now < NewNumericDate (time_Add (w_clock w 1) (duration_seconds (sessionMaxAge (ss_cfg s))))"
  shows "GetSession j s now [(ck_Name ck, ck_Value ck)] = Some (i\<lparr>AuthnInstant := zero_time\<rparr>)"
  using assms by (rule CreateSession_then_GetSession)

theorem session_round_trip_witness:
  "\<exists>ck w' i. CreateSession plain_lib ex_store False (Some ex_assertion) (ex_at empty_db) = (Inr ck, w') \<and>
     GetSession plain_lib ex_store (ex_time 5) [(ck_Name ck, ck_Value ck)] = Some i \<and> Id_FLT i = ''ann'' \<and>
     map_option City (Id_Address i) = Some ''Nelson''"
proof -
  let ?call = "CreateSession plain_lib ex_store False (Some ex_assertion) (ex_at empty_db)"
  have "\<not> isl (extractIdentity (Some ex_assertion))" "Id_FLT (projr (extractIdentity (Some ex_assertion))) = ''ann''"
      "map_option City (Id_Address (projr (extractIdentity (Some ex_assertion)))) = Some ''Nelson''"
      "identity_utf8 (projr (extractIdentity (Some ex_assertion)))"
    by code_simp+
  then obtain i where id: "extractIdentity (Some ex_assertion) = Inr i" "Id_FLT i = ''ann''"
      "map_option City (Id_Address i) = Some ''Nelson''" "identity_utf8 i"
    by (metis isl_def sum.collapse(2) sum.sel(2) sumE)
  then have "\<not> isl (fst ?call)" by (simp add: CreateSession_def plain_lib_def plain_jwt_def time_Now_def Let_def)
  then obtain ck w' where run: "?call = (Inr ck, w')" by (metis isl_def sumE prod.collapse)
  have "ex_time 5 < NewNumericDate (time_Add (w_clock (ex_at empty_db) 1) (duration_seconds (sessionMaxAge (ss_cfg ex_store))))"
    by code_simp
  from session_round_trip [OF plain_lib_parses run id(1,4) this] run id(2,3) show ?thesis by auto
qed

text \<open>C35. The key of the session tokens is the entity identifier, which the service publishes in its
  metadata.  Whoever knows it and the token format writes a token for any person, and the gate lets
  its bearer read any will.\<close>

theorem published_key_forges_sessions:
  assumes "NewProvider l cfg [] = Inr p" and "jwt_parses_signed ExpiresAt claims_utf8 (sl_jwt j)" and "claims_utf8 c"
    and "SignedString (sl_jwt j) (sp_EntityID (pv_sp p)) c = Inr token" and "now < ExpiresAt c"
    and "2 \<le> jc_AssuranceLevel c" and "healthy w" and "find_will k (w_db w) = Some r"
    and "rq = \<lparr>rq_endpoint = EpGet k, rq_session = GetSession j (pv_store p) now [(sessionCookieName cfg, token)], rq_uri = u\<rparr>"
  shows "\<exists>will. fst (serve s rq w) = respond 200 (WillBody will) \<and> VaultCiphertext will = wr_vault_ciphertext r"
proof -
  note started = NewProvider_started [OF assms(1)]
  have "rq_session rq = Some (identity_of_claims c)"
    using forged_session [OF assms(2) _ assms(3,5), of cfg token] assms(4) by (simp add: assms(9) started)
  moreover have "LevelVerified \<le> Id_AssuranceLevel (identity_of_claims c)"
    using assms(6) by (simp add: identity_of_claims_def levels)
  ultimately show ?thesis
    using verified_session_reads [OF assms(7,8), of rq "identity_of_claims c" s] by (auto simp: assms(9))
qed

theorem published_key_forges_sessions_witness:
  "\<exists>will. fst (serve ex_server \<lparr>rq_endpoint = EpGet ''w'', rq_session = GetSession plain_lib (pv_store ex_provider) (ex_time 5)
       [(sessionCookieName ex_config, ex_token ''eve'')], rq_uri = ''/w''\<rparr> (ex_at ex_locked_db)) = respond 200 (WillBody will)"
  using published_key_forges_sessions [OF ex_provider_starts plain_lib_parses, of "ex_claims_for ''eve''" "ex_token ''eve''"
      "ex_time 5" "ex_at ex_locked_db" "''w''" ex_locked_row _ "''/w''" ex_server]
  by (auto simp: ex_provider_def)

text \<open>C36. A request that needs a session is sent to the login page with its own address; a caller who
  then has a session is sent on to that address as \<open>http.Redirect\<close> writes it.  An address in ASCII
  whose path has no empty, \<open>.\<close> or \<open>..\<close> elements comes back exactly, query included.\<close>

theorem login_returns_to_request:
  assumes "behind_verified (rq_endpoint rq)" and "rq_session rq = None" and "rq_uri rq \<noteq> ''''"
    and "GetSession j store now (aq_Cookies r) = Some i" and "aq_RawQuery r = ''return='' @ url_QueryEscape (rq_uri rq)"
  shows "serve s rq w = (respond 302 (RedirectTo (''/auth/realme/login?'' @ aq_RawQuery r)), w) \<and>
    LoginHandler mw j store now r = answer (respond 302 (RedirectTo (redirect_location (aq_Path r) (rq_uri rq)))) \<and>
    (clean_address (rq_uri rq) \<longrightarrow> redirect_location (aq_Path r) (rq_uri rq) = rq_uri rq)"
proof (intro conjI impI)
  show "serve s rq w = (respond 302 (RedirectTo (''/auth/realme/login?'' @ aq_RawQuery r)), w)"
    using assms(1,2,5) by (simp add: serve_def RequireVerified_def requireAssuranceLevel_def redirectToLogin_sent)
  show "LoginHandler mw j store now r = answer (respond 302 (RedirectTo (redirect_location (aq_Path r) (rq_uri rq))))"
    using LoginHandler_returns [OF assms(4,5,3)] by (simp add: http_Redirect_def)
  show "redirect_location (aq_Path r) (rq_uri rq) = rq_uri rq" if "clean_address (rq_uri rq)"
    using that by (rule redirect_clean)
qed

text \<open>An address comes back, query included; another is cleaned on the way.\<close>

theorem login_returns_to_request_witness:
  "LoginHandler ex_saml plain_lib ex_store (ex_time 5) \<lparr>aq_Path = ''/auth/login'',
      aq_RawQuery = ''return='' @ url_QueryEscape ''/wills/w?a=b'',
      aq_Cookies = [(sessionCookieName ex_config, ex_token ''ann'')], aq_TLS = True, aq_Form = None\<rparr> =
     answer (respond 302 (RedirectTo ''/wills/w?a=b'')) \<and>
   redirect_location ''/auth/login'' ''/api/wills/..'' = ''/api''"
proof (rule conjI [OF _ redirect_examples(1)])
  let ?r = "\<lparr>aq_Path = ''/auth/login'', aq_RawQuery = ''return='' @ url_QueryEscape ''/wills/w?a=b'',
      aq_Cookies = [(sessionCookieName ex_config, ex_token ''ann'')], aq_TLS = True, aq_Form = None\<rparr>"
  have "clean_address ''/wills/w?a=b''" by code_simp
  then show "LoginHandler ex_saml plain_lib ex_store (ex_time 5) ?r = answer (respond 302 (RedirectTo ''/wills/w?a=b''))"
    using login_returns_to_request [of "\<lparr>rq_endpoint = EpGet ''w'', rq_session = None, rq_uri = ''/wills/w?a=b''\<rparr>" plain_lib ex_store
        "ex_time 5" ?r _ ex_server _ ex_saml]
    by (simp only: ex_ann_session auth_request.simps request.simps) simp
qed

section \<open>Property clauses and the land register\<close>

text \<open>A property clause that is added is read back as it was returned, with its time of
  verification cut to microseconds.\<close>

theorem property_clauses_round_trip:
  assumes "WillService_AddPropertyClause v k t title bene w = ((c, None), w')"
  shows "c\<lparr>LINZVerifiedAt := map_option timestamptz (LINZVerifiedAt c)\<rparr> \<in> set (properties_of k (w_db w'))"
proof -
  from AddPropertyClause_effect [OF assms] have "PC_WillID c = k"
    and ins: "INSERT_property (property_row_of c) (w_db w) = Inr (w_db w')" by auto
  with inserted_property_read [OF ins] show ?thesis by simp
qed

theorem property_clauses_round_trip_witness:
  "\<exists>c w'. WillService_AddPropertyClause None ''w'' (claims ''ann'') ''NA1'' '''' (ex_at ex_draft_db) = ((c, None), w') \<and>
     c\<lparr>LINZVerifiedAt := map_option timestamptz (LINZVerifiedAt c)\<rparr> \<in> set (properties_of ''w'' (w_db w'))"
proof -
  let ?call = "WillService_AddPropertyClause None ''w'' (claims ''ann'') ''NA1'' '''' (ex_at ex_draft_db)"
  have "snd (fst ?call) = None" by code_simp
  then obtain c w' where run: "?call = ((c, None), w')" by (metis prod.collapse)
  from property_clauses_round_trip [OF run] show ?thesis using run by auto
qed

text \<open>C37. A property clause that is added is read back as it was returned, its time of verification cut
  to microseconds; it carries the description and area of the first parcel of a 200 answer to the title
  request, and no verification otherwise: when the answer is a feature collection in JSON, those of the
  first parcel that was written.  That request asks the configured server, with exactly the
  parameters of the client, whatever characters the title reference holds.\<close>

theorem property_clauses_carry_the_linz_answer:
  assumes "WillService_AddPropertyClause (Some (LINZPropertyVerifier_VerifyTitle net jerr client)) k t title bene w = ((c, None), w')"
    and "path_text (lc_baseURL client @ linz_path client)" and "title \<noteq> ''''"
  shows "c\<lparr>LINZVerifiedAt := map_option timestamptz (LINZVerifiedAt c)\<rparr> \<in> set (properties_of k (w_db w')) \<and>
    (case title_reply net client title of
       None \<Rightarrow> LINZVerifiedAt c = None \<and> LegalDescription c = '''' \<and> LINZLandAreaM2 c = 0
     | Some p \<Rightarrow> LINZVerifiedAt c \<noteq> None \<and> LegalDescription c = pb_LegalDesc p \<and> LINZLandAreaM2 c = pb_AreaSqm p) \<and>
    (\<forall>p area rest. net (title_request client title) = Inr (200, json_text (parcels_json ((p, area) # rest))) \<and>
       list_all parcel_writable ((p, area) # rest) \<longrightarrow>
       LINZVerifiedAt c \<noteq> None \<and> LegalDescription c = pb_LegalDesc p \<and> LINZLandAreaM2 c = pb_AreaSqm p) \<and>
    request_path (hr_url (title_request client title)) = lc_baseURL client @ linz_path client \<and>
    set (request_query (hr_url (title_request client title))) = set (title_params title)"
proof -
  have stored: "c\<lparr>LINZVerifiedAt := map_option timestamptz (LINZVerifiedAt c)\<rparr> \<in> set (properties_of k (w_db w'))"
    using assms(1) by (rule property_clauses_round_trip)
  have reply: "case title_reply net client title of
       None \<Rightarrow> LINZVerifiedAt c = None \<and> LegalDescription c = '''' \<and> LINZLandAreaM2 c = 0
     | Some p \<Rightarrow> LINZVerifiedAt c \<noteq> None \<and> LegalDescription c = pb_LegalDesc p \<and> LINZLandAreaM2 c = pb_AreaSqm p"
    using AddPropertyClause_lookup [OF assms(1)] VerifyTitle_reply [OF assms(2,3), of net jerr]
    by (auto split: option.splits sum.splits)
  have written: "LINZVerifiedAt c \<noteq> None \<and> LegalDescription c = pb_LegalDesc p \<and> LINZLandAreaM2 c = pb_AreaSqm p"
    if "net (title_request client title) = Inr (200, json_text (parcels_json ((p, area) # rest)))"
      "list_all parcel_writable ((p, area) # rest)" for p area rest
    using reply title_reply_parcels [where net = net, OF that] by simp
  show ?thesis using stored reply written title_request_query [OF assms(2), of title] by blast
qed

theorem property_clauses_carry_the_linz_answer_witness:
  "\<exists>c w'. WillService_AddPropertyClause (Some (LINZPropertyVerifier_VerifyTitle
        (\<lambda>r. Inr (200, json_text (parcels_json ex_title_answer))) (\<lambda>b. Errorf ''json'') (linz_NewClient ''k'')))
      ''w'' (claims ''ann'') ''NA1'' '''' (ex_at ex_draft_db) = ((c, None), w') \<and>
     LegalDescription c = ''Lot 1'' \<and> LINZLandAreaM2 c = 500"
proof -
  let ?net = "\<lambda>r. Inr (200, json_text (parcels_json ex_title_answer))" let ?cl = "linz_NewClient ''k''"
  let ?verify = "LINZPropertyVerifier_VerifyTitle ?net (\<lambda>b. Errorf ''json'') ?cl"
  have path: "path_text (lc_baseURL ?cl @ linz_path ?cl)" by code_simp
  have reply: "title_reply ?net ?cl ''NA1'' = Some ex_title"
    using title_reply_parcels [of ?net ?cl "''NA1''" "(ex_title, dec_int 500)" "[]"] ex_title_writable
    by (simp add: ex_title_answer_def)
  then have verify: "?verify ''NA1'' = Inr \<lparr>pvr_TitleNo = ''NA1'', pvr_LegalDescription = ''Lot 1'', pvr_LINZLandAreaM2 = 500\<rparr>"
    using VerifyTitle_reply [OF path, of "''NA1''" ?net] by (simp add: ex_title_def)
  let ?call = "\<lambda>v. WillService_AddPropertyClause (Some v) ''w'' (claims ''ann'') ''NA1'' '''' (ex_at ex_draft_db)"
  have "?call ?verify = ?call (\<lambda>t. Inr \<lparr>pvr_TitleNo = ''NA1'', pvr_LegalDescription = ''Lot 1'', pvr_LINZLandAreaM2 = 500\<rparr>)"
    unfolding WillService_AddPropertyClause_def option.case verify ..
  moreover have "snd (fst \<dots>) = None" by code_simp
  ultimately have "snd (fst (?call ?verify)) = None" by simp
  then obtain c w' where run: "?call ?verify = ((c, None), w')" by (metis prod.collapse)
  from property_clauses_carry_the_linz_answer [OF run path] reply run show ?thesis by (auto simp: ex_title_def)
qed

section \<open>The shared packages\<close>

text \<open>C38. Following the cursors of the pages of a listing, in the order of its keys, ends, and gives every
  row once and in order, whatever page size the caller asks for.\<close>

theorem pages_cover_all_rows:
  assumes "page_limit_of limitStr = Some n" and "sorted_wrt (<) (map key rows)" and "'''' \<notin> key ` set rows"
    and "length rows < fuel"
  shows "walk fuel key rows limitStr '''' = Some rows"
  by (rule walk_all [OF assms(1-3), of "[]" rows, OF _ assms(4) PageFromQuery_start [OF assms(1)]]) simp_all

theorem pages_cover_all_rows_witness:
  "walk 4 (\<lambda>s. s) [''a'', ''b'', ''c''] ''2'' '''' = Some [''a'', ''b'', ''c'']"
  by (rule pages_cover_all_rows [of _ 2]) (code_simp, simp_all)

text \<open>C39. An answer of the 2xx kind with a JSON body is stored under the idempotency key of its request.  Any
  later POST with that key, to any path, gets that answer and runs nothing, whatever requests came
  in between.\<close>

theorem idempotent_replay:
  assumes "in_Method r = ''POST''" and "values_Get ''Idempotency-Key'' (in_Header r) = key" and "key \<noteq> ''''"
    and "sql_find ik_key key (ev_idem e) = None" and "\<forall>r e. ev_idem (snd (next r e)) = ev_idem e"
    and "next r e = (ws, e')" and "200 \<le> seen_status ws 200" and "seen_status ws 200 < 300"
    and "lookup_served q" and "store_served q" and "jsonb q (seen_body ws) = Some b"
    and "in_Method r' = ''POST''" and "values_Get ''Idempotency-Key'' (in_Header r') = key"
    and "after = idem_all q next rs (snd (Idempotency q next r e))"
  shows "fst (Idempotency q next r e) = ws \<and> Idempotency q next r' after =
    ([SetHeader ''Content-Type'' ''application/json'', SetHeader ''Idempotency-Key-Replay'' ''true'',
      WriteHeader (seen_status ws 200), WriteBody b], after)"
proof -
  let ?row = "\<lparr>ik_key = key, ik_status_code = seen_status ws 200, ik_body = b\<rparr>"
  have first: "Idempotency q next r e = (ws, e'\<lparr>ev_idem := ev_idem e @ [?row]\<rparr>)"
    by (rule Idempotency_stores) (use assms in auto)
  have "sql_find ik_key key (ev_idem (snd (Idempotency q next r e))) = Some ?row"
    using assms(4) by (simp add: first sql_find_insert sql_find_None)
  then have "sql_find ik_key key (ev_idem after) = Some ?row"
    unfolding assms(14) by (rule idem_all_keeps [rotated]) (use assms(5) in simp)
  from Idempotency_replays [OF assms(9) this assms(12,13,3)] show ?thesis by (simp add: first)
qed

theorem idempotent_replay_witness:
  "fst (Idempotency ex_idem ex_create (ex_post ''/other'' ''a'') (idem_all ex_idem ex_create [ex_post ''/w'' ''b'']
      (snd (Idempotency ex_idem ex_create (ex_post ''/w'' ''a'') (ex_env empty_db))))) =
   [SetHeader ''Content-Type'' ''application/json'', SetHeader ''Idempotency-Key-Replay'' ''true'', WriteHeader 201, WriteBody ''{}'']"
proof -
  have create: "ex_create (ex_post ''/w'' ''a'') (ex_env empty_db) = ([WriteHeader 201, WriteBody ''{}''], ex_env empty_db)"
      "\<forall>r e. ev_idem (snd (ex_create r e)) = ev_idem e"
      "seen_status [WriteHeader 201, WriteBody ''{}''] 200 = 201" "seen_body [WriteHeader 201, WriteBody ''{}''] = ''{}''"
    by (simp_all add: ex_create_def)
  have fresh: "sql_find ik_key ''a'' (ev_idem (ex_env empty_db)) = None" by (simp add: ex_env_def sql_find_def)
  show ?thesis
    using idempotent_replay [where r' = "ex_post ''/other'' ''a''" and rs = "[ex_post ''/w'' ''b'']" and q = ex_idem and b = "''{}''",
        OF ex_post_simps(1) ex_post_simps(2) _ fresh create(2,1)]
    by (simp only: create(3,4)) (simp add: ex_idem_def)
qed

text \<open>C40. For amounts up to ten trillion dollars the floating-point computation of GST gives the exact 3/23 of
  the amount, rounded to the nearest cent, and what is left is the rest of the amount.\<close>

theorem gst_is_exact:
  assumes "\<bar>m\<bar> \<le> 2 ^ 50"
  shows "NZD_GST m = sgn m * ((6 * \<bar>m\<bar> + 23) div 46) \<and> \<bar>3 * of_int m / 23 - of_int (NZD_GST m)\<bar> \<le> (11 / 23 :: rat) \<and>
    NZD_Add (NZD_ExGST m) (NZD_GST m) = m"
  using gst_exact_near [of m] NZD_ExGST_split(2) [OF assms]
  by (simp only: NZD_GST_exact [OF assms]) (simp add: gst_exact_def)

theorem gst_is_exact_witness: "NZD_GST 1150 = 150"
  using gst_is_exact [of 1150] by simp

end
