(* ===== verification/Health_Client.thy ===== *)
theory Health_Client
  imports Http_Client
begin

text \<open>
  \<open>packages/nz-common/health\<close>: the client of the FHIR services.  A bundle is the list of its entries'
  resources; the transport is a parameter.
\<close>

section \<open>Client and resources\<close>

definition NHIBaseURL :: string where
  "NHIBaseURL = ''https://api.hip.digital.health.nz/fhir/R4''"

definition SDHRBaseURL :: string where
  "SDHRBaseURL = ''https://api.sdhb.digital.health.nz/fhir/R4''"

record health_Client =
  hc_baseURL :: string
  hc_token :: string

definition NewNHIClient :: "string \<Rightarrow> health_Client" where
  "NewNHIClient bearerToken = \<lparr>hc_baseURL = NHIBaseURL, hc_token = bearerToken\<rparr>"

definition NewSDHRClient :: "string \<Rightarrow> health_Client" where
  "NewSDHRClient bearerToken = \<lparr>hc_baseURL = SDHRBaseURL, hc_token = bearerToken\<rparr>"

definition health_WithBaseURL :: "string \<Rightarrow> health_Client \<Rightarrow> health_Client" where
  "health_WithBaseURL u c = c\<lparr>hc_baseURL := u\<rparr>"

record Identifier =
  idf_System :: string
  idf_Value :: string

record HumanName =
  Family :: string
  Given :: "string list"
  hn_Use :: string

record FHIRAddress =
  Line :: "string list"
  fa_City :: string
  PostalCode :: string
  fa_Country :: string
  fa_Use :: string

record Patient =
  ResourceType :: string
  pt_ID :: string
  pt_Identifier :: "Identifier list"
  pt_Name :: "HumanName list"
  BirthDate :: string
  pt_Gender :: string
  pt_Address :: "FHIRAddress list"

definition nhiSystem :: string where
  "nhiSystem = ''https://standards.digital.health.nz/ns/nhi-id''"

fun nhi_value :: "Identifier list \<Rightarrow> string" where
  "nhi_value [] = ''''"
| "nhi_value (i # is) = (if idf_System i = nhiSystem then idf_Value i else nhi_value is)"

definition Patient_NHINumber :: "Patient \<Rightarrow> string" where
  "Patient_NHINumber p = nhi_value (pt_Identifier p)"

section \<open>Decoding a bundle\<close>

text \<open>
  A struct that holds slices is decoded with the elements behind each of them, beside it: the second
  components are the slices of the fields the first one shows.
\<close>

definition zero_Identifier :: Identifier where
  "zero_Identifier = \<lparr>idf_System = '''', idf_Value = ''''\<rparr>"

definition identifier_fields :: "string list" where
  "identifier_fields = [''system'', ''value'']"

definition into_Identifier :: "Identifier into" where
  "into_Identifier = into_struct (\<lambda>i ms. do {
     s \<leftarrow> into_field identifier_fields ''system'' into_string (idf_System i) ms;
     v \<leftarrow> into_field identifier_fields ''value'' into_string (idf_Value i) ms;
     Some \<lparr>idf_System = s, idf_Value = v\<rparr>
   })"

type_synonym name_slot = "HumanName \<times> string slice"

definition zero_name :: name_slot where
  "zero_name = (\<lparr>Family = '''', Given = [], hn_Use = ''''\<rparr>, [], 0)"

definition name_fields :: "string list" where
  "name_fields = [''family'', ''given'', ''use'']"

definition into_HumanName :: "name_slot into" where
  "into_HumanName = into_struct (\<lambda>(n, gs) ms. do {
     f \<leftarrow> into_field name_fields ''family'' into_string (Family n) ms;
     gs \<leftarrow> into_field name_fields ''given'' (into_slice '''' into_string) gs ms;
     u \<leftarrow> into_field name_fields ''use'' into_string (hn_Use n) ms;
     Some (\<lparr>Family = f, Given = slice_elems gs, hn_Use = u\<rparr>, gs)
   })"

type_synonym address_slot = "FHIRAddress \<times> string slice"

definition zero_FHIRAddress :: address_slot where
  "zero_FHIRAddress = (\<lparr>Line = [], fa_City = '''', PostalCode = '''', fa_Country = '''', fa_Use = ''''\<rparr>, [], 0)"

definition fhir_address_fields :: "string list" where
  "fhir_address_fields = [''line'', ''city'', ''postalCode'', ''country'', ''use'']"

definition into_FHIRAddress :: "address_slot into" where
  "into_FHIRAddress = into_struct (\<lambda>(a, ls) ms. do {
     ls \<leftarrow> into_field fhir_address_fields ''line'' (into_slice '''' into_string) ls ms;
     c \<leftarrow> into_field fhir_address_fields ''city'' into_string (fa_City a) ms;
     p \<leftarrow> into_field fhir_address_fields ''postalCode'' into_string (PostalCode a) ms;
     n \<leftarrow> into_field fhir_address_fields ''country'' into_string (fa_Country a) ms;
     u \<leftarrow> into_field fhir_address_fields ''use'' into_string (fa_Use a) ms;
     Some (\<lparr>Line = slice_elems ls, fa_City = c, PostalCode = p, fa_Country = n, fa_Use = u\<rparr>, ls)
   })"

type_synonym patient_slot = "Patient \<times> Identifier slice \<times> name_slot slice \<times> address_slot slice"

definition zero_Patient :: patient_slot where
  "zero_Patient = (\<lparr>ResourceType = '''', pt_ID = '''', pt_Identifier = [], pt_Name = [], BirthDate = '''',
     pt_Gender = '''', pt_Address = []\<rparr>, ([], 0), ([], 0), ([], 0))"

definition patient_fields :: "string list" where
  "patient_fields = [''resourceType'', ''id'', ''identifier'', ''name'', ''birthDate'', ''gender'', ''address'']"

definition into_Patient :: "patient_slot into" where
  "into_Patient = into_struct (\<lambda>(p, ids, ns, as) ms. do {
     t \<leftarrow> into_field patient_fields ''resourceType'' into_string (ResourceType p) ms;
     i \<leftarrow> into_field patient_fields ''id'' into_string (pt_ID p) ms;
     ids \<leftarrow> into_field patient_fields ''identifier'' (into_slice zero_Identifier into_Identifier) ids ms;
     ns \<leftarrow> into_field patient_fields ''name'' (into_slice zero_name into_HumanName) ns ms;
     b \<leftarrow> into_field patient_fields ''birthDate'' into_string (BirthDate p) ms;
     g \<leftarrow> into_field patient_fields ''gender'' into_string (pt_Gender p) ms;
     as \<leftarrow> into_field patient_fields ''address'' (into_slice zero_FHIRAddress into_FHIRAddress) as ms;
     Some (\<lparr>ResourceType = t, pt_ID = i, pt_Identifier = slice_elems ids, pt_Name = map fst (slice_elems ns),
       BirthDate = b, pt_Gender = g, pt_Address = map fst (slice_elems as)\<rparr>, ids, ns, as)
   })"

definition decode_bundle :: "string \<Rightarrow> Patient list option" where
  "decode_bundle body = map_option (map fst \<circ> slice_elems)
     (json_Decode (into_struct (into_field [''entry''] ''entry''
        (into_slice zero_Patient (into_struct (into_field [''resource''] ''resource'' into_Patient))))) ([], 0) body)"

text \<open>What a FHIR service writes for patients, and that it is read as it was written.\<close>

definition strings_json :: "string list \<Rightarrow> json" where
  "strings_json ss = JArray (map JString ss)"

definition identifier_json :: "Identifier \<Rightarrow> json" where
  "identifier_json i = JObject [(''system'', JString (idf_System i)), (''value'', JString (idf_Value i))]"

definition name_json :: "HumanName \<Rightarrow> json" where
  "name_json n = JObject [(''family'', JString (Family n)), (''given'', strings_json (Given n)), (''use'', JString (hn_Use n))]"

definition fhir_address_json :: "FHIRAddress \<Rightarrow> json" where
  "fhir_address_json a = JObject [(''line'', strings_json (Line a)), (''city'', JString (fa_City a)),
     (''postalCode'', JString (PostalCode a)), (''country'', JString (fa_Country a)), (''use'', JString (fa_Use a))]"

definition patient_json :: "Patient \<Rightarrow> json" where
  "patient_json p = JObject [(''resourceType'', JString (ResourceType p)), (''id'', JString (pt_ID p)),
     (''identifier'', JArray (map identifier_json (pt_Identifier p))), (''name'', JArray (map name_json (pt_Name p))),
     (''birthDate'', JString (BirthDate p)), (''gender'', JString (pt_Gender p)),
     (''address'', JArray (map fhir_address_json (pt_Address p)))]"

definition bundle_json :: "Patient list \<Rightarrow> json" where
  "bundle_json ps = JObject [(''entry'', JArray (map (\<lambda>p. JObject [(''resource'', patient_json p)]) ps))]"

text \<open>The slot a value is decoded into.\<close>

definition name_slot_of :: "HumanName \<Rightarrow> name_slot" where
  "name_slot_of n = (n, Given n, length (Given n))"

definition address_slot_of :: "FHIRAddress \<Rightarrow> address_slot" where
  "address_slot_of a = (a, Line a, length (Line a))"

definition patient_slot_of :: "Patient \<Rightarrow> patient_slot" where
  "patient_slot_of p = (p, (pt_Identifier p, length (pt_Identifier p)),
     (map name_slot_of (pt_Name p), length (pt_Name p)), (map address_slot_of (pt_Address p), length (pt_Address p)))"

lemma into_Identifier_json: "into_Identifier z (identifier_json i) = Some i"
  by (simp add: into_Identifier_def into_struct_def identifier_json_def identifier_fields_def into_string_def)

lemma into_HumanName_json: "into_HumanName zero_name (name_json n) = Some (name_slot_of n)"
  by (simp add: into_HumanName_def into_struct_def name_json_def name_fields_def strings_json_def into_strings
      zero_name_def name_slot_of_def) (simp add: into_string_def)

lemma into_FHIRAddress_json: "into_FHIRAddress zero_FHIRAddress (fhir_address_json a) = Some (address_slot_of a)"
  by (simp add: into_FHIRAddress_def into_struct_def fhir_address_json_def fhir_address_fields_def strings_json_def into_strings
      zero_FHIRAddress_def address_slot_of_def) (simp add: into_string_def)

lemmas fhir_slices =
  into_slice_fresh [where f = into_Identifier and z = zero_Identifier and enc = identifier_json and st = "\<lambda>i. i", OF into_Identifier_json]
  into_slice_fresh [where f = into_HumanName and z = zero_name and enc = name_json and st = name_slot_of, OF into_HumanName_json]
  into_slice_fresh [where f = into_FHIRAddress and z = zero_FHIRAddress and enc = fhir_address_json and st = address_slot_of, OF into_FHIRAddress_json]

lemma into_Patient_json: "into_Patient zero_Patient (patient_json p) = Some (patient_slot_of p)"
  by (simp add: into_Patient_def into_struct_def patient_json_def patient_fields_def fhir_slices zero_Patient_def
      patient_slot_of_def name_slot_of_def address_slot_of_def comp_def) (simp add: into_string_def)

definition fhir_text :: "Patient \<Rightarrow> bool" where
  "fhir_text p \<longleftrightarrow> json_ok (patient_json p)"

lemma fhir_depths:
  "json_depth (identifier_json i) \<le> 1" "json_depth (name_json n) \<le> 2" "json_depth (fhir_address_json a) \<le> 2"
  "json_depth (patient_json p) \<le> 4"
proof -
  have strings: "json_depth (strings_json ss) \<le> 1" for ss
    unfolding strings_json_def using json_depth_array [of ss JString 0] by simp
  show i: "json_depth (identifier_json i) \<le> 1" for i by (simp add: identifier_json_def)
  show n: "json_depth (name_json n) \<le> 2" for n using strings [of "Given n"] by (simp add: name_json_def)
  show a: "json_depth (fhir_address_json a) \<le> 2" for a using strings [of "Line a"] by (simp add: fhir_address_json_def)
  have "json_depth (JArray (map identifier_json (pt_Identifier p))) \<le> Suc 1"
    "json_depth (JArray (map name_json (pt_Name p))) \<le> Suc 2"
    "json_depth (JArray (map fhir_address_json (pt_Address p))) \<le> Suc 2"
    by (rule json_depth_array, rule i n a)+
  then show "json_depth (patient_json p) \<le> 4" by (simp add: patient_json_def)
qed

lemma decode_bundle_text:
  assumes "list_all fhir_text ps"
  shows "decode_bundle (json_text (bundle_json ps)) = Some ps"
proof -
  let ?entry = "\<lambda>p. JObject [(''resource'', patient_json p)]"
  have "json_depth (JArray (map ?entry ps)) \<le> Suc 5"
    by (rule json_depth_array) (use fhir_depths(4) in \<open>simp add: max_def\<close>)
  then have depth: "json_depth (bundle_json ps) \<le> 100" by (simp add: bundle_json_def)
  have ok: "json_ok (bundle_json ps)" using assms by (simp add: bundle_json_def fhir_text_def list_all_iff)
  let ?into = "into_struct (into_field [''resource''] ''resource'' into_Patient)"
  have each: "?into zero_Patient (?entry p) = Some (patient_slot_of p)" for p
    by (simp add: into_struct_def into_Patient_json)
  have "map (fst \<circ> patient_slot_of) ps = ps" by (simp add: patient_slot_of_def comp_def)
  then show ?thesis
    by (simp add: decode_bundle_def Unmarshal_text [OF ok depth])
      (simp add: bundle_json_def into_struct_def into_slice_fresh [where f = ?into and z = zero_Patient and enc = ?entry and st = patient_slot_of, OF each])
qed

section \<open>Lookups\<close>

text \<open>The request every lookup sends: bearer token and FHIR media type.\<close>

definition fhir_request :: "health_Client \<Rightarrow> http_request \<Rightarrow> http_request" where
  "fhir_request c req = Header_Set ''Accept'' ''application/fhir+json''
     (Header_Set ''Authorization'' (''Bearer '' @ hc_token c) req)"

definition GetPatient :: "transport \<Rightarrow> (string \<Rightarrow> goerror) \<Rightarrow> health_Client \<Rightarrow> string \<Rightarrow> goerror + Patient" where
  "GetPatient net jerr c nhiNumber =
     (if nhiNumber = '''' then Inl (Errorf ''health: NHI number is required'')
      else (case http_NewRequest ''GET'' (hc_baseURL c @
              ''/Patient?identifier=https://standards.digital.health.nz/ns/nhi-id|'' @ nhiNumber) of
          Inl e \<Rightarrow> Inl (Wrap ''health: build request: '' e)
        | Inr req \<Rightarrow> (case net (fhir_request c req) of
              Inl e \<Rightarrow> Inl (Wrap ''health: get patient: '' e)
            | Inr (status, body) \<Rightarrow>
                if status = 404 then Inl (Errorf (''health: patient with NHI '' @ fmt_q nhiNumber @ '' not found''))
                else if status \<noteq> 200 then Inl (Errorf (''health: get patient returned HTTP '' @ dec_int status))
                else (case decoded jerr decode_bundle body of
                    Inl e \<Rightarrow> Inl (Wrap ''health: decode patient response: '' e)
                  | Inr [] \<Rightarrow> Inl (Errorf (''health: patient with NHI '' @ fmt_q nhiNumber @ '' not found''))
                  | Inr (p # _) \<Rightarrow> Inr p))))"

definition searchBundle ::
  "transport \<Rightarrow> (string \<Rightarrow> goerror) \<Rightarrow> health_Client \<Rightarrow> string \<Rightarrow> goerror + Patient list" where
  "searchBundle net jerr c path =
     (case http_NewRequest ''GET'' (hc_baseURL c @ path) of
        Inl e \<Rightarrow> Inl (Wrap ''build request: '' e)
      | Inr req \<Rightarrow> (case net (fhir_request c req) of
            Inl e \<Rightarrow> Inl (Wrap ''request: '' e)
          | Inr (status, body) \<Rightarrow>
              if status = 404 then Inr []
              else if status \<noteq> 200 then Inl (Errorf (''HTTP '' @ dec_int status))
              else (case decoded jerr decode_bundle body of
                  Inl e \<Rightarrow> Inl (Wrap ''decode bundle: '' e)
                | Inr bundle \<Rightarrow> Inr (filter (\<lambda>r. ResourceType r = ''Patient'') bundle))))"

record NHILookupResult =
  nlr_Patient :: Patient
  nlr_NHINumber :: string
  Dormant :: bool

definition GetPatientByNHI ::
  "transport \<Rightarrow> (string \<Rightarrow> goerror) \<Rightarrow> health_Client \<Rightarrow> string \<Rightarrow> goerror + NHILookupResult" where
  "GetPatientByNHI net jerr c nhiNumber =
     (if nhiNumber = '''' then Inl (Errorf ''health: NHI number cannot be empty'')
      else (case searchBundle net jerr c
              (''/Patient?identifier=https://standards.digital.health.nz/ns/nhi-id|'' @ nhiNumber) of
          Inl e \<Rightarrow> Inl (Wrap (''health: NHI lookup '' @ nhiNumber @ '': '') e)
        | Inr [] \<Rightarrow> Inl (Errorf (''health: patient not found for NHI '' @ nhiNumber))
        | Inr (p # _) \<Rightarrow> Inr \<lparr>nlr_Patient = p, nlr_NHINumber = nhiNumber, Dormant = False\<rparr>))"

definition SearchPatientByDemographics ::
  "transport \<Rightarrow> (string \<Rightarrow> goerror) \<Rightarrow> health_Client \<Rightarrow> string \<Rightarrow> string \<Rightarrow> string \<Rightarrow> goerror + Patient list" where
  "SearchPatientByDemographics net jerr c family given birthDate =
     (if family = '''' \<or> birthDate = ''''
      then Inl (Errorf ''health: family name and birthDate are required'')
      else searchBundle net jerr c
        (''/Patient?family='' @ family @ ''&given='' @ given @ ''&birthdate='' @ birthDate))"

section \<open>What the lookups guarantee\<close>

text \<open>\<open>NHINumber\<close> is the first identifier of the NHI system.\<close>

lemma nhi_value_first:
  "nhi_value ids = (case find (\<lambda>i. idf_System i = nhiSystem) ids of None \<Rightarrow> '''' | Some i \<Rightarrow> idf_Value i)"
  by (induction ids) auto

text \<open>\<open>searchBundle\<close> only delivers patients; a 404 is an empty result.\<close>

lemma searchBundle_patients:
  "searchBundle net jerr c path = Inr ps \<Longrightarrow> \<forall>p \<in> set ps. ResourceType p = ''Patient''"
  by (auto simp: searchBundle_def split: sum.splits prod.splits if_splits)

lemma GetPatientByNHI_patient:
  "GetPatientByNHI net jerr c nhi = Inr r \<Longrightarrow>
     ResourceType (nlr_Patient r) = ''Patient'' \<and> nlr_NHINumber r = nhi \<and> \<not> Dormant r"
  by (auto simp: GetPatientByNHI_def dest!: searchBundle_patients split: sum.splits list.splits if_splits)

text \<open>
  The parameters of a demographic search go into the URL as they are.  For names without bytes that
  mean something in a query the server reads the three parameters; a family name that holds an
  ampersand goes on with parameters of its own, which come first.
\<close>

definition demographics_url :: "health_Client \<Rightarrow> string \<Rightarrow> string \<Rightarrow> string \<Rightarrow> string" where
  "demographics_url c family given birthDate =
     hc_baseURL c @ ''/Patient?family='' @ family @ ''&given='' @ given @ ''&birthdate='' @ birthDate"

lemma demographics_plain:
  assumes "path_text (hc_baseURL c)" "query_text family" "query_text given" "query_text birthDate"
  shows "url_accepted (demographics_url c family given birthDate)"
    "request_query (demographics_url c family given birthDate) =
       [(''family'', family), (''given'', given), (''birthdate'', birthDate)]"
proof -
  let ?q = "''family='' @ family @ ''&given='' @ given @ ''&birthdate='' @ birthDate"
  have url: "demographics_url c family given birthDate = (hc_baseURL c @ ''/Patient'') @ CHR ''?'' # ?q"
    by (simp add: demographics_url_def)
  have plain: "CHR ''#'' \<notin> set ?q" "list_all (\<lambda>x. \<not> is_control x) ?q" "path_text (hc_baseURL c @ ''/Patient'')"
    using assms(1) query_text_plain [OF assms(2)] query_text_plain [OF assms(3)] query_text_plain [OF assms(4)]
    by simp_all
  show "url_accepted (demographics_url c family given birthDate)"
    unfolding url by (rule url_accepted_query [OF plain(3,1,2)])
  have "url_ParseQuery ?q = (''family'', family) # url_ParseQuery (''given='' @ given @ ''&birthdate='' @ birthDate)"
    using ParseQuery_raw [of "''family''" family "''given='' @ given @ ''&birthdate='' @ birthDate"] assms(2) by simp
  also have "url_ParseQuery (''given='' @ given @ ''&birthdate='' @ birthDate) =
      (''given'', given) # url_ParseQuery (''birthdate='' @ birthDate)"
    using ParseQuery_raw [of "''given''" given "''birthdate='' @ birthDate"] assms(3) by simp
  also have "url_ParseQuery (''birthdate='' @ birthDate) = [(''birthdate'', birthDate)]"
    using ParseQuery_raw_last [of "''birthdate''" birthDate] assms(4) by simp
  finally show "request_query (demographics_url c family given birthDate) =
       [(''family'', family), (''given'', given), (''birthdate'', birthDate)]"
    unfolding url request_of_query(2) [OF plain(3,1)] .
qed

lemma demographics_injection:
  assumes "path_text (hc_baseURL c)" "query_text f" "query_text g" "CHR ''#'' \<notin> set (given @ birthDate)"
  shows "values_Get ''given'' (request_query (demographics_url c (f @ ''&given='' @ g) given birthDate)) = g"
proof -
  let ?rest = "''given='' @ given @ ''&birthdate='' @ birthDate"
  let ?q = "''family='' @ f @ ''&given='' @ g @ ''&'' @ ?rest"
  have url: "demographics_url c (f @ ''&given='' @ g) given birthDate = (hc_baseURL c @ ''/Patient'') @ CHR ''?'' # ?q"
    by (simp add: demographics_url_def)
  have plain: "CHR ''#'' \<notin> set ?q" "path_text (hc_baseURL c @ ''/Patient'')"
    using assms(1,4) query_text_plain [OF assms(2)] query_text_plain [OF assms(3)] by simp_all
  have "url_ParseQuery ?q = (''family'', f) # url_ParseQuery (''given='' @ g @ ''&'' @ ?rest)"
    using ParseQuery_raw [of "''family''" f "''given='' @ g @ ''&'' @ ?rest"] assms(2) by simp
  also have "url_ParseQuery (''given='' @ g @ ''&'' @ ?rest) = (''given'', g) # url_ParseQuery ?rest"
    using ParseQuery_raw [of "''given''" g ?rest] assms(3) by simp
  finally show ?thesis
    unfolding url request_of_query(2) [OF plain(2,1)] by (simp add: values_Get_def)
qed

end
