(* ===== verification/Mbie_Client.thy ===== *)
theory Mbie_Client
  imports Http_Client Go_Time
begin

text \<open>
  \<open>packages/nz-common/mbie\<close>: the client of the companies register and of the NZBN register; and
  \<open>packages/nz-common/bdm\<close>, whose stub answers every call with one error.
\<close>

section \<open>Client and records\<close>

definition mbie_defaultBaseURL :: string where
  "mbie_defaultBaseURL = ''https://api.business.govt.nz''"

record mbie_Client =
  mc_baseURL :: string
  mc_apiKey :: string

definition mbie_NewClient :: "string \<Rightarrow> mbie_Client" where
  "mbie_NewClient apiKey = \<lparr>mc_baseURL = mbie_defaultBaseURL, mc_apiKey = apiKey\<rparr>"

definition mbie_WithBaseURL :: "string \<Rightarrow> mbie_Client \<Rightarrow> mbie_Client" where
  "mbie_WithBaseURL url c = c\<lparr>mc_baseURL := url\<rparr>"

record Director =
  dct_FullName :: string
  ResidentialCity :: string
  ConsentDate :: string

record Company =
  CompanyNumber :: string
  CompanyName :: string
  CompanyStatus :: string
  co_EntityTypeCode :: string
  co_RegistrationDate :: string
  co_NZBN :: string
  Directors :: "Director list"

record CompaniesSearchResult =
  cs_Items :: "Company list"
  cs_TotalItems :: int

record NZBNEntity =
  ne_NZBN :: string
  EntityName :: string
  ne_EntityTypeCode :: string
  EntityStatusCode :: string
  ne_RegistrationDate :: string
  TradingNames :: "string list"

record NZBNSearchResult =
  ns_Items :: "NZBNEntity list"
  ns_TotalItems :: int

definition mbie_ErrNotFound :: goerror where
  "mbie_ErrNotFound = Errorf ''mbie: not found''"

section \<open>Decoding\<close>

definition zero_Director :: Director where
  "zero_Director = \<lparr>dct_FullName = '''', ResidentialCity = '''', ConsentDate = ''''\<rparr>"

definition director_fields :: "string list" where
  "director_fields = [''fullName'', ''residentialCity'', ''consentDate'']"

definition into_Director :: "Director into" where
  "into_Director = into_struct (\<lambda>d ms. do {
     n \<leftarrow> into_field director_fields ''fullName'' into_string (dct_FullName d) ms;
     r \<leftarrow> into_field director_fields ''residentialCity'' into_string (ResidentialCity d) ms;
     c \<leftarrow> into_field director_fields ''consentDate'' into_string (ConsentDate d) ms;
     Some \<lparr>dct_FullName = n, ResidentialCity = r, ConsentDate = c\<rparr>
   })"

text \<open>A company or an entity with the slice its list is.\<close>

type_synonym company_slot = "Company \<times> Director slice"

definition zero_Company :: company_slot where
  "zero_Company = (\<lparr>CompanyNumber = '''', CompanyName = '''', CompanyStatus = '''', co_EntityTypeCode = '''',
     co_RegistrationDate = '''', co_NZBN = '''', Directors = []\<rparr>, [], 0)"

definition company_fields :: "string list" where
  "company_fields = [''companyNumber'', ''companyName'', ''companyStatus'', ''entityTypeCode'', ''registrationDate'',
     ''nzbn'', ''directors'']"

definition into_Company :: "company_slot into" where
  "into_Company = into_struct (\<lambda>(c, ds) ms. do {
     i \<leftarrow> into_field company_fields ''companyNumber'' into_string (CompanyNumber c) ms;
     n \<leftarrow> into_field company_fields ''companyName'' into_string (CompanyName c) ms;
     s \<leftarrow> into_field company_fields ''companyStatus'' into_string (CompanyStatus c) ms;
     t \<leftarrow> into_field company_fields ''entityTypeCode'' into_string (co_EntityTypeCode c) ms;
     r \<leftarrow> into_field company_fields ''registrationDate'' into_string (co_RegistrationDate c) ms;
     b \<leftarrow> into_field company_fields ''nzbn'' into_string (co_NZBN c) ms;
     ds \<leftarrow> into_field company_fields ''directors'' (into_slice zero_Director into_Director) ds ms;
     Some (\<lparr>CompanyNumber = i, CompanyName = n, CompanyStatus = s, co_EntityTypeCode = t, co_RegistrationDate = r,
       co_NZBN = b, Directors = slice_elems ds\<rparr>, ds)
   })"

definition decode_Company :: "string \<Rightarrow> Company option" where
  "decode_Company body = map_option fst (json_Decode into_Company zero_Company body)"

definition search_fields :: "string list" where
  "search_fields = [''items'', ''totalItems'']"

text \<open>A page of results into a fresh variable: the items and the total.\<close>

definition into_page :: "'a \<Rightarrow> 'a into \<Rightarrow> ('a slice \<times> int) into" where
  "into_page z f = into_struct (\<lambda>(xs, n) ms. do {
     xs \<leftarrow> into_field search_fields ''items'' (into_slice z f) xs ms;
     n \<leftarrow> into_field search_fields ''totalItems'' into_int n ms;
     Some (xs, n)
   })"

definition decode_CompaniesSearchResult :: "string \<Rightarrow> CompaniesSearchResult option" where
  "decode_CompaniesSearchResult body = map_option (\<lambda>(cs, n). \<lparr>cs_Items = map fst (slice_elems cs), cs_TotalItems = n\<rparr>)
     (json_Decode (into_page zero_Company into_Company) (([], 0), 0) body)"

type_synonym entity_slot = "NZBNEntity \<times> string slice"

definition zero_NZBNEntity :: entity_slot where
  "zero_NZBNEntity = (\<lparr>ne_NZBN = '''', EntityName = '''', ne_EntityTypeCode = '''', EntityStatusCode = '''',
     ne_RegistrationDate = '''', TradingNames = []\<rparr>, [], 0)"

definition entity_fields :: "string list" where
  "entity_fields = [''nzbn'', ''entityName'', ''entityTypeCode'', ''entityStatusCode'', ''registrationDate'', ''tradingNames'']"

definition into_NZBNEntity :: "entity_slot into" where
  "into_NZBNEntity = into_struct (\<lambda>(e, ts) ms. do {
     b \<leftarrow> into_field entity_fields ''nzbn'' into_string (ne_NZBN e) ms;
     n \<leftarrow> into_field entity_fields ''entityName'' into_string (EntityName e) ms;
     t \<leftarrow> into_field entity_fields ''entityTypeCode'' into_string (ne_EntityTypeCode e) ms;
     s \<leftarrow> into_field entity_fields ''entityStatusCode'' into_string (EntityStatusCode e) ms;
     r \<leftarrow> into_field entity_fields ''registrationDate'' into_string (ne_RegistrationDate e) ms;
     ts \<leftarrow> into_field entity_fields ''tradingNames'' (into_slice '''' into_string) ts ms;
     Some (\<lparr>ne_NZBN = b, EntityName = n, ne_EntityTypeCode = t, EntityStatusCode = s, ne_RegistrationDate = r,
       TradingNames = slice_elems ts\<rparr>, ts)
   })"

definition decode_NZBNEntity :: "string \<Rightarrow> NZBNEntity option" where
  "decode_NZBNEntity body = map_option fst (json_Decode into_NZBNEntity zero_NZBNEntity body)"

definition decode_NZBNSearchResult :: "string \<Rightarrow> NZBNSearchResult option" where
  "decode_NZBNSearchResult body = map_option (\<lambda>(es, n). \<lparr>ns_Items = map fst (slice_elems es), ns_TotalItems = n\<rparr>)
     (json_Decode (into_page zero_NZBNEntity into_NZBNEntity) (([], 0), 0) body)"

text \<open>What the registers write for a page of companies, and that it is read as it was written.\<close>

definition director_json :: "Director \<Rightarrow> json" where
  "director_json d = JObject [(''fullName'', JString (dct_FullName d)), (''residentialCity'', JString (ResidentialCity d)),
     (''consentDate'', JString (ConsentDate d))]"

definition company_json :: "Company \<Rightarrow> json" where
  "company_json c = JObject [(''companyNumber'', JString (CompanyNumber c)), (''companyName'', JString (CompanyName c)),
     (''companyStatus'', JString (CompanyStatus c)), (''entityTypeCode'', JString (co_EntityTypeCode c)),
     (''registrationDate'', JString (co_RegistrationDate c)), (''nzbn'', JString (co_NZBN c)),
     (''directors'', JArray (map director_json (Directors c)))]"

definition companies_json :: "CompaniesSearchResult \<Rightarrow> json" where
  "companies_json r = JObject [(''items'', JArray (map company_json (cs_Items r))),
     (''totalItems'', JNumber (dec_int (cs_TotalItems r)))]"

definition company_slot_of :: "Company \<Rightarrow> company_slot" where
  "company_slot_of c = (c, Directors c, length (Directors c))"

lemma into_Director_json: "into_Director z (director_json d) = Some d"
  by (simp add: into_Director_def into_struct_def director_json_def director_fields_def into_string_def)

lemma into_Company_json: "into_Company zero_Company (company_json c) = Some (company_slot_of c)"
  by (simp add: into_Company_def into_struct_def company_json_def company_fields_def zero_Company_def company_slot_of_def
      into_slice_fresh [where f = into_Director and z = zero_Director and enc = director_json and st = "\<lambda>d. d", OF into_Director_json])
    (simp add: into_string_def)

lemma company_depth: "json_depth (company_json c) \<le> 3"
proof -
  have "json_depth (JArray (map director_json (Directors c))) \<le> Suc 1"
    by (rule json_depth_array) (simp add: director_json_def)
  then show ?thesis by (simp add: company_json_def)
qed

lemma decode_companies_text:
  assumes "json_ok (companies_json r)" and "in_int64 (cs_TotalItems r)"
  shows "decode_CompaniesSearchResult (json_text (companies_json r)) = Some r"
proof -
  have "json_depth (JArray (map company_json (cs_Items r))) \<le> Suc 3"
    by (rule json_depth_array) (rule company_depth)
  then have depth: "json_depth (companies_json r) \<le> 100" by (simp add: companies_json_def)
  have items: "map (fst \<circ> company_slot_of) (cs_Items r) = cs_Items r" by (simp add: company_slot_of_def comp_def)
  show ?thesis
    by (simp add: decode_CompaniesSearchResult_def Unmarshal_text [OF assms(1) depth])
      (simp add: companies_json_def into_page_def into_struct_def search_fields_def into_int_def assms(2) items
        into_slice_fresh [where f = into_Company and z = zero_Company and enc = company_json and st = company_slot_of, OF into_Company_json])
qed

section \<open>Operations\<close>

definition mbie_get :: "transport \<Rightarrow> mbie_Client \<Rightarrow> string \<Rightarrow> 'a decoder \<Rightarrow> goerror + 'a" where
  "mbie_get net c path decode =
     (case http_NewRequest ''GET'' (mc_baseURL c @ path) of
        Inl e \<Rightarrow> Inl (Wrap ''mbie: build request: '' e)
      | Inr req \<Rightarrow> (case net (Header_Set ''Accept'' ''application/json''
              (Header_Set ''Authorization'' (''ApiKey '' @ mc_apiKey c) req)) of
            Inl e \<Rightarrow> Inl (Wrap (''mbie: request '' @ path @ '': '') e)
          | Inr (status, body) \<Rightarrow>
              if status = 404 then Inl mbie_ErrNotFound
              else if status \<noteq> 200 then Inl (Errorf (''mbie: '' @ path @ '' returned HTTP '' @ dec_int status))
              else (case decode body of
                  Inl e \<Rightarrow> Inl (Wrap (''mbie: decode response from '' @ path @ '': '') e)
                | Inr result \<Rightarrow> Inr result)))"

definition page_limit :: "int \<Rightarrow> int" where
  "page_limit limit = (if limit \<le> 0 \<or> limit > 100 then 20 else limit)"

definition SearchCompanies ::
  "transport \<Rightarrow> (string \<Rightarrow> goerror) \<Rightarrow> mbie_Client \<Rightarrow> string \<Rightarrow> int \<Rightarrow> goerror + CompaniesSearchResult" where
  "SearchCompanies net jerr c q limit =
     (if q = '''' then Inl (Errorf ''mbie: companies search query cannot be empty'')
      else mbie_get net c (''/v3/companies?q='' @ url_QueryEscape q @ ''&pageSize='' @ dec_int (page_limit limit)) (decoded jerr decode_CompaniesSearchResult))"

definition GetCompany :: "transport \<Rightarrow> (string \<Rightarrow> goerror) \<Rightarrow> mbie_Client \<Rightarrow> string \<Rightarrow> goerror + Company" where
  "GetCompany net jerr c companyNumber =
     (if companyNumber = '''' then Inl (Errorf ''mbie: companyNumber is required'')
      else mbie_get net c (''/v3/companies/'' @ url_PathEscape companyNumber) (decoded jerr decode_Company))"

definition GetCompaniesByNZBN :: "transport \<Rightarrow> (string \<Rightarrow> goerror) \<Rightarrow> mbie_Client \<Rightarrow> string \<Rightarrow> goerror + Company" where
  "GetCompaniesByNZBN net jerr c nzbn =
     (if nzbn = '''' then Inl (Errorf ''mbie: nzbn is required'')
      else mbie_get net c (''/v3/companies?nzbn='' @ url_QueryEscape nzbn) (decoded jerr decode_Company))"

definition GetEntityByNZBN :: "transport \<Rightarrow> (string \<Rightarrow> goerror) \<Rightarrow> mbie_Client \<Rightarrow> string \<Rightarrow> goerror + NZBNEntity" where
  "GetEntityByNZBN net jerr c nzbn =
     (if nzbn = '''' then Inl (Errorf ''mbie: nzbn cannot be empty'')
      else (case mbie_get net c (''/v3/nzbn/entities/'' @ nzbn) (decoded jerr decode_NZBNEntity) of
          Inl e \<Rightarrow> Inl (Wrap (''mbie: get entity by NZBN '' @ nzbn @ '': '') e)
        | Inr entity \<Rightarrow> Inr entity))"

definition nzbn_search_path :: "string \<Rightarrow> int \<Rightarrow> int \<Rightarrow> string" where
  "nzbn_search_path q limit page = ''/v3/nzbn/entities?search-term='' @ q @ ''&page-size='' @
     dec_int (page_limit limit) @ ''&page='' @ dec_int (if page \<le> 0 then 1 else page)"

definition SearchByNZBN ::
  "transport \<Rightarrow> (string \<Rightarrow> goerror) \<Rightarrow> mbie_Client \<Rightarrow> string \<Rightarrow> int \<Rightarrow> int \<Rightarrow> goerror + NZBNSearchResult" where
  "SearchByNZBN net jerr c q limit page =
     (if q = '''' then Inl (Errorf ''mbie: nzbn search query cannot be empty'')
      else (case mbie_get net c (nzbn_search_path q limit page) (decoded jerr decode_NZBNSearchResult) of
          Inl e \<Rightarrow> Inl (Wrap ''mbie: nzbn search: '' e)
        | Inr result \<Rightarrow> Inr result))"

section \<open>What the operations guarantee\<close>

lemma page_limit_bounds: "1 \<le> page_limit limit" "page_limit limit \<le> 100"
  by (auto simp: page_limit_def)

text \<open>A decimal number can stand in a query.\<close>

lemma query_text_dec_pos: "0 \<le> n \<Longrightarrow> query_text (dec_pos n)"
proof (induction n rule: dec_pos.induct)
  case (1 n)
  have digit: "query_text [dec_digit (nat d)]" if "0 \<le> d" "d < 10" for d :: int
    using that by (intro query_text_unreserved) (auto simp: unreserved_def dec_digit_def Let_def)
  show ?case
  proof (cases "n < 10")
    case True
    then show ?thesis using digit [of n] 1(2) by (simp add: dec_pos.simps [of n])
  next
    case False
    then show ?thesis using digit [of "n mod 10"] 1 by (simp add: dec_pos.simps [of n])
  qed
qed

text \<open>
  A company search escapes its text, so the server reads exactly that text and the clamped size; an
  NZBN search does not, and a text with an ampersand sets the page size itself.
\<close>

lemma query_text_dec_int: "query_text (dec_int n)"
  using query_text_dec_pos [of "- n"] query_text_dec_pos [of n] by (auto simp: dec_int_def)

lemma SearchCompanies_reads:
  assumes "path_text b"
  shows "url_accepted (b @ ''/v3/companies?q='' @ url_QueryEscape q @ ''&pageSize='' @ dec_int (page_limit limit))"
    "request_query (b @ ''/v3/companies?q='' @ url_QueryEscape q @ ''&pageSize='' @ dec_int (page_limit limit)) =
       [(''q'', q), (''pageSize'', dec_int (page_limit limit))]"
proof -
  let ?n = "dec_int (page_limit limit)"
  let ?q = "''q='' @ url_QueryEscape q @ ''&pageSize='' @ ?n"
  have n: "query_text ?n" by (rule query_text_dec_int)
  have esc: "CHR ''#'' \<notin> set (url_QueryEscape q)" "list_all (\<lambda>c. \<not> is_control c) (url_QueryEscape q)"
    using encode_plain_set [of _ "[([], q)]"]
    by (auto simp: values_Encode_def encode_pair_def list_all_iff)
  have split: "b @ ''/v3/companies?q='' @ url_QueryEscape q @ ''&pageSize='' @ ?n = (b @ ''/v3/companies'') @ CHR ''?'' # ?q"
    by simp
  have plain: "CHR ''#'' \<notin> set ?q" "list_all (\<lambda>c. \<not> is_control c) ?q" "path_text (b @ ''/v3/companies'')"
    using esc query_text_plain [OF n] assms by simp_all
  show "url_accepted (b @ ''/v3/companies?q='' @ url_QueryEscape q @ ''&pageSize='' @ ?n)"
    unfolding split by (rule url_accepted_query [OF plain(3,1,2)])
  have "encode_pair (''q'', q) = ''q='' @ url_QueryEscape q"
    by (simp add: encode_pair_def url_QueryEscape_def query_escape_char_def unreserved_def)
  then have "url_ParseQuery ?q = (''q'', q) # url_ParseQuery (''pageSize='' @ ?n)"
    using ParseQuery_encoded [of "(''q'', q)" "''pageSize='' @ ?n"] by simp
  also have "url_ParseQuery (''pageSize='' @ ?n) = [(''pageSize'', ?n)]"
    using ParseQuery_raw_last [of "''pageSize''" ?n] n by simp
  finally show "request_query (b @ ''/v3/companies?q='' @ url_QueryEscape q @ ''&pageSize='' @ ?n) =
      [(''q'', q), (''pageSize'', ?n)]"
    unfolding split request_of_query(2) [OF plain(3,1)] .
qed

lemma SearchByNZBN_injection:
  assumes "path_text b" "query_text q" "query_text n"
  shows "values_Get ''page-size'' (request_query (b @ nzbn_search_path (q @ ''&page-size='' @ n) limit page)) = n"
proof -
  let ?rest = "''page-size='' @ dec_int (page_limit limit) @ ''&page='' @ dec_int (if page \<le> 0 then 1 else page)"
  let ?q = "''search-term='' @ q @ ''&page-size='' @ n @ ''&'' @ ?rest"
  have split: "b @ nzbn_search_path (q @ ''&page-size='' @ n) limit page = (b @ ''/v3/nzbn/entities'') @ CHR ''?'' # ?q"
    by (simp add: nzbn_search_path_def)
  have plain: "CHR ''#'' \<notin> set ?q" "path_text (b @ ''/v3/nzbn/entities'')"
    using assms(1) query_text_plain [OF assms(2)] query_text_plain [OF assms(3)]
      query_text_plain [OF query_text_dec_int [of "page_limit limit"]]
      query_text_plain [OF query_text_dec_int [of "if page \<le> 0 then 1 else page"]] by simp_all
  have "url_ParseQuery ?q = (''search-term'', q) # url_ParseQuery (''page-size='' @ n @ ''&'' @ ?rest)"
    using ParseQuery_raw [of "''search-term''" q "''page-size='' @ n @ ''&'' @ ?rest"] assms(2) by simp
  also have "url_ParseQuery (''page-size='' @ n @ ''&'' @ ?rest) = (''page-size'', n) # url_ParseQuery ?rest"
    using ParseQuery_raw [of "''page-size''" n ?rest] assms(3) by simp
  finally show ?thesis
    unfolding split request_of_query(2) [OF plain(2,1)] by (simp add: values_Get_def)
qed

section \<open>bdm\<close>

record DeathRecord =
  RegistrationID :: string
  dth_FullName :: string
  dth_DateOfDeath :: gotime
  AgeAtDeath :: int
  PlaceOfDeath :: string
  dth_RegistrationDate :: gotime

definition ErrNotImplemented :: goerror where
  "ErrNotImplemented = Errorf ''bdm: real BDM API not yet available; use manual death notification flow''"

definition StubNotifier_GetDeathRecord :: "string \<Rightarrow> goerror + DeathRecord" where
  "StubNotifier_GetDeathRecord identifier = Inl ErrNotImplemented"

definition StubNotifier_NotifyDeath :: "DeathRecord \<Rightarrow> goerror option" where
  "StubNotifier_NotifyDeath r = Some ErrNotImplemented"

record ManualNotification =
  DeceasedFLT :: string
  DeceasedFullName :: string
  mn_DateOfDeath :: gotime
  CertificateScanURL :: string
  NotifiedByFLT :: string
  NotifiedAt :: gotime

end
