(* ===== verification/Time_Texts.thy ===== *)
theory Time_Texts
  imports Json_Answers Civil_Dates
begin

text \<open>
  \<open>Time.UnmarshalJSON\<close>: an RFC 3339 text read into an instant.  Reading undoes what \<open>MarshalJSON\<close>
  writes, for every instant and every zone whose offset is in whole minutes.
\<close>

section \<open>The calendar\<close>

text \<open>The date of an instant is a date of the calendar, and building it again yields the midnight before.\<close>

lemma days_before_next_year: "days_before_year (y + 1) = days_before_year y + (if is_leap y then 366 else 365)"
proof -
  have step: "y div n = (y - 1) div n + (if n dvd y then 1 else 0)" if "0 < n" for n :: int
  proof -
    have "y - 1 = n * (y div n) + (y mod n - 1)" by simp
    moreover have bounds: "0 \<le> y mod n" "y mod n < n" using that by simp_all
    ultimately have "(y - 1) div n = (if y mod n = 0 then y div n - 1 else y div n)"
      using that by (intro int_div_pos_eq [where r = "if y mod n = 0 then n - 1 else y mod n - 1"])
        (use bounds in \<open>auto simp: algebra_simps\<close>)
    then show ?thesis by (simp add: dvd_eq_mod_eq_0)
  qed
  have "days_before_year (y + 1) = 365 * y + y div 4 - y div 100 + y div 400" by (simp add: days_before_year_def)
  also have "\<dots> = days_before_year y + 365 + (if 4 dvd y then 1 else 0) - (if 100 dvd y then 1 else 0) + (if 400 dvd y then 1 else 0)"
    unfolding days_before_year_def step [of 4, simplified] step [of 100, simplified] step [of 400, simplified] by simp
  finally have days: "days_before_year (y + 1) =
    days_before_year y + 365 + (if 4 dvd y then 1 else 0) - (if 100 dvd y then 1 else 0) + (if 400 dvd y then 1 else 0)" .
  have multiples: "100 dvd y \<Longrightarrow> 4 dvd y" "400 dvd y \<Longrightarrow> 100 dvd y"
    by (rule dvd_trans [where b = 100], simp, assumption, rule dvd_trans [where b = 400], simp, assumption)
  show ?thesis
  proof (cases "100 dvd y")
    case True
    with multiples(1) show ?thesis unfolding days is_leap_def mod_eq_0_iff_dvd by (cases "400 dvd y") simp_all
  next
    case False
    with multiples(2) have "\<not> 400 dvd y" by blast
    with False show ?thesis unfolding days is_leap_def mod_eq_0_iff_dvd by (cases "4 dvd y") simp_all
  qed
qed

lemma year_yday_in_year:
  assumes "year_yday d = (y, k)"
  shows "k < (if is_leap y then 366 else 365)"
proof (rule ccontr)
  assume "\<not> k < (if is_leap y then 366 else 365)"
  with year_yday_bound [OF assms] have "k = 365" "\<not> is_leap y" by (auto split: if_splits)
  moreover have "d = days_before_year y + int k"
    by (rule year_yday_parts [OF assms]) (simp add: cycles_days)
  ultimately have "d = days_before_year (y + 1) + 0" by (simp add: days_before_next_year)
  moreover have "year_yday (days_before_year (y + 1) + 0) = (y + 1, nat 0)"
    by (rule year_yday_before_year) simp_all
  ultimately show False using assms by simp
qed

lemma month_day_in_month:
  "month_day ls m k = (m', d) \<Longrightarrow> k < sum_list ls \<Longrightarrow> m \<le> m' \<and> m' < m + length ls \<and> 1 \<le> d \<and> d \<le> ls ! (m' - m)"
proof (induction ls m k rule: month_day.induct)
  case (2 l ls m k)
  show ?case
  proof (cases "k < l")
    case False
    with 2 have "m + 1 \<le> m' \<and> m' < m + 1 + length ls \<and> 1 \<le> d \<and> d \<le> ls ! (m' - (m + 1))" by simp
    then show ?thesis by (auto simp: nth_Cons' Suc_le_eq)
  qed (use 2 in auto)
qed simp

lemma date_of_valid:
  assumes "date_of t = (y, m, d)"
  shows "valid_date y m d"
proof -
  obtain k where k: "year_yday (wsec t div 86400) = (y, k)" "month_day (month_lengths y) 1 k = (m, d)"
    using assms by (auto simp: date_of_def Let_def split: prod.splits)
  have "k < sum_list (month_lengths y)" using year_yday_in_year [OF k(1)] by (auto simp: month_lengths_def split: if_splits)
  from month_day_in_month [OF k(2) this] show ?thesis by (auto simp: valid_date_def days_in_def month_lengths_def)
qed

lemma time_Date_of:
  assumes "date_of t = (y, m, d)"
  shows "wsec (time_Date y m d) = wsec t - wsec t mod 86400"
proof -
  have "date_of (time_Date y m d) = date_of t" by (simp add: date_of_time_Date date_of_valid [OF assms] assms)
  then have "wsec (time_Date y m d) div 86400 = wsec t div 86400" by (rule date_of_inj)
  moreover have "wsec (time_Date y m d) mod 86400 = 0" by (simp add: time_Date_def)
  ultimately show ?thesis by (metis add.right_neutral div_mult_mod_eq minus_mod_eq_div_mult)
qed

lemma clock_seconds:
  assumes "clock_of t = (hh, mm, ss)"
  shows "wsec t mod 86400 = hh * 3600 + mm * 60 + ss"
proof -
  have *: "s = s div 3600 * 3600 + s mod 3600 div 60 * 60 + s mod 60" for s :: int
    using div_mult_mod_eq [of s 3600] div_mult_mod_eq [of "s mod 3600" 60] by (simp add: mod_mod_cancel add.assoc)
  show ?thesis using assms * [of "wsec t mod 86400"] by (auto simp: clock_of_def Let_def)
qed

section \<open>Parse\<close>

text \<open>\<open>getnum\<close>: two digits, or, where the layout allows it, one.\<close>

definition getnum :: "bool \<Rightarrow> string \<Rightarrow> (int \<times> string) option" where
  "getnum fixed s = (case s of
       a # b # r \<Rightarrow>
         if \<not> is_digit a then None
         else if is_digit b then Some (digit_value a * 10 + digit_value b, r)
         else if fixed then None else Some (digit_value a, b # r)
     | [a] \<Rightarrow> if is_digit a \<and> \<not> fixed then Some (digit_value a, []) else None
     | [] \<Rightarrow> None)"

definition year_num :: "string \<Rightarrow> (int \<times> string) option" where
  "year_num s = (let ds = take 4 s
     in if length ds = 4 \<and> list_all is_digit ds then Some (number_value ds, drop 4 s) else None)"

fun skip_char :: "char \<Rightarrow> string \<Rightarrow> string option" where
  "skip_char c [] = None"
| "skip_char c (x # s) = (if x = c then Some s else None)"

text \<open>A fraction of a second, to nanoseconds, is accepted though the layout has none.\<close>

definition fraction :: "string \<Rightarrow> int \<times> string" where
  "fraction s = (case s of
       c # d # r \<Rightarrow>
         if (c = CHR ''.'' \<or> c = CHR '','') \<and> is_digit d
         then let ds = take 9 (takeWhile is_digit (d # r))
              in (number_value ds * 10 ^ (9 - length ds), dropWhile is_digit (d # r))
         else (0, s)
     | _ \<Rightarrow> (0, s))"

text \<open>The offset ends the text.\<close>

definition zone_num :: "string \<Rightarrow> int option" where
  "zone_num s = (if s = ''Z'' then Some 0 else case s of
       [] \<Rightarrow> None
     | g # s \<Rightarrow> do {
         (hr, s) \<leftarrow> getnum True s;
         s \<leftarrow> skip_char (CHR '':'') s;
         (mn, s) \<leftarrow> getnum True s;
         if s = [] \<and> hr \<le> 24 \<and> mn \<le> 60 \<and> g \<in> {CHR ''+'', CHR ''-''}
         then Some ((if g = CHR ''-'' then - 1 else 1) * ((hr * 60 + mn) * 60)) else None })"

definition parse_RFC3339 :: "string \<Rightarrow> gotime option" where
  "parse_RFC3339 s = do {
     (y, s) \<leftarrow> year_num s;
     s \<leftarrow> skip_char (CHR ''-'') s;
     (m, s) \<leftarrow> getnum True s;
     s \<leftarrow> skip_char (CHR ''-'') s;
     (d, s) \<leftarrow> getnum True s;
     s \<leftarrow> skip_char (CHR ''T'') s;
     (hh, s) \<leftarrow> getnum False s;
     s \<leftarrow> skip_char (CHR '':'') s;
     (mm, s) \<leftarrow> getnum True s;
     s \<leftarrow> skip_char (CHR '':'') s;
     (ss, s) \<leftarrow> getnum True s;
     let (ns, s) = fraction s;
     off \<leftarrow> zone_num s;
     if valid_date y (nat m) (nat d) \<and> hh < 24 \<and> mm < 60 \<and> ss < 60
     then Some (GoTime (wsec (time_Date y (nat m) (nat d)) + hh * 3600 + mm * 60 + ss - off) ns) else None
   }"

text \<open>
  A time as \<open>encoding/json\<close> reads it: \<open>null\<close> leaves it as it is.  (Go looks at the bytes between the
  quotes, so it refuses a time written with escapes, which is read here.)
\<close>

definition into_time :: "gotime into" where
  "into_time old j = (case j of JNull \<Rightarrow> Some old | JString s \<Rightarrow> parse_RFC3339 s | _ \<Rightarrow> None)"

section \<open>Reading undoes writing\<close>

lemma getnum_pad: "0 \<le> n \<Longrightarrow> n < 100 \<Longrightarrow> getnum fixed (pad_dec 2 n @ s) = Some (n, s)"
proof -
  assume n: "0 \<le> n" "n < 100"
  have "pad_dec 2 n = [dec_digit (nat (n div 10 mod 10)), dec_digit (nat (n mod 10))]" by (simp add: numeral_2_eq_2)
  moreover have "nat (n div 10 mod 10) < 10" "nat (n mod 10) < 10" by (simp_all add: nat_less_iff)
  moreover have "n div 10 mod 10 = n div 10" using n by simp
  ultimately show ?thesis using n by (simp add: getnum_def digit_of_dec_digit pos_imp_zdiv_nonneg_iff)
qed

lemma year_num_pad: "0 \<le> y \<Longrightarrow> y < 10000 \<Longrightarrow> year_num (year_text y @ s) = Some (y, s)"
  using pad_dec_reads [of y 4] by (simp add: year_num_def year_text_def Let_def del: pad_dec.simps)

lemma strip_zeros_all_digits: "list_all is_digit s \<Longrightarrow> list_all is_digit (strip_zeros s)"
  using strip_zeros_set [of s] by (auto simp: list_all_iff)

lemma number_value_zeros: "number_value (s @ replicate n (CHR ''0'')) = number_value s * 10 ^ n"
proof (induction n)
  case (Suc n)
  have "s @ replicate (Suc n) (CHR ''0'') = (s @ replicate n (CHR ''0'')) @ [CHR ''0'']"
    by (simp add: replicate_append_same)
  then show ?case by (simp only: number_value_snoc Suc) (simp add: digit_value_def)
qed simp

lemma fraction_text:
  assumes "0 \<le> ns" "ns < 1000000000" "s = [] \<or> \<not> is_digit (hd s) \<and> hd s \<noteq> CHR ''.'' \<and> hd s \<noteq> CHR '',''"
  shows "fraction (frac_text ns @ s) = (ns, s)"
proof (cases "ns = 0")
  case True
  then show ?thesis using assms(3) by (auto simp: frac_text_def fraction_def split: list.split)
next
  case False
  let ?ds = "strip_zeros (pad_dec 9 ns)"
  obtain n where n: "pad_dec 9 ns = ?ds @ replicate n (CHR ''0'')" using strip_zeros_append by blast
  have num: "number_value (pad_dec 9 ns) = ns" "list_all is_digit ?ds"
    using pad_dec_reads [of ns 9] assms strip_zeros_all_digits by (simp_all del: pad_dec.simps)
  then have ns: "number_value ?ds * 10 ^ n = ns" using number_value_zeros [of ?ds n] n by simp
  have len: "length ?ds + n = 9" using arg_cong [OF n, of length] by (simp del: pad_dec.simps)
  have "?ds \<noteq> []" using ns False by auto
  then obtain d r where dr: "?ds = d # r" by (cases ?ds) auto
  have tw: "takeWhile is_digit (?ds @ s) = ?ds" "dropWhile is_digit (?ds @ s) = s"
    using num(2) assms(3) by (cases s; simp add: list_all_iff takeWhile_append dropWhile_append)+
  have "fraction (frac_text ns @ s) = fraction (CHR ''.'' # ?ds @ s)" using False by (simp add: frac_text_def)
  also have "\<dots> = (number_value ?ds * 10 ^ (9 - length ?ds), s)"
    using tw num(2) len unfolding dr by (simp add: fraction_def Let_def)
  also have "9 - length ?ds = n" using len by simp
  finally show ?thesis using ns by simp
qed

lemma zone_num_pad:
  assumes "0 \<le> h" "h \<le> 24" "0 \<le> n" "n \<le> 60" "g \<in> {CHR ''+'', CHR ''-''}"
  shows "zone_num (g # pad_dec 2 h @ CHR '':'' # pad_dec 2 n) =
    Some ((if g = CHR ''-'' then - 1 else 1) * ((h * 60 + n) * 60))"
  using getnum_pad [of h True "CHR '':'' # pad_dec 2 n"] getnum_pad [of n True "[]"] assms
  by (auto simp: zone_num_def simp del: pad_dec.simps)

lemma zone_num_text:
  assumes "\<bar>zone_minutes off\<bar> < 1440" "off mod 60 = 0"
  shows "zone_num (zone_text off) = Some off"
proof (cases "off = 0")
  case False
  define m where "m = zone_minutes off"
  obtain q where q: "off = 60 * q" using assms(2) by (auto elim: dvdE simp: mod_eq_0_iff_dvd)
  then have "zone_minutes off = q" by (simp add: zone_minutes_def go_div_def abs_mult sgn_mult sgn_mult_abs)
  then have off: "off = m * 60" by (simp add: m_def q)
  have m: "\<bar>m\<bar> < 1440" using assms(1) by (simp add: m_def)
  define h where "h = \<bar>m\<bar> div 60"
  define n where "n = \<bar>m\<bar> mod 60"
  have hn: "0 \<le> h" "h \<le> 24" "0 \<le> n" "n \<le> 60" "h * 60 + n = \<bar>m\<bar>"
    using m by (simp_all add: h_def n_def pos_imp_zdiv_nonneg_iff)
  have "zone_text off = (if m < 0 then CHR ''-'' else CHR ''+'') # pad_dec 2 h @ CHR '':'' # pad_dec 2 n"
    using False by (simp add: zone_text_def Let_def m_def [symmetric] h_def n_def del: pad_dec.simps)
  then have "zone_num (zone_text off) = Some ((if m < 0 then - 1 else 1) * (\<bar>m\<bar> * 60))"
    using zone_num_pad [OF hn(1-4), of "if m < 0 then CHR ''-'' else CHR ''+''"] by (simp add: hn(5) del: pad_dec.simps)
  then show ?thesis by (simp add: off)
qed (simp add: zone_num_def zone_text_def)

lemma zone_text_start: "zone_text off \<noteq> [] \<and> hd (zone_text off) \<in> {CHR ''Z'', CHR ''+'', CHR ''-''}"
  by (simp add: zone_text_def Let_def del: pad_dec.simps)

text \<open>A time that was marshalled is read back as the same instant.\<close>

lemma RFC3339_round_trip:
  assumes "time_json off t = Some (JString s)" "off mod 60 = 0" "0 \<le> wnsec t" "wnsec t < 1000000000"
  shows "parse_RFC3339 s = Some t"
proof -
  define here where "here = GoTime (wsec t + off) (wnsec t)"
  obtain y m d hh mm ss where parts: "date_of here = (y, m, d)" "clock_of here = (hh, mm, ss)" using prod_cases3 by metis
  have year: "0 \<le> y" "y < 10000" and off: "\<bar>zone_minutes off\<bar> < 1440"
    and s: "s = butlast (RFC3339Nano here) @ zone_text off"
    using assms(1) by (auto simp: time_json_def Let_def here_def [symmetric] parts split: if_splits)
  have ns: "wnsec here = wnsec t" by (simp add: here_def)
  note date = date_of_valid [OF parts(1)]
  note bounds = clock_of_bounds [OF parts(2)]
  have md: "int m < 100" "int d < 100" using date days_in_le_31 [of m y] by (auto simp: valid_date_def)
  have layout: "s = year_text y @ CHR ''-'' # pad_dec 2 (int m) @ CHR ''-'' # pad_dec 2 (int d) @ CHR ''T'' #
      pad_dec 2 hh @ CHR '':'' # pad_dec 2 mm @ CHR '':'' # pad_dec 2 ss @ frac_text (wnsec t) @ zone_text off"
    unfolding s RFC3339Nano_def parts by (simp add: butlast_append ns del: pad_dec.simps)
  have frac: "fraction (frac_text (wnsec t) @ zone_text off) = (wnsec t, zone_text off)"
    by (rule fraction_text [OF assms(3,4)]) (use zone_text_start [of off] in \<open>auto simp: is_digit_def\<close>)
  have instant: "wsec (time_Date y m d) + hh * 3600 + mm * 60 + ss = wsec t + off"
    using time_Date_of [OF parts(1)] clock_seconds [OF parts(2)] by (simp add: here_def)
  have num: "getnum fixed (pad_dec 2 n @ r) = Some (n, r)" if "0 \<le> n" "n < 100" for fixed n r
    by (rule getnum_pad [OF that])
  show ?thesis
    unfolding layout parse_RFC3339_def year_num_pad [OF year]
    using date bounds md instant by (simp add: num frac zone_num_text [OF off assms(2)] del: pad_dec.simps)
qed

end
