(* ===== verification/Auth_Tokens.thy ===== *)
theory Auth_Tokens
  imports Jwt Time_Texts
begin

text \<open>
  \<open>packages/nz-common/auth\<close>: signed tokens, and application sessions in Redis.  Redis, a service, is a
  parameter over its state.
\<close>

section \<open>token.go\<close>

record Claims =
  cl_IssuedAt :: gotime
  cl_ExpiresAt :: gotime
  cl_UserID :: string
  cl_FLT :: string
  cl_AssuranceLevel :: int

record TokenSigner =
  ts_secret :: string

definition NewTokenSigner :: "string \<Rightarrow> TokenSigner" where
  "NewTokenSigner secret = \<lparr>ts_secret = secret\<rparr>"

text \<open>The two readings of the clock are arguments.\<close>

definition TokenSigner_Sign ::
  "Claims jwt \<Rightarrow> TokenSigner \<Rightarrow> gotime \<Rightarrow> gotime \<Rightarrow> string \<Rightarrow> string \<Rightarrow> int \<Rightarrow> int \<Rightarrow> goerror + string" where
  "TokenSigner_Sign j ts now1 now2 userID flt assuranceLevel ttl =
     SignedString j (ts_secret ts)
       \<lparr>cl_IssuedAt = NewNumericDate now1, cl_ExpiresAt = NewNumericDate (time_Add now2 ttl),
        cl_UserID = userID, cl_FLT = flt, cl_AssuranceLevel = assuranceLevel\<rparr>"

definition signer_key :: "TokenSigner \<Rightarrow> SigningMethod \<Rightarrow> goerror + string" where
  "signer_key ts m = (case m of
       SigningMethodHMAC alg \<Rightarrow> Inr (ts_secret ts)
     | OtherMethod alg \<Rightarrow> Inl (Errorf (''unexpected signing method: '' @ alg)))"

definition TokenSigner_Parse :: "Claims jwt \<Rightarrow> TokenSigner \<Rightarrow> gotime \<Rightarrow> string \<Rightarrow> goerror + Claims" where
  "TokenSigner_Parse j ts now tokenStr =
     (case ParseWithClaims j (signer_key ts) now tokenStr of
        Inl e \<Rightarrow> Inl (Wrap ''auth: parse token: '' e)
      | Inr claims \<Rightarrow> Inr claims)"

definition Claims_utf8 :: "Claims \<Rightarrow> bool" where
  "Claims_utf8 c \<longleftrightarrow> valid_utf8 (cl_UserID c) \<and> valid_utf8 (cl_FLT c)"

lemma Sign_Parse:
  assumes "jwt_parses_signed cl_ExpiresAt Claims_utf8 j" and "valid_utf8 u" "valid_utf8 flt"
    and "TokenSigner_Sign j ts now1 now2 u flt l ttl = Inr token"
    and "now < NewNumericDate (time_Add now2 ttl)"
  shows "\<exists>c. TokenSigner_Parse j ts now token = Inr c \<and> cl_UserID c = u \<and> cl_FLT c = flt \<and> cl_AssuranceLevel c = l"
proof -
  let ?c = "\<lparr>cl_IssuedAt = NewNumericDate now1, cl_ExpiresAt = NewNumericDate (time_Add now2 ttl),
        cl_UserID = u, cl_FLT = flt, cl_AssuranceLevel = l\<rparr>"
  have "ParseWithClaims j (signer_key ts) now token = Inr ?c"
    by (rule jwt_parsed [OF assms(1) assms(4) [unfolded TokenSigner_Sign_def]])
      (use assms(2,3,5) in \<open>simp_all add: signer_key_def Claims_utf8_def\<close>)
  then show ?thesis by (simp add: TokenSigner_Parse_def)
qed

section \<open>session.go\<close>

record Session =
  sn_FLT :: string
  sn_AssuranceLevel :: int
  sn_UserID :: string
  sn_CreatedAt :: gotime

text \<open>\<open>redis.Nil\<close> is the answer for a missing key.\<close>

definition redis_Nil :: goerror where
  "redis_Nil = DbError ''redis: nil''"

record 'r redis =
  rd_Set :: "string \<Rightarrow> string \<Rightarrow> int \<Rightarrow> 'r \<Rightarrow> goerror option \<times> 'r"
  rd_Get :: "string \<Rightarrow> 'r \<Rightarrow> goerror + string"
  rd_Del :: "string \<Rightarrow> 'r \<Rightarrow> goerror option \<times> 'r"
  rd_Expire :: "string \<Rightarrow> int \<Rightarrow> 'r \<Rightarrow> goerror option \<times> 'r"

record 'r SessionStore =
  st_rdb :: "'r redis"
  st_ttl :: int

definition NewSessionStore :: "'r redis \<Rightarrow> int \<Rightarrow> 'r SessionStore" where
  "NewSessionStore rdb ttl = \<lparr>st_rdb = rdb, st_ttl = ttl\<rparr>"

text \<open>The JSON of a session; the time it was created is written in the zone it carries.\<close>

definition session_json :: "zone \<Rightarrow> Session \<Rightarrow> json option" where
  "session_json zone sess = do {
     t \<leftarrow> local_json zone (sn_CreatedAt sess);
     Some (JObject ([(''flt'', JString (sn_FLT sess)), (''al'', int_json (sn_AssuranceLevel sess))] @
       text_member ''uid'' (sn_UserID sess) @ [(''created_at'', t)]))
   }"

definition time_error :: "int \<Rightarrow> gotime \<Rightarrow> goerror" where
  "time_error off t = Errorf (''json: error calling MarshalJSON for type time.Time: Time.MarshalJSON: '' @
     (let y = fst (date_of (GoTime (wsec t + off) (wnsec t)))
      in if 0 \<le> y \<and> y < 10000 then ''timezone hour outside of range [0,23]'' else ''year outside of range [0,9999]''))"

definition session_fields :: "string list" where
  "session_fields = [''flt'', ''al'', ''uid'', ''created_at'']"

definition into_Session :: "Session into" where
  "into_Session = into_struct (\<lambda>x ms. do {
     f \<leftarrow> into_field session_fields ''flt'' into_string (sn_FLT x) ms;
     l \<leftarrow> into_field session_fields ''al'' into_int (sn_AssuranceLevel x) ms;
     u \<leftarrow> into_field session_fields ''uid'' into_string (sn_UserID x) ms;
     t \<leftarrow> into_field session_fields ''created_at'' into_time (sn_CreatedAt x) ms;
     Some \<lparr>sn_FLT = f, sn_AssuranceLevel = l, sn_UserID = u, sn_CreatedAt = t\<rparr>
   })"

definition zero_Session :: Session where
  "zero_Session = \<lparr>sn_FLT = '''', sn_AssuranceLevel = 0, sn_UserID = '''', sn_CreatedAt = zero_time\<rparr>"

definition SessionStore_Set :: "zone \<Rightarrow> 'r SessionStore \<Rightarrow> string \<Rightarrow> Session \<Rightarrow> 'r \<Rightarrow> goerror option \<times> 'r" where
  "SessionStore_Set zone s sessionID sess r =
     (case session_json zone sess of
        None \<Rightarrow> (Some (Wrap ''auth: marshal session: '' (time_error (zone (sn_CreatedAt sess)) (sn_CreatedAt sess))), r)
      | Some j \<Rightarrow> rd_Set (st_rdb s) (''session:'' @ sessionID) (json_text j) (st_ttl s) r)"

text \<open>\<open>jerr\<close> is the error of a text that cannot be decoded.\<close>

definition SessionStore_Get :: "(string \<Rightarrow> goerror) \<Rightarrow> 'r SessionStore \<Rightarrow> string \<Rightarrow> 'r \<Rightarrow> goerror + Session option" where
  "SessionStore_Get jerr s sessionID r =
     (case rd_Get (st_rdb s) (''session:'' @ sessionID) r of
        Inl e \<Rightarrow> if e = redis_Nil then Inr None else Inl (Wrap ''auth: get session: '' e)
      | Inr val \<Rightarrow> (case json_Unmarshal into_Session zero_Session val of
            None \<Rightarrow> Inl (Wrap ''auth: unmarshal session: '' (jerr val))
          | Some sess \<Rightarrow> Inr (Some sess)))"

definition SessionStore_Delete :: "'r SessionStore \<Rightarrow> string \<Rightarrow> 'r \<Rightarrow> goerror option \<times> 'r" where
  "SessionStore_Delete s sessionID r = rd_Del (st_rdb s) (''session:'' @ sessionID) r"

definition SessionStore_Refresh :: "'r SessionStore \<Rightarrow> string \<Rightarrow> 'r \<Rightarrow> goerror option \<times> 'r" where
  "SessionStore_Refresh s sessionID r = rd_Expire (st_rdb s) (''session:'' @ sessionID) (st_ttl s) r"

text \<open>
  What Redis documents of its commands, before any key expires: a successful \<open>SET\<close> or \<open>DEL\<close> decides
  what a \<open>GET\<close> of that key yields and leaves the other keys, \<open>EXPIRE\<close> changes no value.
\<close>

definition redis_documented :: "'r redis \<Rightarrow> bool" where
  "redis_documented rd \<longleftrightarrow>
     (\<forall>k v t r r' k'. rd_Set rd k v t r = (None, r') \<longrightarrow> rd_Get rd k' r' = (if k' = k then Inr v else rd_Get rd k' r)) \<and>
     (\<forall>k r r' k'. rd_Del rd k r = (None, r') \<longrightarrow> rd_Get rd k' r' = (if k' = k then Inl redis_Nil else rd_Get rd k' r)) \<and>
     (\<forall>k t r r' k'. rd_Expire rd k t r = (None, r') \<longrightarrow> rd_Get rd k' r' = rd_Get rd k' r)"

text \<open>Sessions whose texts are UTF-8 are read back from their JSON as they were.\<close>

definition session_printable :: "zone \<Rightarrow> Session \<Rightarrow> bool" where
  "session_printable zone x \<longleftrightarrow> valid_utf8 (sn_FLT x) \<and> valid_utf8 (sn_UserID x) \<and> in_int64 (sn_AssuranceLevel x) \<and>
     valid_time (sn_CreatedAt x) \<and> zone (sn_CreatedAt x) mod 60 = 0"

lemma session_json_reads:
  assumes "session_json zone x = Some j" "session_printable zone x"
  shows "json_Unmarshal into_Session zero_Session (json_text j) = Some x"
proof -
  obtain t where t: "time_json (zone (sn_CreatedAt x)) (sn_CreatedAt x) = Some (JString t)"
    and j: "j = JObject ([(''flt'', JString (sn_FLT x)), (''al'', int_json (sn_AssuranceLevel x))] @
       text_member ''uid'' (sn_UserID x) @ [(''created_at'', JString t)])"
    using assms(1) by (auto simp: session_json_def local_json_def bind_eq_Some_conv time_json_def Let_def split: if_splits)
  have "valid_utf8 t" using time_json_ok [OF t] by simp
  moreover have "parse_RFC3339 t = Some (sn_CreatedAt x)"
    by (rule RFC3339_round_trip [OF t]) (use assms(2) in \<open>simp_all add: session_printable_def valid_time_def\<close>)
  ultimately show ?thesis
    using assms(2) unfolding j
    by (subst Unmarshal_text) (simp_all add: session_printable_def text_member_def int_json_def into_Session_def
        into_struct_def session_fields_def into_string_def into_int_def into_time_def zero_Session_def)
qed

text \<open>Then the store is a map from session identifiers to sessions.\<close>

lemma SessionStore_map:
  assumes "redis_documented (st_rdb s)"
  shows "SessionStore_Set zone s i x r = (None, r') \<Longrightarrow> session_printable zone x \<Longrightarrow>
      SessionStore_Get jerr s i' r' = (if i' = i then Inr (Some x) else SessionStore_Get jerr s i' r)"
    and "SessionStore_Delete s i r = (None, r') \<Longrightarrow>
      SessionStore_Get jerr s i' r' = (if i' = i then Inr None else SessionStore_Get jerr s i' r)"
    and "SessionStore_Refresh s i r = (None, r') \<Longrightarrow> SessionStore_Get jerr s i' r' = SessionStore_Get jerr s i' r"
  using assms
  by (auto simp: redis_documented_def SessionStore_Set_def SessionStore_Get_def SessionStore_Delete_def
      SessionStore_Refresh_def session_json_reads split: option.splits)

end
