(* ===== verification/Certificates.thy ===== *)
theory Certificates
  imports Go_Time Go_Float Http_Client
begin

text \<open>
  \<open>packages/realme-go/certificates/helpers.go\<close>.  Files, PEM blocks and X.509 parsing are parameters.
\<close>

record certificate =
  ct_Subject :: string
  ct_Issuer :: string
  ct_NotBefore :: gotime
  ct_NotAfter :: gotime

text \<open>
  A key pair from two files: its certificate as bytes, and the type of its key as \<open>%T\<close> prints it.
\<close>

record tls_pair =
  tp_Certificate :: string
  tp_key_type :: string

record cert_lib =
  cl_LoadX509KeyPair :: "string \<Rightarrow> string \<Rightarrow> goerror + tls_pair"
  cl_ReadFile :: "string \<Rightarrow> goerror + string"
  pem_Decode :: "string \<Rightarrow> string option"
  ParseCertificate :: "string \<Rightarrow> goerror + certificate"

definition LoadKeyPair :: "cert_lib \<Rightarrow> string \<Rightarrow> string \<Rightarrow> goerror + tls_pair \<times> certificate" where
  "LoadKeyPair l certFile keyFile =
     (case cl_LoadX509KeyPair l certFile keyFile of
        Inl e \<Rightarrow> Inl (Wrap ''load key pair: '' e)
      | Inr pair \<Rightarrow> (case ParseCertificate l (tp_Certificate pair) of
            Inl e \<Rightarrow> Inl (Wrap ''parse certificate: '' e)
          | Inr leaf \<Rightarrow> if tp_key_type pair \<noteq> ''*rsa.PrivateKey''
              then Inl (Errorf (''private key must be RSA (got '' @ tp_key_type pair @ '')''))
              else Inr (pair, leaf)))"

record CertInfo =
  ci_Subject :: string
  ci_Issuer :: string
  ci_NotBefore :: gotime
  ci_NotAfter :: gotime
  DaysLeft :: int
  IsExpired :: bool

text \<open>
  \<open>Duration.Hours\<close> adds the whole hours and the rest as a fraction, in \<open>float64\<close>; the conversion to an
  integer cuts off towards zero.
\<close>

definition duration_Hours :: "int \<Rightarrow> rat" where
  "duration_Hours d =
     (let hour = 3600000000000
      in to_float64 (to_float64 (of_int (go_div d hour)) +
           to_float64 (to_float64 (of_int (go_mod d hour)) / of_int hour)))"

definition float_to_int :: "rat \<Rightarrow> int" where
  "float_to_int x = (if x < 0 then - \<lfloor>- x\<rfloor> else \<lfloor>x\<rfloor>)"

definition days_left :: "gotime \<Rightarrow> gotime \<Rightarrow> int" where
  "days_left notAfter now = float_to_int (to_float64 (duration_Hours (time_Sub notAfter now) / 24))"

definition InspectCertFile :: "cert_lib \<Rightarrow> gotime \<Rightarrow> string \<Rightarrow> goerror + CertInfo" where
  "InspectCertFile l now certFile =
     (case cl_ReadFile l certFile of
        Inl e \<Rightarrow> Inl (Wrap ''read cert file: '' e)
      | Inr data \<Rightarrow> (case pem_Decode l data of
            None \<Rightarrow> Inl (Errorf (''no PEM block found in '' @ fmt_q certFile))
          | Some block \<Rightarrow> (case ParseCertificate l block of
                Inl e \<Rightarrow> Inl (Wrap ''parse certificate: '' e)
              | Inr cert \<Rightarrow> Inr \<lparr>ci_Subject = ct_Subject cert, ci_Issuer = ct_Issuer cert,
                  ci_NotBefore = ct_NotBefore cert, ci_NotAfter = ct_NotAfter cert,
                  DaysLeft = days_left (ct_NotAfter cert) now, IsExpired = (ct_NotAfter cert < now)\<rparr>)))"

definition WarnIfExpiringSoon :: "cert_lib \<Rightarrow> gotime \<Rightarrow> string \<Rightarrow> int \<Rightarrow> string" where
  "WarnIfExpiringSoon l now certFile thresholdDays =
     (case InspectCertFile l now certFile of
        Inl e \<Rightarrow> ''WARNING: could not inspect certificate '' @ fmt_q certFile @ '': '' @ error_text e
      | Inr info \<Rightarrow>
          if IsExpired info
          then ''WARNING: certificate '' @ fmt_q certFile @ '' (CN='' @ ci_Subject info @ '') has EXPIRED''
          else if DaysLeft info \<le> thresholdDays
          then ''WARNING: certificate '' @ fmt_q certFile @ '' (CN='' @ ci_Subject info @ '') expires in '' @
            dec_int (DaysLeft info) @ '' days''
          else '''')"

text \<open>A whole number of days, as far as a \<open>Duration\<close> reaches, is counted exactly.\<close>

lemma go_div_mult: "0 < n \<Longrightarrow> go_div (k * n) n = k"
  by (cases "k = 0") (simp_all add: go_div_def abs_mult sgn_mult sgn_mult_abs)

lemma days_left_exact:
  assumes "nanos_between now notAfter = k * 86400000000000" "\<bar>k\<bar> \<le> 106751"
  shows "days_left notAfter now = k"
proof -
  have bounds: "\<bar>k * 86400000000000\<bar> < 2 ^ 63" using assms(2) by (simp add: abs_mult)
  then have sub: "time_Sub notAfter now = (k * 24) * 3600000000000"
    using assms(1) by (auto simp: time_Sub_def)
  have "go_div ((k * 24) * 3600000000000) 3600000000000 = k * 24" by (rule go_div_mult) simp
  moreover from this have "go_mod ((k * 24) * 3600000000000) 3600000000000 = 0" by (simp add: go_mod_def)
  moreover have "to_float64 (of_int (k * 24)) = of_int (k * 24)"
    by (rule to_float64_int) (use assms(2) in \<open>simp add: abs_mult\<close>)
  moreover have "to_float64 0 = 0" using to_float64_int [of 0] by simp
  ultimately have "duration_Hours ((k * 24) * 3600000000000) = of_int (k * 24)"
    by (simp only: duration_Hours_def Let_def) simp
  then have "to_float64 (duration_Hours ((k * 24) * 3600000000000) / 24) = of_int k"
    using to_float64_int [of k] assms(2) by simp
  then show ?thesis by (simp only: days_left_def sub float_to_int_def) simp
qed

text \<open>Silence means the certificate can be read, has not expired, and has more days left than asked.\<close>

lemma no_warning:
  "WarnIfExpiringSoon l now f n = '''' \<longleftrightarrow>
     (\<exists>info. InspectCertFile l now f = Inr info \<and> \<not> IsExpired info \<and> n < DaysLeft info)"
  by (auto simp: WarnIfExpiringSoon_def split: sum.splits)

end
