(* ===== verification/Mock_Idp.thy ===== *)
theory Mock_Idp
  imports App_Stack Certificates
begin

text \<open>
  The stand-ins for the identity provider: \<open>packages/realme-go/testenv\<close> (for tests) and
  \<open>packages/realme-go/cmd/mock-idp\<close> (a program of its own).  Key generation, the X.509 and PEM
  encoders and the file system are parameters.
\<close>

section \<open>test_users.go\<close>

record TestUser =
  tu_FLT :: string
  tu_AssuranceLevel :: int
  tu_FullName :: string
  tu_DateOfBirth :: gotime
  tu_PlaceOfBirth :: string
  tu_Gender :: string
  tu_AddressUnit :: string
  tu_AddressNum :: string
  tu_Street :: string
  tu_Suburb :: string
  tu_City :: string
  tu_Postcode :: string

definition UserLoginOnly :: TestUser where
  "UserLoginOnly = \<lparr>tu_FLT = ''FLT-TEST-LOGIN-001'', tu_AssuranceLevel = 1, tu_FullName = '''',
     tu_DateOfBirth = zero_time, tu_PlaceOfBirth = '''', tu_Gender = '''', tu_AddressUnit = '''',
     tu_AddressNum = '''', tu_Street = '''', tu_Suburb = '''', tu_City = '''', tu_Postcode = ''''\<rparr>"

definition UserVerified :: TestUser where
  "UserVerified = \<lparr>tu_FLT = ''FLT-TEST-VERIFIED-001'', tu_AssuranceLevel = 2, tu_FullName = ''Jane Mary Doe'',
     tu_DateOfBirth = time_Date 1985 3 22, tu_PlaceOfBirth = ''Wellington'', tu_Gender = ''female'',
     tu_AddressUnit = '''', tu_AddressNum = ''12'', tu_Street = ''Lambton Quay'',
     tu_Suburb = ''Wellington Central'', tu_City = ''Wellington'', tu_Postcode = ''6011''\<rparr>"

definition UserVerified2 :: TestUser where
  "UserVerified2 = \<lparr>tu_FLT = ''FLT-TEST-VERIFIED-002'', tu_AssuranceLevel = 2, tu_FullName = ''Robert James Smith'',
     tu_DateOfBirth = time_Date 1972 11 5, tu_PlaceOfBirth = ''Auckland'', tu_Gender = ''male'',
     tu_AddressUnit = '''', tu_AddressNum = ''45'', tu_Street = ''Queen Street'',
     tu_Suburb = ''Auckland Central'', tu_City = ''Auckland'', tu_Postcode = ''1010''\<rparr>"

definition UserVerifiedNoAddress :: TestUser where
  "UserVerifiedNoAddress = \<lparr>tu_FLT = ''FLT-TEST-VERIFIED-NOADDR-001'', tu_AssuranceLevel = 2, tu_FullName = ''Alex Taylor'',
     tu_DateOfBirth = time_Date 1990 7 14, tu_PlaceOfBirth = ''Christchurch'', tu_Gender = ''unspecified'',
     tu_AddressUnit = '''', tu_AddressNum = '''', tu_Street = '''', tu_Suburb = '''', tu_City = '''', tu_Postcode = ''''\<rparr>"

section \<open>The self-signed key pair\<close>

type_synonym files = "string \<Rightarrow> string option"

record cert_template =
  tm_SerialNumber :: int
  tm_CommonName :: string
  tm_NotBefore :: gotime
  tm_NotAfter :: gotime
  tm_KeyUsage :: int

text \<open>
  \<open>fs_Write\<close> gives what is in the file after a write of the text, and its error.
\<close>

record 'k keygen =
  rsa_GenerateKey :: "goerror + 'k"
  x509_CreateCertificate :: "cert_template \<Rightarrow> 'k \<Rightarrow> goerror + string"
  MarshalPKCS1PrivateKey :: "'k \<Rightarrow> string"
  pem_text :: "string \<Rightarrow> string \<Rightarrow> string"
  fs_Create :: "string \<Rightarrow> goerror option"
  fs_Write :: "string \<Rightarrow> string \<Rightarrow> string \<times> goerror option"

text \<open>\<open>filepath.Join\<close> of a clean directory and a file name.\<close>

definition filepath_Join :: "string \<Rightarrow> string \<Rightarrow> string" where
  "filepath_Join dir n = (if dir = '''' then n else dir @ ''/'' @ n)"

definition write_pem :: "'k keygen \<Rightarrow> string \<Rightarrow> string \<Rightarrow> string \<Rightarrow> files \<Rightarrow> goerror option \<times> files" where
  "write_pem l path kind bytes fs =
     (case fs_Create l path of
        Some e \<Rightarrow> (Some e, fs)
      | None \<Rightarrow> (case fs_Write l path (pem_text l kind bytes) of
            (contents, e) \<Rightarrow> (e, fs(path \<mapsto> contents))))"

text \<open>The template: one hour back from the first reading of the clock, a year on from the second.  Its key usage
  is digital signature and key encipherment.\<close>

definition self_signed :: "string \<Rightarrow> gotime \<Rightarrow> gotime \<Rightarrow> cert_template" where
  "self_signed cn now1 now2 = \<lparr>tm_SerialNumber = 1, tm_CommonName = cn,
     tm_NotBefore = time_Add now1 (- duration_seconds 3600), tm_NotAfter = time_Add now2 (duration_seconds (8760 * 3600)),
     tm_KeyUsage = 5\<rparr>"

definition generate_pair ::
  "'k keygen \<Rightarrow> string \<Rightarrow> gotime \<Rightarrow> gotime \<Rightarrow> string \<Rightarrow> string \<Rightarrow> files \<Rightarrow> (goerror + string \<times> string) \<times> files" where
  "generate_pair l cn now1 now2 dir prefix fs =
     (case rsa_GenerateKey l of
        Inl e \<Rightarrow> (Inl (Wrap ''generate RSA key: '' e), fs)
      | Inr key \<Rightarrow>
     (case x509_CreateCertificate l (self_signed cn now1 now2) key of
        Inl e \<Rightarrow> (Inl (Wrap ''create certificate: '' e), fs)
      | Inr der \<Rightarrow>
          let certFile = filepath_Join dir (prefix @ ''.crt''); keyFile = filepath_Join dir (prefix @ ''.key'')
          in case write_pem l certFile ''CERTIFICATE'' der fs of
               (Some e, fs) \<Rightarrow> (Inl e, fs)
             | (None, fs) \<Rightarrow> (case write_pem l keyFile ''RSA PRIVATE KEY'' (MarshalPKCS1PrivateKey l key) fs of
                   (Some e, fs) \<Rightarrow> (Inl e, fs)
                 | (None, fs) \<Rightarrow> (Inr (certFile, keyFile), fs))))"

definition generateSelfSignedCert ::
  "'k keygen \<Rightarrow> gotime \<Rightarrow> gotime \<Rightarrow> string \<Rightarrow> string \<Rightarrow> files \<Rightarrow> (goerror + string \<times> string) \<times> files" where
  "generateSelfSignedCert l now1 now2 dir prefix =
     generate_pair l (''mts.'' @ prefix @ ''.testapp.example.nz'') now1 now2 dir prefix"

definition generateCert ::
  "'k keygen \<Rightarrow> gotime \<Rightarrow> gotime \<Rightarrow> string \<Rightarrow> string \<Rightarrow> files \<Rightarrow> (goerror + string \<times> string) \<times> files" where
  "generateCert l now1 now2 dir prefix = generate_pair l ''mock-idp.localhost'' now1 now2 dir prefix"

section \<open>mock_idp.go\<close>

record MockIdP =
  mi_URL :: string
  mi_spCert :: string
  mi_spKey :: string
  nextUser :: "TestUser option"

text \<open>\<open>NewMockIdP\<close> on a fresh directory and the address of its test server; an error stops the test.\<close>

definition NewMockIdP :: "'k keygen \<Rightarrow> gotime \<Rightarrow> gotime \<Rightarrow> string \<Rightarrow> string \<Rightarrow> files \<Rightarrow> (goerror + MockIdP) \<times> files" where
  "NewMockIdP l now1 now2 tmpDir serverURL fs =
     (case generateSelfSignedCert l now1 now2 tmpDir ''sp'' fs of
        (Inl e, fs) \<Rightarrow> (Inl (Wrap ''testenv: generate SP cert: '' e), fs)
      | (Inr (spCert, spKey), fs) \<Rightarrow> (Inr \<lparr>mi_URL = serverURL, mi_spCert = spCert, mi_spKey = spKey,
          nextUser = Some UserVerified\<rparr>, fs))"

definition MockIdP_MetadataURL :: "MockIdP \<Rightarrow> string" where
  "MockIdP_MetadataURL m = mi_URL m @ ''/saml2/metadata''"

definition SSOURL :: "MockIdP \<Rightarrow> string" where
  "SSOURL m = mi_URL m @ ''/saml2/sso''"

definition SPCertFile :: "MockIdP \<Rightarrow> string" where
  "SPCertFile m = mi_spCert m"

definition SPKeyFile :: "MockIdP \<Rightarrow> string" where
  "SPKeyFile m = mi_spKey m"

definition SetNextUser :: "TestUser option \<Rightarrow> MockIdP \<Rightarrow> MockIdP" where
  "SetNextUser u m = m\<lparr>nextUser := u\<rparr>"

text \<open>The document both programs serve, with its two values put in as they are.\<close>

definition quoted :: "string \<Rightarrow> string" where
  "quoted s = CHR 0x22 # s @ [CHR 0x22]"

definition text_lines :: "string list \<Rightarrow> string" where
  "text_lines ls = strings_Join ls [CHR 0x0A]"

definition idp_metadata :: "string \<Rightarrow> string \<Rightarrow> string" where
  "idp_metadata entityID location = text_lines
     [''<?xml version='' @ quoted ''1.0'' @ ''?>'',
      ''<EntityDescriptor xmlns='' @ quoted ''urn:oasis:names:tc:SAML:2.0:metadata'',
      ''    entityID='' @ quoted entityID @ ''>'',
      ''  <IDPSSODescriptor'',
      ''      WantAuthnRequestsSigned='' @ quoted ''true'',
      ''      protocolSupportEnumeration='' @ quoted ''urn:oasis:names:tc:SAML:2.0:protocol'' @ ''>'',
      ''    <SingleSignOnService'',
      ''        Binding='' @ quoted ''urn:oasis:names:tc:SAML:2.0:bindings:HTTP-Redirect'',
      ''        Location='' @ quoted location @ ''/>'',
      ''  </IDPSSODescriptor>'',
      ''</EntityDescriptor>'']"

definition MockIdP_handleMetadata :: "MockIdP \<Rightarrow> rw_call list" where
  "MockIdP_handleMetadata m =
     [SetHeader ''Content-Type'' ''application/xml'', WriteBody (idp_metadata (mi_URL m) (SSOURL m))]"

definition MockIdP_handleSSO :: "MockIdP \<Rightarrow> rw_call list" where
  "MockIdP_handleSSO m =
     (let user = (case nextUser m of None \<Rightarrow> UserLoginOnly | Some u \<Rightarrow> u)
      in [SetHeader ''Content-Type'' ''text/html'', WriteBody (text_lines
           [''<html><body>'',
            ''<p>Mock RealMe IdP '' @ [CHR 0xE2, CHR 0x80, CHR 0x94] @ '' would authenticate as: <strong>'' @ tu_FullName user @
              ''</strong> (FLT: '' @ tu_FLT user @ '')</p>'',
            ''<p>In full test mode, this auto-POSTs a SAMLResponse to the ACS URL.</p>'',
            ''</body></html>''])])"

section \<open>cmd/mock-idp\<close>

definition idp_addr :: "(string \<Rightarrow> string) \<Rightarrow> string" where
  "idp_addr getenv = (let a = getenv ''IDP_ADDR'' in if a = '''' then '':8081'' else a)"

definition idp_handleMetadata :: "string \<Rightarrow> rw_call list" where
  "idp_handleMetadata host = [SetHeader ''Content-Type'' ''application/xml'',
     WriteBody (idp_metadata (''http://localhost'' @ host) (''http://localhost'' @ host @ ''/sso''))]"

text \<open>The style attributes and texts of the login page.\<close>

definition idp_button :: "string \<Rightarrow> string \<Rightarrow> string" where
  "idp_button user label = ''    <p><button type='' @ quoted ''submit'' @ '' name='' @ quoted ''user'' @ '' value='' @ quoted user @
     '' style='' @ quoted ''padding: 10px 20px; font-size: 16px;'' @ ''>'' @ label @ ''</button></p>''"

definition idp_handleSSO :: "rw_call list" where
  "idp_handleSSO = [SetHeader ''Content-Type'' ''text/html; charset=utf-8'', WriteBody (text_lines
     [''<!DOCTYPE html>'',
      ''<html>'',
      ''<head><title>Mock RealMe IdP</title></head>'',
      ''<body style='' @ quoted ''font-family: system-ui, sans-serif; max-width: 600px; margin: 40px auto; padding: 20px;'' @ ''>'',
      ''  <h1>Mock RealMe IdP</h1>'',
      ''  <p>This is a simulated RealMe login page for local development.</p>'',
      ''  <form method='' @ quoted ''post'' @ '' action='' @ quoted ''/sso/callback'' @ ''>'',
      ''    <p>Select a test user:</p>'',
      idp_button ''login'' ''Login (Basic Auth)'',
      idp_button ''verified'' ''Login (Verified Identity)'',
      idp_button ''verified2'' ''Login (Verified User 2)'',
      ''  </form>'',
      ''  <p style='' @ quoted ''color: #666; font-size: 12px;'' @ ''>In a full implementation, this would POST a signed SAMLResponse to the ACS URL.</p>'',
      ''</body>'',
      ''</html>''])]"

text \<open>The routes of the two programs; another path is answered 404 by the standard library.\<close>

definition not_found_calls :: "rw_call list" where
  "not_found_calls = response_calls (\<lambda>t. 0) (http_Error ''404 page not found'' 404)"

definition mock_routes :: "MockIdP \<Rightarrow> string \<Rightarrow> rw_call list" where
  "mock_routes m path =
     (if path = ''/saml2/metadata'' then MockIdP_handleMetadata m
      else if path = ''/saml2/sso'' then MockIdP_handleSSO m else not_found_calls)"

definition idp_routes :: "string \<Rightarrow> string \<Rightarrow> rw_call list" where
  "idp_routes host path =
     (if path = ''/metadata'' then idp_handleMetadata host
      else if path = ''/sso'' then idp_handleSSO
      else if path = ''/health'' then [SetHeader ''Content-Type'' ''application/json'',
        WriteBody (''{'' @ quoted ''status'' @ '':'' @ quoted ''ok'' @ ''}'')]
      else not_found_calls)"

text \<open>
  \<open>main\<close>: the outcome of \<open>os.MkdirTemp\<close> and the two readings of the clock are arguments.  It ends with a
  logged message and exit code 1, or serves its routes, with the lines it has logged.  (\<open>log.Fatalf\<close>
  exits without the deferred calls, so a directory that was made stays.)
\<close>

datatype idp_started = Fatal string | Serving string "string list" "string \<Rightarrow> string \<Rightarrow> rw_call list"

definition idp_start ::
  "'k keygen \<Rightarrow> (string \<Rightarrow> string) \<Rightarrow> goerror + string \<Rightarrow> gotime \<Rightarrow> gotime \<Rightarrow> files \<Rightarrow> idp_started \<times> files" where
  "idp_start l getenv tmp now1 now2 fs =
     (case tmp of
        Inl e \<Rightarrow> (Fatal (''failed to create temp dir: '' @ error_text e), fs)
      | Inr tmpDir \<Rightarrow> (case generateCert l now1 now2 tmpDir ''sp'' fs of
            (Inl e, fs) \<Rightarrow> (Fatal (''failed to generate SP cert: '' @ error_text e), fs)
          | (Inr (spCert, spKey), fs) \<Rightarrow>
              let addr = idp_addr getenv
              in (Serving addr [''SP certificate: '' @ spCert, ''SP key: '' @ spKey,
                    ''Mock RealMe IdP starting on '' @ addr, ''Metadata URL: http://localhost'' @ addr @ ''/metadata'',
                    ''SSO URL: http://localhost'' @ addr @ ''/sso''] idp_routes, fs)))"

section \<open>What the stand-ins do\<close>

text \<open>The form of the login page posts to a path the program does not serve.\<close>

lemma login_form_dead: "sent_status (idp_routes host ''/sso/callback'') = 404"
  by (simp add: idp_routes_def not_found_calls_def seen_sent_response http_Error_def respond_def)

text \<open>The \<open>Host\<close> of a request names the host and its port; the metadata put \<open>localhost\<close> before it.\<close>

lemma metadata_host_twice:
  "seen_body (idp_routes ''localhost:8081'' ''/metadata'') =
     idp_metadata ''http://localhostlocalhost:8081'' ''http://localhostlocalhost:8081/sso''"
  by (simp add: idp_routes_def idp_handleMetadata_def)

text \<open>The users of the catalogue: a verified one has a name, and a date of birth a cookie can carry.\<close>

lemma catalogue_dates:
  assumes "u \<in> {UserLoginOnly, UserVerified, UserVerified2, UserVerifiedNoAddress}"
  obtains y m d where "tu_DateOfBirth u = time_Date y m d" "valid_date y m d" "0 \<le> y" "y < 10000"
proof -
  have "zero_time = time_Date 1 1 1" "valid_date 1 1 1" "valid_date 1985 3 22" "valid_date 1972 11 5" "valid_date 1990 7 14"
    by code_simp+
  then show thesis
    using assms that [of 1 1 1] that [of 1985 3 22] that [of 1972 11 5] that [of 1990 7 14]
    by (auto simp: UserLoginOnly_def UserVerified_def UserVerified2_def UserVerifiedNoAddress_def)
qed

lemma catalogue:
  assumes "u \<in> {UserLoginOnly, UserVerified, UserVerified2, UserVerifiedNoAddress}"
  shows "tu_FLT u \<noteq> ''''" "tu_AssuranceLevel u = LevelVerified \<longleftrightarrow> tu_FullName u \<noteq> ''''"
    "parse_date (format_date (tu_DateOfBirth u)) = Some (tu_DateOfBirth u)"
proof -
  show "parse_date (format_date (tu_DateOfBirth u)) = Some (tu_DateOfBirth u)"
    by (rule catalogue_dates [OF assms]) (simp add: parse_format_date)
qed (use assms in \<open>auto simp: UserLoginOnly_def UserVerified_def UserVerified2_def UserVerifiedNoAddress_def levels\<close>)

text \<open>
  A pair that was generated is on disk, unless a write cheats; and the checks of \<open>certificates\<close> find the
  certificate good for a year.  The library hypotheses say that a PEM text is read back, and that a
  certificate that was created is parsed with the dates of its template.
\<close>

definition writes_whole :: "'k keygen \<Rightarrow> bool" where
  "writes_whole l \<longleftrightarrow> (\<forall>path text. snd (fs_Write l path text) = None \<longrightarrow> fst (fs_Write l path text) = text)"

definition certificates_parse :: "'k keygen \<Rightarrow> cert_lib \<Rightarrow> bool" where
  "certificates_parse l c \<longleftrightarrow> (\<forall>kind bytes. pem_Decode c (pem_text l kind bytes) = Some bytes) \<and>
     (\<forall>t k der. x509_CreateCertificate l t k = Inr der \<longrightarrow> ParseCertificate c der = Inr \<lparr>ct_Subject = tm_CommonName t,
        ct_Issuer = tm_CommonName t, ct_NotBefore = tm_NotBefore t, ct_NotAfter = tm_NotAfter t\<rparr>)"

lemma write_pem_done:
  assumes "writes_whole l" "write_pem l path kind bytes fs = (None, fs')"
  shows "fs' = fs(path \<mapsto> pem_text l kind bytes)"
  using assms by (auto simp: write_pem_def writes_whole_def split: option.splits prod.splits) (metis fst_conv snd_conv)

lemma filepath_Join_inj [simp]: "filepath_Join dir m = filepath_Join dir n \<longleftrightarrow> m = n"
  by (simp add: filepath_Join_def)

lemma generate_pair_done:
  assumes "generate_pair l cn now1 now2 dir prefix fs = (Inr (certFile, keyFile), fs')" "writes_whole l"
  obtains key der where "x509_CreateCertificate l (self_signed cn now1 now2) key = Inr der"
    "fs' certFile = Some (pem_text l ''CERTIFICATE'' der)"
    "fs' keyFile = Some (pem_text l ''RSA PRIVATE KEY'' (MarshalPKCS1PrivateKey l key))"
  using assms by (auto simp: generate_pair_def Let_def split: sum.splits prod.splits option.splits
      dest!: write_pem_done [OF assms(2)])

lemma year_later:
  assumes "valid_time t" "in_int64 (wsec t + 31536000)"
  shows "time_Add t (duration_seconds 31536000) = GoTime (wsec t + 31536000) (wnsec t)"
  using time_Add_seconds [OF assms(1), of 31536000] assms(2) by (simp add: in_int64_def)

lemma generated_pair_is_good:
  assumes "generate_pair l cn now1 now2 dir prefix fs = (Inr (certFile, keyFile), fs')"
    and "writes_whole l" "certificates_parse l c" "\<And>path. cl_ReadFile c path = (case fs' path of None \<Rightarrow> Inl e | Some x \<Rightarrow> Inr x)"
    and "valid_time now2" "in_int64 (wsec now2 + 31536000)" "0 \<le> n" "n \<le> 365"
  shows "InspectCertFile c (GoTime (wsec now2 + n * 86400) (wnsec now2)) certFile = Inr \<lparr>ci_Subject = cn, ci_Issuer = cn,
      ci_NotBefore = time_Add now1 (- duration_seconds 3600), ci_NotAfter = GoTime (wsec now2 + 31536000) (wnsec now2),
      DaysLeft = 365 - n, IsExpired = False\<rparr>"
proof -
  from generate_pair_done [OF assms(1,2)] obtain key der where
    der: "x509_CreateCertificate l (self_signed cn now1 now2) key = Inr der" and
    on_disk: "fs' certFile = Some (pem_text l ''CERTIFICATE'' der)" by metis
  have "days_left (GoTime (wsec now2 + 31536000) (wnsec now2)) (GoTime (wsec now2 + n * 86400) (wnsec now2)) = 365 - n"
    by (rule days_left_exact) (use assms(7,8) in \<open>simp_all add: nanos_between_def algebra_simps\<close>)
  moreover have "\<not> GoTime (wsec now2 + 31536000) (wnsec now2) < GoTime (wsec now2 + n * 86400) (wnsec now2)"
    using assms(8) by (simp add: less_gotime_def)
  ultimately show ?thesis
    using assms(3) der by (simp add: InspectCertFile_def assms(4) on_disk certificates_parse_def self_signed_def
        year_later [OF assms(5,6)])
qed

text \<open>So a warning at a threshold of \<open>d\<close> days appears once \<open>365 - d\<close> days have passed.\<close>

lemma generated_pair_warning:
  assumes "generate_pair l cn now1 now2 dir prefix fs = (Inr (certFile, keyFile), fs')"
    and "writes_whole l" "certificates_parse l c" "\<And>path. cl_ReadFile c path = (case fs' path of None \<Rightarrow> Inl e | Some x \<Rightarrow> Inr x)"
    and "valid_time now2" "in_int64 (wsec now2 + 31536000)" "0 \<le> n" "n \<le> 365"
  shows "WarnIfExpiringSoon c (GoTime (wsec now2 + n * 86400) (wnsec now2)) certFile d = '''' \<longleftrightarrow> d < 365 - n"
  by (simp add: no_warning generated_pair_is_good [OF assms])

end
