(* ===== verification/Server_Start.thy ===== *)
theory Server_Start
  imports App_Stack
begin

text \<open>
  \<open>cmd/server/main.go\<close>: the start of the process, from the environment to the handler that is served,
  or to the message it exits with.
\<close>

section \<open>Wiring\<close>

text \<open>\<open>NewDeathTrigger\<close> takes the webhook secret from the environment.\<close>

definition NewDeathTrigger_secret :: "(string \<Rightarrow> string) \<Rightarrow> string" where
  "NewDeathTrigger_secret getenv = getenv ''BDM_WEBHOOK_SECRET''"

text \<open>
  The world outside: the pool of the database driver, the loader of the provider, the transport of
  the title client, HMAC, and the router, which may refuse (by a panic) to register a pattern.
\<close>

record outside =
  pgx_ParseConfig :: "string \<Rightarrow> goerror option"
  pgx_NewWithConfig :: "string \<Rightarrow> goerror option"
  out_loader :: loader
  out_transport :: transport
  out_json_error :: "string \<Rightarrow> goerror"
  out_hmac :: "string \<Rightarrow> string \<Rightarrow> string"
  chi_panics :: "string \<Rightarrow> string \<Rightarrow> bool"
  out_libs :: app_libs

definition main_server :: "outside \<Rightarrow> (string \<Rightarrow> string) \<Rightarrow> server" where
  "main_server out getenv = \<lparr>sv_secret = NewDeathTrigger_secret getenv, sv_hmac = out_hmac out,
     sv_linz = linz_verifier (out_transport out) (out_json_error out) getenv\<rparr>"

definition main_app :: "outside \<Rightarrow> (string \<Rightarrow> string) \<Rightarrow> Provider \<Rightarrow> app" where
  "main_app out getenv provider = app_libs.extend (out_libs out) (app.fields (main_server out getenv) provider)"

section \<open>The start\<close>

text \<open>
  How the start ends: a logged error and exit code 1, a panic, or a server on an address, which then
  serves until \<open>ListenAndServe\<close> returns.
\<close>

datatype started = Exit string goerror | Panic string | Listening string handler

definition main_start :: "outside \<Rightarrow> (string \<Rightarrow> string) \<Rightarrow> started" where
  "main_start out getenv =
     (let dbURL = database_url getenv in
      case pgx_ParseConfig out dbURL of Some e \<Rightarrow> Exit ''db config parse'' e | None \<Rightarrow>
     (case pgx_NewWithConfig out dbURL of Some e \<Rightarrow> Exit ''db connect'' e | None \<Rightarrow>
     (case NewProvider (out_loader out) (realmeConfigFromEnv getenv) [] of Inl e \<Rightarrow> Exit ''realme init'' e
      | Inr provider \<Rightarrow>
     (case find (\<lambda>(v, prefix, p). chi_panics out v p) (map fst main_routes) of
        Some (v, prefix, p) \<Rightarrow> Panic p
      | None \<Rightarrow> Listening (listen_addr getenv) (main_handler getenv (main_app out getenv provider))))))"

text \<open>A process that listens has a complete configuration, and serves the application of \<open>App_Stack\<close>.\<close>

lemma main_start_Listening:
  assumes "main_start out getenv = Listening addr h"
  obtains provider where "h = main_handler getenv (main_app out getenv provider)" "addr = listen_addr getenv"
    "NewProvider (out_loader out) (realmeConfigFromEnv getenv) [] = Inr provider"
    "\<forall>(v, prefix, p) \<in> fst ` set main_routes. \<not> chi_panics out v p"
  using assms by (auto simp: main_start_def Let_def find_None_iff case_prod_beta split: option.splits sum.splits)

lemma main_app_parts [simp]:
  "ap_server (main_app out getenv p) = main_server out getenv" "ap_provider (main_app out getenv p) = p"
  by (simp_all add: main_app_def app_libs.defs app.defs)

lemma listening_configured:
  assumes "main_start out getenv = Listening addr h"
  shows "\<forall>k \<in> {''REALME_ENTITY_ID'', ''REALME_ACS_URL'', ''REALME_CERT_FILE'', ''REALME_KEY_FILE'',
    ''REALME_IDP_METADATA_URL''}. getenv k \<noteq> ''''"
proof (rule main_start_Listening [OF assms])
  fix p assume "NewProvider (out_loader out) (realmeConfigFromEnv getenv) [] = Inr p"
  then show ?thesis by (intro realmeConfigFromEnv_valid [THEN iffD1] NewProvider_started(1))
qed

text \<open>
  chi documents that a pattern has to begin with a slash and that registering another one panics.
  The create route is registered with the empty pattern.
\<close>

definition chi_documented :: "outside \<Rightarrow> bool" where
  "chi_documented out \<longleftrightarrow> (\<forall>v p. chi_panics out v p \<longleftrightarrow> take 1 p \<noteq> ''/'')"

lemma main_start_panics:
  assumes "chi_documented out"
  shows "main_start out getenv = Panic '''' \<or> (\<exists>msg e. main_start out getenv = Exit msg e)"
proof -
  have "find (\<lambda>(v, prefix, p). chi_panics out v p) (map fst main_routes) = Some (''POST'', ''/api/wills'', '''')"
    using assms by (simp add: chi_documented_def main_routes_def auth_routes_def will_routes_def)
  then show ?thesis by (auto simp: main_start_def Let_def split: option.split sum.split)
qed

end
