(* ===== verification/Spec2Isabelle.thy ===== *)
theory Spec2Isabelle
  imports Audit_Chain Draft_Outcome Lifecycle_Spec Executor_Access Example_Estate
    Platform_Properties Health_Client Mbie_Client Auth_Tokens Mock_Idp Server_Start
begin

text \<open>
  Verification of the digital-will server (\<open>cmd/server\<close>, \<open>internal/*\<close>) and its packages
  (\<open>packages/realme-go\<close>, \<open>packages/nz-common\<close>).

  The program.  A will is drafted by a testator, signed by the testator and two witnesses, locked,
  and, after a death notice and a cooling-off period, opened to its executors.  HTTP handlers
  (\<open>internal/handlers\<close>) call services (\<open>internal/services\<close>), which call repositories
  (\<open>internal/repository\<close>) over a PostgreSQL pool.  Each service call reads the will, checks its
  state and the caller, runs one statement (or, for a new will, one transaction) and writes an
  entry of the hash-chained audit log.  Route middleware (\<open>realme-go/middleware.go\<close>) admits
  requests with a RealMe identity of the verified level.

  How the theories follow it.

  \<^item> \<open>Go_Prelude\<close>: error values, integers of Go's widths, string helpers, the fact collections and
    the two interfaces used throughout, \<open>codec\<close> and \<open>step_invariant\<close>.  \<open>Go_Time\<close>: instants, their
    arithmetic and layouts, the resolution of a timestamp column.
  \<^item> \<open>Will_Models\<close>: \<open>internal/models/will.go\<close>.
  \<^item> \<open>Will_Store\<close>: the tables of \<open>migrations/*.sql\<close> as lists of rows with their key and reference
    checks; the \<open>world\<close> (database, clock, random bytes, outcome of each round trip, hash) and the
    calls of the database driver on it.
  \<^item> \<open>Will_Repo\<close>, \<open>Asset_Repo\<close>, \<open>Audit_Log\<close>: \<open>will_repo.go\<close>, \<open>digital_asset_repo.go\<close>, and
    \<open>audit_repo.go\<close> with \<open>services/audit.go\<close>, one definition per method.  Locale \<open>will_update\<close> is
    the contract of the single-row updates, \<open>audit_sink\<close> that of the audit service.
  \<^item> \<open>Vault_Encryption\<close>, \<open>Will_Service\<close>, \<open>Death_Trigger\<close>, \<open>Handlers\<close>: \<open>encryption.go\<close>,
    \<open>services/will.go\<close>, \<open>death_trigger.go\<close>, and the handlers, one definition per method, with an
    \<open>_effect\<close> lemma for each on what it can do to the database.
  \<^item> \<open>RealMe_Identity\<close>, \<open>RealMe_Middleware\<close>: identities taken from SAML assertions, and the gate
    (locale \<open>gate\<close>).  \<open>Server\<close>: the routes of \<open>main.go\<close>; \<open>serve\<close> answers one request.
  \<^item> \<open>Registry_Spec\<close>: the abstract registry, a labelled step relation with the guards the Wills Act
    asks for; every service call and every request takes at most one of its actions (\<open>takes\<close>) and then
    only writes log entries (\<open>_refines\<close>).  \<open>Registry_Invariants\<close>: the invariant \<open>registry_ok\<close> (primary
    keys, references, states and their columns, attestation, one active will, acyclic links) and its
    preservation by rule induction.
    \<open>Lifecycle\<close>, \<open>Time_Lock\<close>: the state machine, frozen content, the log, the cooling-off period.
  \<^item> \<open>Served_Calls\<close>, \<open>Draft_Outcome\<close>, \<open>Lifecycle_Spec\<close>, \<open>Executor_Access\<close>: what the calls answer when
    every round trip is served (\<open>healthy\<close>), as pure contracts that name the columns written, and what a
    success of the executor endpoint means in any environment.  \<open>Audit_Chain\<close>: what the hash chain detects.
  \<^item> \<open>Json_Strings\<close>, \<open>Go_Json\<close>: \<open>encoding/json\<close> on bytes, UTF-8 included: the text of a value, the
    parser, and decoding into strings, integers, slices and structs as Go does it (folded keys, null,
    repeated keys); reading undoes writing.  \<open>Json_Numbers\<close>: numbers read into \<open>float64\<close> as \<open>ParseFloat\<close> does.
    \<open>Number_Texts\<close>: the shortest digits that read back to a \<open>float64\<close>.  \<open>Request_Bodies\<close>: the bodies the
    handlers decode.  \<open>Json_Answers\<close>: the JSON they answer with; an answered will gives a client the
    stored vault (\<open>read_vault_answer\<close>).  \<open>Time_Texts\<close>: times read from RFC 3339 texts, the inverse of writing them.
  \<^item> \<open>Go_Url\<close>, \<open>Http_Redirect\<close>, \<open>Go_Float\<close>, \<open>Civil_Dates\<close>, \<open>Http_Client\<close>, \<open>Jwt\<close>: what the packages
    use of the standard library (escaping and query strings, redirects with their cleaning of local
    paths, \<open>float64\<close> rounding, dates, requests) and the contract of the token library.  Locale \<open>encoded_url\<close>: a request whose parameters are escaped is
    read by the server as it was meant.
  \<^item> \<open>Linz_Client\<close>, \<open>Health_Client\<close>, \<open>Mbie_Client\<close>: the clients of \<open>nz-common\<close> and the title verifier
    of property clauses.  \<open>Money\<close>, \<open>Pagination\<close>, \<open>Auth_Tokens\<close>: the other shared packages.
  \<^item> \<open>Http_Middleware\<close>: request identifiers, logging, CORS, idempotency, as functions from handlers
    to handlers (locale \<open>middleware\<close>).  \<open>RealMe_Session\<close>, \<open>RealMe_Provider\<close>, \<open>Certificates\<close>: the
    session cookie, the login flow, the start of the provider, certificate checks.  \<open>App_Stack\<close>: the
    whole of \<open>main.go\<close>, from an HTTP request to the calls on the response writer; a sequence of HTTP
    requests refines the registry again.  \<open>Server_Start\<close>: the start of the process, from the environment to
    that handler or to the message it exits with.  \<open>Mock_Idp\<close>: the test users and the two stand-ins for the
    identity provider.
  \<^item> \<open>Interleaving\<close>: \<open>Lock\<close> and \<open>CreateDraft\<close> cut between their reads and writes, and what two of them
    can do to each other.  \<open>Concurrency\<close>: all service calls cut at their round trips, a step relation
    in which any number of them overlap, and what it keeps.
  \<^item> \<open>Example_Estate\<close>, \<open>Example_Platform\<close>: concrete databases, sessions and library stand-ins on which
    the properties are instantiated.  \<open>Platform_Properties\<close>: the properties C29 to C40.

  Conventions.  State is passed explicitly: an operation takes the \<open>world\<close> last and returns it
  updated.  \<open>world\<close> fixes in advance how each round trip ends (served, refused, acknowledgement
  lost, result cut off), so a statement about all worlds holds whatever the database does.  Go
  errors are \<open>goerror option\<close>, a value with an error is \<open>goerror + 'a\<close>.  \<open>float64\<close> areas are
  rationals; where rounding matters (GST, days left) it is written out.  SHA-256, HMAC-SHA256, the
  transport of the HTTP clients, the text of a decoding error, the time zone of the server, the SAML and JWT libraries, Redis, PEM and X.509
  parsing and the URL matcher are parameters; what a statement needs of one is a hypothesis
  (\<open>jwt_parses_signed\<close>, \<open>redis_documented\<close>), met by a concrete stand-in in
  its witness.  Statements that need the hash not to collide say on which two texts.

  Bounds and termination.  The loops of the modelled code run over lists and are structural
  recursions.  The JSON parser recurses on the nesting depth, which Go limits to 10000
  (\<open>maxNestingDepth\<close>), and along the text within a level.  \<open>walk\<close>, which follows the cursors of a listing, takes fuel: one step more than there
  are rows is enough (C38), since every page but the last holds at least one row.  \<open>webhook_limit\<close> is
  the reader limit of the webhook, \<open>vault_unlock_delay_days\<close> and the clause indexes are checked
  against the 32-bit column types, \<open>AddDate\<close> wraps the second count modulo \<open>2 ^ 64\<close>, \<open>Sub\<close> saturates,
  and amounts of money wrap at 64 bits.  \<open>ORDER BY\<close> is a stable sort, one of the orders PostgreSQL
  may choose for equal keys.

  Not modelled.  \<open>serve\<close> and \<open>main_handler\<close> answer requests one after the other; overlapping calls are
  the subject of \<open>Interleaving\<close> and \<open>Concurrency\<close> only, and there a transaction is one step.  The columns \<open>created_at\<close> and \<open>updated_at\<close> of a will, opening the
  connection pool and the listening socket, and time-outs are not part of this development.  A timestamp column is given every instant (\<open>timestamptz\<close>): its range (to the year
  294276) and the 64-bit count of microseconds that the driver sends are not checked, so a death
  notice that delays by hundreds of thousands of years is out of scope.  Of a redirect the location
  is modelled, not the content type and the link text that go with it.
\<close>

section \<open>Requests and the registry\<close>

text \<open>C1. Refinement and authorisation.  Serving any request, in any state and whatever the database
  and the clock do, changes the tables by at most one action of the abstract registry, followed by
  entries of the audit log alone.  That action is the one the endpoint stands for, and it is taken
  in the name of the verified session: without one, no will endpoint (\<open>Lock\<close> included) takes an
  action.\<close>

theorem requests_take_only_their_own_action:
  "takes (own_action s (rq_endpoint rq) (verified_session rq) (w_clock w 0))
     (w_db w) (w_db (snd (serve s rq w)))"
  by (rule serve_run)

text \<open>C2. The invariant of the registry (unique primary keys in every table, closed references
  including the previous entry of an audit entry, columns that agree with the state, attested
  executed wills, no self-witnessing, one active will per testator, and no cycle of supersession or
  codicil links) is kept by every sequence of requests.\<close>

theorem requests_keep_registry_ok:
  assumes "registry_ok (w_db w)"
  shows "registry_ok (w_db (snd (serve_all s rqs w)))"
  by (rule registry_inv.inv_steps [OF serve_all_refines assms])

text \<open>The instance: a draft is created, signed and death is notified on a locked estate.\<close>

theorem requests_keep_registry_ok_witness:
  "registry_ok (w_db (snd (serve_all ex_server
     [by_person ''ann'' (EpCreate (Some ex_request)), by_person ''ed'' (EpExecutor ''w'')] (ex_at ex_locked_db))))"
  by (rule requests_keep_registry_ok) simp

text \<open>C3. Attestation.  Whatever requests were served since a sound state, a stored will that is
  locked, death-notified or unlocked carries the testator's signature and at least two witness
  signatures, none of them by the testator.\<close>

theorem executed_wills_are_attested:
  assumes "registry_ok (w_db w)" and "w' = snd (serve_all s rqs w)"
    and "r \<in> set (will_t (w_db w'))" and "executed r"
  shows "wr_testator_signed_at r \<noteq> None \<and>
    2 \<le> length (filter (\<lambda>x. wsr_will_id x = wr_id r \<and> wsr_flt x \<noteq> wr_testator_flt r) (witness_t (w_db w')))"
proof (rule attested [OF _ assms(3,4)])
  show "registry_ok (w_db w')"
    unfolding assms(2) by (rule registry_inv.inv_steps [OF serve_all_refines assms(1)])
qed

theorem executed_wills_are_attested_witness:
  "2 \<le> length (filter (\<lambda>x. wsr_will_id x = ''w'' \<and> wsr_flt x \<noteq> ''ann'') (witness_t ex_locked_db))"
  using executed_wills_are_attested [of "ex_at ex_locked_db" "ex_at ex_locked_db" ex_server "[]" ex_locked_row]
  by (simp add: executed_def ex_defs status_row_def signed_row_def will_row_of_def)

text \<open>C4. Wills Act s.17.  After any requests on a sound state, a testator has at most one active
  (draft or locked) will that is not a codicil.\<close>

theorem at_most_one_active_will:
  assumes "registry_ok (w_db w)"
  shows "length (active_ids flt (w_db (snd (serve_all s rqs w)))) \<le> 1"
  by (rule active_ids_single) (rule registry_inv.inv_steps [OF serve_all_refines assms])

theorem at_most_one_active_will_witness:
  "length (active_ids ''ann'' (w_db (snd (serve_all ex_server
     [by_person ''ann'' (EpCreate (Some ex_request))] (ex_at ex_draft_db))))) \<le> 1"
  by (rule at_most_one_active_will) simp

text \<open>C5. The state machine.  Across any requests a stored will stays stored, and its state moves
  only along draft to locked or superseded, locked to superseded, death-notified or unlocked, and
  death-notified to unlocked.\<close>

theorem lifecycle_respected:
  assumes "registry_ok (w_db w)" and "status_in k (w_db w) = Some st"
  shows "\<exists>st'. status_in k (w_db (snd (serve_all s rqs w))) = Some st' \<and> lifecycle_edge\<^sup>*\<^sup>* st st'"
  by (rule status_run [OF serve_all_refines _ assms(2)]) (use assms(1) in \<open>simp add: registry_ok_def\<close>)

theorem lifecycle_respected_witness:
  "\<exists>st'. status_in ''w'' (w_db (snd (serve_all ex_server [by_person ''ed'' (EpExecutor ''w'')]
      (ex_at ex_locked_db)))) = Some st' \<and> lifecycle_edge\<^sup>*\<^sup>* WillStatusLocked st'"
  by (rule lifecycle_respected) simp_all

text \<open>C6. Nothing is edited after the draft state: once a will has left it, its clauses,
  beneficiaries, executors, witnesses, asset and property clauses, vault, testator and testator
  signature stay what they are across any requests.\<close>

theorem content_frozen:
  assumes "registry_ok (w_db w)" and "status_in k (w_db w) = Some st" and "st \<noteq> WillStatusDraft"
  shows "content_of k (w_db (snd (serve_all s rqs w))) = content_of k (w_db w)"
  by (rule content_run [OF serve_all_refines _ assms(2,3)]) (use assms(1) in \<open>simp add: registry_ok_def\<close>)

theorem content_frozen_witness:
  "content_of ''w'' (w_db (snd (serve_all ex_server
      [by_person ''ann'' (EpDigitalAsset ''w'' (Some zero_asset)), by_person ''ann'' (EpSignTestator ''w'' (Some ''h2''))]
      (ex_at ex_locked_db)))) = content_of ''w'' ex_locked_db"
  using content_frozen [of "ex_at ex_locked_db" "''w''" WillStatusLocked ex_server
      "[by_person ''ann'' (EpDigitalAsset ''w'' (Some zero_asset)), by_person ''ann'' (EpSignTestator ''w'' (Some ''h2''))]"]
  by (simp del: serve_all.simps)

text \<open>C7. The time lock.  A will whose death is notified stays in the cooling-off period through any
  requests, each with its own clock, randomness and database outcomes, as long as their clocks
  are before the instant the notice set.\<close>

theorem cooling_off_is_kept:
  assumes "registry_ok d" and "status_in k d = Some WillStatusDeathNotified"
    and "map_option wr_unlock_after (find_will k d) = Some (Some u)"
    and "\<forall>(rq, e) \<in> set rqs. w_clock e 0 < u"
  shows "status_in k (serve_each s rqs d) = Some WillStatusDeathNotified"
proof -
  have "waiting k u d"
    using assms(1-3) by (auto simp: waiting_def registry_ok_def status_in_def status_reads)
  from serve_each_waiting [OF this assms(4)] show ?thesis
    by (auto simp: waiting_def status_in_def status_reads)
qed

theorem cooling_off_is_kept_witness:
  "status_in ''w'' (serve_each ex_server [(by_person ''ed'' (EpExecutor ''w''), ex_world),
      (by_person ''ed'' (EpExecutor ''w''), ex_world)] (ex_notified_db (ex_time 1000))) = Some WillStatusDeathNotified"
  by (rule cooling_off_is_kept [where u = "ex_time 1000"])
    (simp_all add: ex_time_def ex_world_def timestamptz_def less_gotime_def death_row_def
      del: serve_each.simps)

section \<open>Opening the vault\<close>

text \<open>C8. Whatever the environment does, the executor endpoint answers 200 only to a session at the
  verified level, only with a will whose stored state is unlocked, and the vault it hands out is the
  stored one.  The executors of that will are those its read delivered (all the stored ones when the
  round trips are served), and the person is one of them by token, or none of them has a token.\<close>

theorem executor_success_means_unlocked:
  assumes "rq_endpoint rq = EpExecutor k" and "rs_status (fst (serve s rq w)) = 200"
  shows "\<exists>i will m. rq_session rq = Some i \<and> LevelVerified \<le> Id_AssuranceLevel i \<and>
    rs_body (fst (serve s rq w)) = WillBody will \<and> Status will = WillStatusUnlockedDead \<and>
    status_in k (w_db (snd (serve s rq w))) = Some WillStatusUnlockedDead \<and>
    stored_vault k (w_db (snd (serve s rq w))) = Some (VaultCiphertext will, VaultNonce will, VaultAlg will) \<and>
    Executors will = take m (executors_of k (w_db (snd (serve s rq w)))) \<and>
    (healthy w \<longrightarrow> Executors will = executors_of k (w_db (snd (serve s rq w)))) \<and>
    ((\<exists>e \<in> set (Executors will). FLT e \<noteq> '''' \<and> FLT e = Id_FLT i) \<or>
     (\<forall>e \<in> set (Executors will). FLT e = ''''))"
proof -
  have gated: "serve s rq w = RequireVerified (rq_session rq) (rq_uri rq) (route s (EpExecutor k)) w"
    by (simp add: serve_def assms(1))
  have "rs_status (fst (RequireVerified (rq_session rq) (rq_uri rq) (route s (EpExecutor k)) w)) \<noteq> 302"
    using assms(2) by (simp add: gated)
  then obtain i where i: "rq_session rq = Some i" "LevelVerified \<le> Id_AssuranceLevel i"
      "serve s rq w = ExecutorHandler_GetWill (Some i) k w"
    by (rule verified.passed) (simp add: gated)
  with ExecutorGetWill_200 [of i k w] assms(2) show ?thesis
    unfolding isNominatedExecutor_iff i(3) by blast
qed

text \<open>On an unlocked estate whose one executor has a token, the person let in has that token.\<close>

theorem executor_success_means_unlocked_witness:
  "\<exists>i will. rq_session (by_person ''ed'' (EpExecutor ''w'')) = Some i \<and> LevelVerified \<le> Id_AssuranceLevel i \<and>
    rs_body (fst (serve ex_server (by_person ''ed'' (EpExecutor ''w'')) (ex_at ex_unlocked_db))) = WillBody will \<and>
    Status will = WillStatusUnlockedDead \<and>
    stored_vault ''w'' (w_db (snd (serve ex_server (by_person ''ed'' (EpExecutor ''w'')) (ex_at ex_unlocked_db)))) =
      Some (VaultCiphertext will, VaultNonce will, VaultAlg will) \<and>
    map FLT (Executors will) = [''ed''] \<and> Id_FLT i = ''ed''"
proof -
  let ?rq = "by_person ''ed'' (EpExecutor ''w'')"
  have served: "serve ex_server ?rq (ex_at ex_unlocked_db) =
      ExecutorHandler_GetWill (Some (person ''ed'' LevelVerified)) ''w'' (ex_at ex_unlocked_db)"
    by (simp add: serve_acting acting_def by_person_def person_def)
  have "rs_status (fst (serve ex_server ?rq (ex_at ex_unlocked_db))) = 200"
    using ExecutorGetWill_result [of "ex_at ex_unlocked_db" "person ''ed'' LevelVerified" "''w''"]
    by (simp add: served person_def status_row_def executor_status_def isNominatedExecutor_def)
  moreover have "executors_of ''w'' (w_db (snd (serve ex_server ?rq (ex_at ex_unlocked_db)))) =
      executors_of ''w'' ex_locked_db"
    using ExecutorGetWill_unlocked_keeps [of "''w''" "ex_at ex_unlocked_db"]
    by (simp add: served status_row_def)
  ultimately show ?thesis
    using executor_success_means_unlocked [of ?rq "''w''" ex_server "ex_at ex_unlocked_db"]
    by (auto simp: by_person_def)
qed

text \<open>C9. The executor endpoint on a served database, case by case: 404 for no such will, 202 while
  the cooling-off period runs, 403 before any death notice and for a person not nominated, and 200
  for a nominated person once the vault is unlocked or the period has elapsed.  When no executor
  has a stored token everyone counts as nominated.\<close>

theorem executor_endpoint_result:
  assumes "healthy w"
  shows "rs_status (fst (ExecutorHandler_GetWill (Some i) k w)) = (case find_will k (w_db w) of
      None \<Rightarrow> 404
    | Some r \<Rightarrow>
        if wr_status r = ''unlocked_at_death'' \<or>
           wr_status r = ''death_notified'' \<and> (\<exists>u. wr_unlock_after r = Some u \<and> u \<le> w_clock w 0)
        then (if (\<exists>e \<in> set (executors_of k (w_db w)). FLT e \<noteq> '''' \<and> FLT e = Id_FLT i) \<or>
                 (\<forall>e \<in> set (executors_of k (w_db w)). FLT e = '''')
              then 200 else 403)
        else if wr_status r = ''death_notified'' then 202 else 403)"
  using ExecutorGetWill_result [OF assms, of i k]
  unfolding executor_status_def isNominatedExecutor_iff by (simp split: option.split)

theorem executor_endpoint_result_witness:
  "rs_status (fst (ExecutorHandler_GetWill (Some (person ''eve'' LevelVerified)) ''w'' (ex_at ex_unlocked_db))) = 403"
  using executor_endpoint_result [of "ex_at ex_unlocked_db" "person ''eve'' LevelVerified" "''w''"]
  by (simp add: status_row_def person_def)

text \<open>C10. An elapsed vault opens: the first request of a nominated, verified executor after the
  cooling-off period is answered with the will and leaves it unlocked.  Where the will can be written
  as JSON at all, the bytes of the answer, read by a client, give the ciphertext, the nonce and the
  algorithm the testator stored.\<close>

theorem elapsed_vault_opens:
  assumes "healthy w" and "find_will k (w_db w) = Some r" and "wr_status r = ''death_notified''"
    and "wr_unlock_after r = Some u" and "u \<le> w_clock w 0"
    and "rq_endpoint rq = EpExecutor k" and "rq_session rq = Some i" and "LevelVerified \<le> Id_AssuranceLevel i"
    and "isNominatedExecutor (executors_of k (w_db w)) (Id_FLT i)"
  shows "rs_status (fst (serve s rq w)) = 200 \<and>
    status_in k (w_db (snd (serve s rq w))) = Some WillStatusUnlockedDead \<and>
    (\<exists>will. rs_body (fst (serve s rq w)) = WillBody will \<and>
       (\<forall>zone. answerable zone will \<longrightarrow> (\<exists>t. body_text zone (WillBody will) = Some t \<and>
          read_vault t = Some (wr_vault_ciphertext r, wr_vault_nonce r, wr_vault_alg r))))"
proof -
  have run: "serve s rq w = ExecutorHandler_GetWill (Some i) k w"
    using assms(6-8) by (simp add: serve_acting acting_def)
  have "rs_status (fst (ExecutorHandler_GetWill (Some i) k w)) = 200"
    using ExecutorGetWill_result [OF assms(1), of i k] assms(2-5,9) by (simp add: executor_status_def)
  moreover from this have "status_in k (w_db (snd (ExecutorHandler_GetWill (Some i) k w))) = Some WillStatusUnlockedDead"
    using ExecutorGetWill_200 [of i k w] by auto
  moreover obtain will where "rs_body (fst (ExecutorHandler_GetWill (Some i) k w)) = WillBody will"
      "(VaultCiphertext will, VaultNonce will, VaultAlg will) = (wr_vault_ciphertext r, wr_vault_nonce r, wr_vault_alg r)"
  proof (rule ExecutorGetWill_elapsed [OF assms(1-5), of i], goal_cases)
    case (1 d rows)
    with \<open>rs_status _ = 200\<close> show ?case
      by (intro that [of "full_will k d (status_row (WillStatusUnlockedDead, None, Some (w_clock w 0)) r)"])
        (simp_all add: executor_answer_body status_row_def)
  qed
  ultimately show ?thesis unfolding run by (metis read_vault_answer)
qed

theorem elapsed_vault_opens_witness:
  "rs_status (fst (serve ex_server (by_person ''ed'' (EpExecutor ''w'')) (ex_at (ex_notified_db (ex_time 0))))) = 200 \<and>
   status_in ''w'' (w_db (snd (serve ex_server (by_person ''ed'' (EpExecutor ''w''))
     (ex_at (ex_notified_db (ex_time 0)))))) = Some WillStatusUnlockedDead \<and>
   (\<exists>will t. rs_body (fst (serve ex_server (by_person ''ed'' (EpExecutor ''w'')) (ex_at (ex_notified_db (ex_time 0))))) = WillBody will \<and>
      body_text (\<lambda>t. 0) (WillBody will) = Some t \<and> read_vault t = Some (''c'', ''n'', ''AES-GCM-256''))"
proof -
  let ?rq = "by_person ''ed'' (EpExecutor ''w'')" and ?w = "ex_at (ex_notified_db (ex_time 0))"
  let ?i = "person ''ed'' LevelVerified" and ?r = "death_row (ex_time 4, ex_time 0) ex_locked_row"
  have notified: "find_will ''w'' (w_db ?w) = Some ?r" "wr_status ?r = ''death_notified''"
      "wr_unlock_after ?r = Some (ex_time 0)" "ex_time 0 \<le> w_clock ?w 0"
    by (simp_all add: death_row_def ex_time_def timestamptz_def)
  have opens: "rs_status (fst (serve ex_server ?rq ?w)) = 200 \<and>
      status_in ''w'' (w_db (snd (serve ex_server ?rq ?w))) = Some WillStatusUnlockedDead \<and>
      (\<exists>will. rs_body (fst (serve ex_server ?rq ?w)) = WillBody will \<and>
        (\<forall>zone. answerable zone will \<longrightarrow> (\<exists>t. body_text zone (WillBody will) = Some t \<and>
          read_vault t = Some (wr_vault_ciphertext ?r, wr_vault_nonce ?r, wr_vault_alg ?r))))"
    by (rule elapsed_vault_opens [where i = ?i, OF _ notified])
      (simp_all add: by_person_def person_def isNominatedExecutor_def)
  obtain rows where "rs_body (fst (serve ex_server ?rq ?w)) = WillBody (full_will ''w''
      ((upd_will ''w'' (status_row (WillStatusUnlockedDead, None, Some (w_clock ?w 0))) (w_db ?w))\<lparr>audit_t := rows\<rparr>)
      (status_row (WillStatusUnlockedDead, None, Some (w_clock ?w 0)) ?r))" (is "_ = WillBody (?will rows)")
  proof (rule ExecutorGetWill_elapsed [OF _ notified, of ?i], goal_cases)
    case (2 d rows)
    then show ?case using opens
      by (intro that [of rows]) (simp add: serve_acting acting_def by_person_def person_def executor_answer_body)
  qed simp
  moreover have "answerable (\<lambda>t. 0) (?will rows)" using ex_opened_answerable [of rows] by simp
  ultimately show ?thesis using opens by (auto simp: ex_defs death_row_def signed_row_def status_row_def will_row_of_def)
qed

section \<open>Creating a will\<close>

text \<open>C11. All or nothing.  Whatever the database does, a call of \<open>CreateDraft\<close> either fails and
  leaves the database as it is, or makes exactly one new will with the vault, the clauses, the
  beneficiaries and the executors of the request, column by column (only empty identifiers are
  filled in), and supersedes every active will of the testator; only log entries can come on top.  (An error after the commit, when its acknowledgement is lost, falls under the second.)\<close>

theorem draft_is_all_or_nothing:
  "isl (fst (WillService_CreateDraft testator req w)) \<and>
     w_db (snd (WillService_CreateDraft testator req w)) = w_db w \<or>
   (\<exists>will rows. Testator will = testator \<and> carries will req \<and> Will_ID will \<notin> will_ids (w_db w) \<and>
       drafted (Will_ID will) testator req (will_row_of will) (map (clause_row_of will) (Clauses will))
         (map (beneficiary_row_of will) (Beneficiaries will)) (map (executor_row_of will) (Executors will)) \<and>
       fst (WillService_CreateDraft testator req w) \<in> range Inl \<union> {Inr (Will_ID will)} \<and>
       w_db (snd (WillService_CreateDraft testator req w)) = (w_db w)\<lparr>
         will_t := map (superseding (Will_ID will) (active_ids (RealMeFLT testator) (w_db w))) (will_t (w_db w))
           @ [will_row_of will],
         clause_t := clause_t (w_db w) @ map (clause_row_of will) (Clauses will),
         beneficiary_t := beneficiary_t (w_db w) @ map (beneficiary_row_of will) (Beneficiaries will),
         executor_t := executor_t (w_db w) @ map (executor_row_of will) (Executors will),
         audit_t := audit_t (w_db w) @ rows\<rparr>)"
proof -
  obtain res w' where op: "WillService_CreateDraft testator req w = (res, w')" by fastforce
  from CreateDraft_tables [OF op] show ?thesis unfolding op by (cases res) auto
qed

text \<open>C12. Supersession.  A successful \<open>CreateDraft\<close> makes the new will the testator's only active
  one; every will that was active is superseded by it.\<close>

theorem new_will_supersedes:
  assumes "registry_ok (w_db w)"
  shows "isl (fst (WillService_CreateDraft testator req w)) \<or>
    (\<exists>k. fst (WillService_CreateDraft testator req w) = Inr k \<and>
       active_ids (RealMeFLT testator) (w_db (snd (WillService_CreateDraft testator req w))) = [k] \<and>
       (\<forall>j \<in> set (active_ids (RealMeFLT testator) (w_db w)). \<exists>r.
          find_will j (w_db (snd (WillService_CreateDraft testator req w))) = Some r \<and>
          wr_status r = ''superseded'' \<and> wr_superseded_by r = Some k))"
  by (rule CreateDraft_supersedes [OF assms])

theorem new_will_supersedes_witness:
  "isl (fst (WillService_CreateDraft (claims ''ann'') ex_request (ex_at ex_draft_db))) \<or>
    (\<exists>k. fst (WillService_CreateDraft (claims ''ann'') ex_request (ex_at ex_draft_db)) = Inr k \<and>
       (\<exists>r. find_will ''w'' (w_db (snd (WillService_CreateDraft (claims ''ann'') ex_request (ex_at ex_draft_db)))) =
          Some r \<and> wr_status r = ''superseded'' \<and> wr_superseded_by r = Some k))"
proof -
  have "''w'' \<in> set (active_ids (RealMeFLT (claims ''ann'')) (w_db (ex_at ex_draft_db)))"
    by (simp add: active_ids_def active_of_def ex_draft_db_def ex_will_def empty_db_def will_row_of_def)
  with new_will_supersedes [of "ex_at ex_draft_db" "claims ''ann''" ex_request] show ?thesis by auto
qed

text \<open>C13. On a served database \<open>CreateDraft\<close> answers as the plain list of its SQL statements would:
  the validation error, the error of the first statement that fails, or the identifier of the
  new will.\<close>

theorem draft_result_served:
  assumes "healthy w"
  shows "fst (WillService_CreateDraft t req w) =
    (if rq_VaultCiphertext req = '''' \<or> rq_VaultNonce req = '''' \<or> rq_VaultAlg req \<noteq> ''AES-GCM-256''
     then Inl ErrEncryptionInvalid
     else (case exec_all (draft_stmts (draft_of t req w) (active_ids (RealMeFLT t) (w_db w))) (w_db w) of
         Inl e \<Rightarrow> Inl e | Inr _ \<Rightarrow> Inr (Will_ID (draft_of t req w))))"
  using ValidateVault_None [of "rq_VaultCiphertext req" "rq_VaultNonce req" "rq_VaultAlg req"]
    ValidateVault_Some [of "rq_VaultCiphertext req" "rq_VaultNonce req" "rq_VaultAlg req"]
  by (auto simp: CreateDraft_result [OF assms] split: option.split)

theorem draft_result_served_witness:
  "fst (WillService_CreateDraft (claims ''ann'') (ex_request\<lparr>rq_VaultAlg := ''DES''\<rparr>) (ex_at empty_db)) =
     Inl ErrEncryptionInvalid"
  using draft_result_served [of "ex_at empty_db" "claims ''ann''" "ex_request\<lparr>rq_VaultAlg := ''DES''\<rparr>"] by simp

section \<open>The lifecycle methods implement their contract\<close>

text \<open>C14. Signing.  On a served database \<open>SignTestator\<close> and \<open>SignWitness\<close> answer and change the tables
  as their contracts say, errors included.\<close>

theorem signing_implements_contract:
  assumes "healthy w"
  shows "on_tables (WillService_SignTestator k c h w) =
      sign_testator_spec k (RealMeFLT c) h (w_clock w 0) (tables (w_db w)) \<and>
    on_tables (WillService_SignWitness k c h w) =
      sign_witness_spec k c h (w_clock w 0) (tables (w_db w))"
  by (rule conjI [OF SignTestator_implements [OF assms] SignWitness_implements [OF assms]])

theorem signing_implements_contract_witness:
  "fst (WillService_SignTestator ''w'' (claims ''ann'') ''h'' (ex_at ex_draft_db)) = None \<and>
   fst (WillService_SignWitness ''w'' (claims ''wit1'') ''h'' (ex_at ex_draft_db)) = Some ErrInvalidState"
  using signing_implements_contract [of "ex_at ex_draft_db" "''w''" "claims ''ann''" "''h''"]
    signing_implements_contract [of "ex_at ex_draft_db" "''w''" "claims ''wit1''" "''h''"]
  by (simp add: on_tables_def sign_testator_spec_def sign_witness_spec_def will_row_of_def ex_will_def
      claims_def person_def)

text \<open>C15. Sealing, death and unlocking.  On a served database \<open>Lock\<close>, \<open>NotifyDeath\<close> and
  \<open>CompleteUnlock\<close> answer and change the tables as their contracts say.  (The contracts show that
  an unlock clears \<open>locked_at\<close>, and that an immediate unlock records no time of notice.)\<close>

theorem sealing_and_unlocking_implement_contract:
  assumes "healthy w"
  shows "on_tables (WillService_Lock k t w) = lock_spec k t (tables (w_db w)) \<and>
    on_tables (WillService_NotifyDeath k n t w) = notify_death_spec k n t (tables (w_db w)) \<and>
    on_tables (WillService_CompleteUnlock k t w) = complete_unlock_spec k t (tables (w_db w))"
  by (intro conjI Lock_implements NotifyDeath_implements CompleteUnlock_implements assms)

theorem sealing_and_unlocking_implement_contract_witness:
  "fst (WillService_Lock ''w'' (ex_time 9) (ex_at ex_draft_db)) = Some ErrInvalidState \<and>
   fst (WillService_NotifyDeath ''w'' 0 (ex_time 9) (ex_at ex_locked_db)) = None"
  using sealing_and_unlocking_implement_contract [of "ex_at ex_draft_db" "''w''" "ex_time 9" 0]
    sealing_and_unlocking_implement_contract [of "ex_at ex_locked_db" "''w''" "ex_time 9" 0]
  by (simp add: on_tables_def lock_spec_def notify_death_spec_def will_row_of_def ex_will_def
      ex_locked_row_def status_row_def)

text \<open>C16. Liveness.  On a served database \<open>ConfirmLiveness\<close> meets its contract: it stamps
  \<open>last_confirmed_at\<close> and nothing else.  The reminder endpoint answers 404 for an unknown will,
  409 for one that is neither draft nor locked and 200 within 24 hours of the last reminder, none of
  which changes a table; otherwise it answers 202 and stamps \<open>liveness_notified_at\<close> of that will and
  nothing else.  Entries of the audit log apart.\<close>

theorem liveness_check_implements_contract:
  assumes "healthy w"
  shows "on_tables (WillService_ConfirmLiveness k c w) =
      confirm_spec k (RealMeFLT c) (w_clock w 0) (tables (w_db w)) \<and>
    (rs_status (fst (LivenessHandler_SendReminder k w)), tables (w_db (snd (LivenessHandler_SendReminder k w)))) =
      remind_spec k (w_clock w 0) (w_clock w 1) (tables (w_db w))"
  by (rule conjI [OF ConfirmLiveness_implements [OF assms] SendReminder_implements [OF assms]])

text \<open>A reminder is recorded at the clock reading, and limits the next one.\<close>

theorem liveness_check_implements_contract_witness:
  "fst (WillService_ConfirmLiveness ''w'' (claims ''eve'') (ex_at ex_locked_db)) = Some ErrForbidden \<and>
   rs_status (fst (LivenessHandler_SendReminder ''w'' (ex_at ex_locked_db))) = 202 \<and>
   map wr_liveness_notified_at (will_t (w_db (snd (LivenessHandler_SendReminder ''w'' (ex_at ex_locked_db))))) =
     [Some (timestamptz (ex_time 0))]"
proof -
  note contract = liveness_check_implements_contract [of "ex_at ex_locked_db" "''w''" "claims ''eve''"]
  have row: "will_t (tables ex_locked_db) = [ex_locked_row]" by (simp add: ex_locked_db_def)
  have columns: "wr_id ex_locked_row = ''w''" "wr_status ex_locked_row = ''locked''"
    "wr_testator_flt ex_locked_row = ''ann''" "wr_liveness_notified_at ex_locked_row = None"
    by (simp_all add: ex_locked_row_def status_row_def signed_row_def will_row_of_def ex_will_def claims_def person_def)
  have "fst (WillService_ConfirmLiveness ''w'' (claims ''eve'') (ex_at ex_locked_db)) = Some ErrForbidden"
    using contract by (simp add: on_tables_def confirm_spec_def columns claims_def person_def)
  moreover have "rs_status (fst (LivenessHandler_SendReminder ''w'' (ex_at ex_locked_db))) = 202"
    and "will_t (tables (w_db (snd (LivenessHandler_SendReminder ''w'' (ex_at ex_locked_db))))) =
      [ex_locked_row\<lparr>wr_liveness_notified_at := Some (timestamptz (ex_time 0))\<rparr>]"
    using contract by (simp_all add: remind_spec_def changed_def row columns del: tables_simps(5))
  ultimately show ?thesis by simp
qed

section \<open>The audit log\<close>

text \<open>C17. The audit log is append-only: no request removes, alters or reorders an
  entry.\<close>

theorem audit_log_only_grows:
  assumes "registry_ok (w_db w)"
  shows "\<exists>rows. audit_t (w_db (snd (serve_all s rqs w))) = audit_t (w_db w) @ rows"
  by (rule log_run [OF serve_all_refines]) (use assms in \<open>simp add: registry_ok_def\<close>)

theorem audit_log_only_grows_witness:
  "\<exists>rows. audit_t (w_db (snd (serve_all ex_server [by_person ''wit1'' (EpSignWitness ''w'' (Some ''h''))]
     (ex_at ex_draft_db)))) = audit_t ex_draft_db @ rows"
  using audit_log_only_grows [of "ex_at ex_draft_db" ex_server
      "[by_person ''wit1'' (EpSignWitness ''w'' (Some ''h''))]"]
  by (simp del: serve_all.simps)

text \<open>C18. On a served database \<open>VerifyChain\<close> accepts the log of a will exactly
  when every entry of it has the hash of its own fields as identifier.  (It does not ask that
  entries name their predecessors.)\<close>

theorem verification_accepts_exactly_sealed_logs:
  assumes "healthy w"
  shows "fst (AuditService_VerifyChain k w) = None \<longleftrightarrow>
    (\<forall>r \<in> set (audit_t (w_db w)). ar_will_id r = k \<longrightarrow> w_sha256 w (hashed_text r) = ar_id r)"
proof -
  have "w_outcomes w 0 = Served" using assms by (simp add: healthy_def)
  from VerifyChain_iff [OF this, of k] show ?thesis by (simp add: sealed_iff)
qed

theorem verification_accepts_exactly_sealed_logs_witness:
  "fst (AuditService_VerifyChain ''w'' (ex_at ex_locked_db)) = None"
  using verification_accepts_exactly_sealed_logs [of "ex_at ex_locked_db" "''w''"]
  by (simp add: ex_locked_db_def ex_draft_db_def empty_db_def)

text \<open>C19. Tampering with a hashed field is detected: if a stored entry keeps the identifier
  of a sealed entry but differs from it in the previous identifier, the instant, the event, the
  will or the actor, \<open>VerifyChain\<close> rejects the log, unless the hash collides on the
  two texts.\<close>

theorem tampering_is_detected:
  assumes "healthy w" and "r' \<in> set (audit_t (w_db w))" and "ar_will_id r' = k"
    and "w_sha256 w (hashed_text r) = ar_id r" and "ar_id r' = ar_id r"
    and "plain_row r" and "plain_row r'"
    and "(ar_previous_entry_id r', ar_created_at r', ar_event r', ar_will_id r', ar_actor_flt r') \<noteq>
         (ar_previous_entry_id r, ar_created_at r, ar_event r, ar_will_id r, ar_actor_flt r)"
    and "ar_previous_entry_id r \<noteq> Some ''''" and "ar_previous_entry_id r' \<noteq> Some ''''"
    and no_collision: "inj_on (w_sha256 w) {hashed_text r, hashed_text r'}"
  shows "fst (AuditService_VerifyChain k w) \<noteq> None"
proof
  assume "fst (AuditService_VerifyChain k w) = None"
  with assms(1-3) have "sealed (w_sha256 w) r'"
    using VerifyChain_iff [of w k] by (auto simp: healthy_def)
  moreover have "hashed_text r' \<noteq> hashed_text r"
    using assms(8-10) unfolding hashed_text_inj [OF assms(7,6)]
    by (auto simp: coalesce_def split: option.splits)
  ultimately show False
    using assms(4,5) no_collision by (auto simp: sealed_iff dest: inj_onD)
qed

theorem tampering_is_detected_witness:
  "fst (AuditService_VerifyChain ''w'' (ex_at (ex_log_db (ex_entry\<lparr>ar_event := ''superseded''\<rparr>)))) \<noteq> None"
proof (rule tampering_is_detected [where r = ex_entry and r' = "ex_entry\<lparr>ar_event := ''superseded''\<rparr>"])
  have "date_of (ex_time 1) = (2025, 11, 29)" by code_simp
  then have "four_digit_year (ex_time 1)" by (simp add: four_digit_year_def) (simp add: ex_time_def)
  then show "plain_row ex_entry" "plain_row (ex_entry\<lparr>ar_event := ''superseded''\<rparr>)"
    by (simp_all add: plain_row_def coalesce_def known_event_def event_of_text_def)
qed (simp_all add: ex_entry_sealed ex_log_db_def)

text \<open>C20. What verification cannot see: dropping or reordering entries and rewriting
  payload hashes in an accepted log gives an accepted log.\<close>

theorem verification_blind_spots:
  assumes "healthy w" and "fst (AuditService_VerifyChain k w) = None"
    and "\<forall>r \<in> set rows. \<exists>q \<in> set (audit_t (w_db w)). \<exists>h. r = q\<lparr>ar_payload_hash := h\<rparr>"
  shows "fst (AuditService_VerifyChain k (w\<lparr>w_db := (w_db w)\<lparr>audit_t := rows\<rparr>\<rparr>)) = None"
proof -
  have "w_outcomes w 0 = Served" using assms(1) by (simp add: healthy_def)
  with assms(2) have "\<forall>q \<in> set (audit_t (w_db w)). ar_will_id q = k \<longrightarrow> sealed (w_sha256 w) q"
    using VerifyChain_iff [of w k] by simp
  with assms(3) have "\<forall>r \<in> set rows. ar_will_id r = k \<longrightarrow> sealed (w_sha256 w) r"
    by (auto simp: payload_not_hashed)
  then show ?thesis
    using \<open>w_outcomes w 0 = Served\<close> by (subst VerifyChain_iff) simp_all
qed

theorem verification_blind_spots_witness:
  "fst (AuditService_VerifyChain ''w'' ((ex_at (ex_log_db ex_entry))\<lparr>w_db :=
     (ex_log_db ex_entry)\<lparr>audit_t := [ex_entry\<lparr>ar_payload_hash := ''forged''\<rparr>]\<rparr>\<rparr>)) = None"
proof -
  have "fst (AuditService_VerifyChain ''w'' (ex_at (ex_log_db ex_entry))) = None"
    by (subst VerifyChain_iff) (simp_all add: ex_log_db_def sealed_iff ex_entry_sealed, simp add: ex_at_def ex_world_def)
  from verification_blind_spots [OF _ this, of "[ex_entry\<lparr>ar_payload_hash := ''forged''\<rparr>]"]
  show ?thesis by (simp add: ex_log_db_def) blast
qed

text \<open>C21. An entry recorded at an instant that is not a whole microsecond makes its own log
  fail verification, because the hash is taken of the nanosecond reading and the column keeps
  microseconds (as long as the hash does not collide on these two texts).\<close>

theorem sub_microsecond_entries_fail:
  assumes "healthy w" and "k \<in> will_ids (w_db w)" and "known_event ev"
    and "valid_time (w_clock w 0)" and "\<not> whole_micros (w_clock w 0)"
    and "deriveEntryID (w_sha256 w) (prev_id k (w_db w)) (w_clock w 0) ev k a \<notin> ar_id ` set (audit_t (w_db w))"
    and "inj_on (w_sha256 w) {entry_text (prev_id k (w_db w)) t ev k a | t. t \<in> {w_clock w 0, timestamptz (w_clock w 0)}}"
  shows "fst (AuditService_VerifyChain k (AuditService_Record k ev a p w)) \<noteq> None"
proof -
  let ?w = "AuditService_Record k ev a p w"
  let ?r = "new_audit_row (w_sha256 w) k (prev_id k (w_db w)) ev a p (w_clock w 0)"
  have "?r \<in> set (audit_t (w_db ?w))"
    using assms(2,6) new_row_ref_ok [of "w_sha256 w" k "w_db w" ev a p] by (simp add: Record_served [OF assms(1)] INSERT_audit_def sql_insert_def)
  moreover have "\<not> sealed (w_sha256 w) ?r"
    using entry_text_stored [OF assms(4,5), of "prev_id k (w_db w)" ev k a] assms(3) inj_onD [OF assms(7)]
    by (auto simp: sealed_new_row)
  moreover have "w_outcomes ?w 0 = Served" using healthy_Record [OF assms(1)] by (simp add: healthy_def)
  ultimately show ?thesis
    by (subst VerifyChain_iff) (auto simp: audit_svc.sha_same intro!: bexI [of _ ?r])
qed

theorem sub_microsecond_entries_fail_witness:
  "fst (AuditService_VerifyChain ''w'' (AuditService_Record ''w'' AuditEventLocked ''ann'' ''''
     ((ex_at ex_locked_db)\<lparr>w_clock := (\<lambda>_. GoTime 63900000000 123456789)\<rparr>))) \<noteq> None"
  by (rule sub_microsecond_entries_fail)
    (simp_all add: healthy_def ex_at_def ex_world_def valid_time_def whole_micros_def in_int64_def
      known_event_def ex_locked_db_def ex_draft_db_def empty_db_def will_ids_def ex_locked_row_def
      status_row_def signed_row_def will_row_of_def ex_will_def)

text \<open>C22. Linkage: with a clock ahead of the log, \<open>Record\<close> on a served
  database keeps the log of a will chronological and each entry naming its predecessor.\<close>

theorem recorded_log_stays_linked:
  assumes "healthy w" and "chronological (log_of k (w_db w))" and "chained '''' (log_of k (w_db w))"
    and "\<forall>r \<in> set (log_of k (w_db w)). ar_created_at r < timestamptz (w_clock w 0)"
  shows "chronological (log_of k (w_db (AuditService_Record k ev a p w))) \<and>
    chained '''' (log_of k (w_db (AuditService_Record k ev a p w)))"
  using Record_keeps_chain [OF assms refl] by blast

theorem recorded_log_stays_linked_witness:
  "chained '''' (log_of ''w'' (w_db (AuditService_Record ''w'' AuditEventLocked ''ann'' ''''
     ((ex_at (ex_log_db ex_entry))\<lparr>w_clock := (\<lambda>_. ex_time 8)\<rparr>))))"
  using recorded_log_stays_linked [of "(ex_at (ex_log_db ex_entry))\<lparr>w_clock := (\<lambda>_. ex_time 8)\<rparr>" "''w''"
      AuditEventLocked "''ann''" "''''"]
  by (simp add: ex_log_db_def log_of_def sql_where_def chronological_def coalesce_def healthy_def
      ex_at_def ex_world_def ex_time_def timestamptz_def less_gotime_def)

section \<open>Death notices and sessions\<close>

text \<open>C23. A death notice from its bytes.  A notice posted as JSON, within the size limit, to a server
  with a webhook secret takes effect exactly when the signature header carries the hash of the
  body under the secret: then it is the call of \<open>NotifyDeath\<close> with the posted will and delay,
  answered 204 or 500; otherwise it is answered 401 and has no effect.\<close>

theorem posted_notice:
  assumes "ap_match a (map fst main_routes) r = RouteTo (''POST'', '''', ''/webhooks/bdm/death'') k"
    and "in_Body r = Some body" and "body = json_text (notice_json p)" and "length body \<le> webhook_limit"
    and "valid_utf8 (bdm_WillID p)" and "bdm_WillID p \<noteq> ''''" and "in_int64 (bdm_DelayDays p)"
    and "sv_secret (ap_server a) \<noteq> ''''"
  shows "app_router a r e =
    (if values_Get ''X-Bdm-Signature'' (in_Header r) = ''sha256='' @ sv_hmac (ap_server a) (sv_secret (ap_server a)) body
     then (case DeathTrigger_NotifyDeath (bdm_WillID p) (bdm_DelayDays p) (ev_world e) of (err, w) \<Rightarrow>
       (response_calls (ap_zone a) (case err of None \<Rightarrow> respond 204 NoBody | Some _ \<Rightarrow> http_Error ''internal server error'' 500),
        e\<lparr>ev_world := w\<rparr>))
     else (response_calls (ap_zone a) (http_Error ''invalid signature'' 401), e))"
proof -
  let ?sig = "values_Get ''X-Bdm-Signature'' (in_Header r)"
  have "map_of main_routes (''POST'', '''', ''/webhooks/bdm/death'') =
      Some (\<lambda>k r. Api (EpDeath (in_Body r) (values_Get ''X-Bdm-Signature'' (in_Header r))))"
    by (simp add: main_routes_def auth_routes_def will_routes_def)
  from app_target_routed [OF assms(1) this] have ep: "app_target a r = Inr (Api (EpDeath (Some body) ?sig))"
    by (simp add: assms(2))
  have body: "decode_payload body = Some p" unfolding assms(3) by (rule decode_notice [OF assms(5,7)])
  have "serve (ap_server a) \<lparr>rq_endpoint = EpDeath (Some body) ?sig, rq_session = None, rq_uri = u\<rparr> w =
    HandleBDMNotification (sv_hmac (ap_server a)) (sv_secret (ap_server a)) (Some body) ?sig w" for u w
    by (simp add: serve_def)
  moreover have "HandleBDMNotification (sv_hmac (ap_server a)) (sv_secret (ap_server a)) (Some body) ?sig w =
     (if ?sig = ''sha256='' @ sv_hmac (ap_server a) (sv_secret (ap_server a)) body
      then (case DeathTrigger_NotifyDeath (bdm_WillID p) (bdm_DelayDays p) w of (err, w) \<Rightarrow>
        (case err of None \<Rightarrow> respond 204 NoBody | Some _ \<Rightarrow> http_Error ''internal server error'' 500, w))
      else (http_Error ''invalid signature'' 401, w))" for w
    using assms(4,6,8) by (auto simp: HandleBDMNotification_def Let_def body validSignature_def split: prod.split option.split)
  ultimately show ?thesis
    by (simp add: app_router_api [OF ep] app_session_def split: prod.split)
qed

theorem posted_notice_witness:
  "fst (app_router ex_app ex_notice_post (ex_env ex_locked_db)) = response_calls (ap_zone ex_app) (respond 204 NoBody)"
proof -
  have "fst (DeathTrigger_NotifyDeath ''w'' 0 (ex_at ex_locked_db)) = None"
    by code_simp
  then obtain w where served: "DeathTrigger_NotifyDeath ''w'' 0 (ex_at ex_locked_db) = (None, w)"
    by (metis prod.collapse)
  have "length ex_notice \<le> webhook_limit" by (simp add: ex_notice_length webhook_limit_def)
  from posted_notice [OF ex_posts(4,3) ex_notice_def this, of "ex_env ex_locked_db"] served
  show ?thesis
    by (simp add: ex_notice_post_def ex_app_def ex_server_def no_hmac_def values_Get_def in_int64_def
        ex_env_def split: prod.split)
qed

text \<open>A notice with a wrong signature, or none, is rejected, whatever its body.\<close>

theorem forged_notice_rejected:
  assumes "rq_endpoint rq = EpDeath (Some raw) sig" and "sv_secret s \<noteq> ''''"
    and "sig \<noteq> ''sha256='' @ sv_hmac s (sv_secret s) (take webhook_limit raw)"
  shows "serve s rq w = (http_Error ''invalid signature'' 401, w)"
  using assms by (simp add: serve_def webhook_rejected validSignature_def)

theorem forged_notice_rejected_witness:
  "serve ex_server \<lparr>rq_endpoint = EpDeath (Some ''w'') ''forged'', rq_session = None, rq_uri = ''/''\<rparr> (ex_at ex_locked_db)
     = (http_Error ''invalid signature'' 401, ex_at ex_locked_db)"
proof (rule forged_notice_rejected [where raw = "''w''"])
  show "''forged'' \<noteq> ''sha256='' @ sv_hmac ex_server (sv_secret ex_server) (take webhook_limit ''w'')"
    by (simp add: ex_server_def no_hmac_def)
qed (simp_all add: ex_server_def)

text \<open>C24. An accepted death notice on a served database does what the contract of
  \<open>NotifyDeath\<close> says at the current clock: 204 and the new state, or 500 and no
  change.\<close>

theorem notice_outcome:
  assumes "healthy w" and "rq_endpoint rq = EpDeath raw sig"
    and "accepted_notice (sv_hmac s) (sv_secret s) raw sig = Some p"
  shows "rs_status (fst (serve s rq w)) =
      (case fst (notify_death_spec (bdm_WillID p) (bdm_DelayDays p) (w_clock w 0) (tables (w_db w))) of
         None \<Rightarrow> 204 | Some _ \<Rightarrow> 500) \<and>
    tables (w_db (snd (serve s rq w))) =
      snd (notify_death_spec (bdm_WillID p) (bdm_DelayDays p) (w_clock w 0) (tables (w_db w)))"
proof -
  obtain w1 where w1: "time_Now w = (w_clock w 0, w1)" "healthy w1" "w_db w1 = w_db w"
    using healthy_clock [OF assms(1)] by metis
  obtain e w2 where op: "WillService_NotifyDeath (bdm_WillID p) (bdm_DelayDays p) (w_clock w 0) w1 = (e, w2)"
    by fastforce
  have "serve s rq w = (case e of Some _ \<Rightarrow> (http_Error ''internal server error'' 500, w2) | None \<Rightarrow> (respond 204 NoBody, w2))"
    using assms(2,3) by (simp add: serve_def, subst webhook_cases)
      (simp add: DeathTrigger_NotifyDeath_def w1 op split: option.split)
  moreover have "(e, tables (w_db w2)) = notify_death_spec (bdm_WillID p) (bdm_DelayDays p) (w_clock w 0) (tables (w_db w))"
    using NotifyDeath_implements [OF w1(2), of "bdm_WillID p" "bdm_DelayDays p" "w_clock w 0"] w1(3)
    by (simp add: op)
  ultimately show ?thesis by (cases e) (metis fst_conv snd_conv option.case respond_simps)+
qed

theorem notice_outcome_witness:
  "rs_status (fst (serve ex_server \<lparr>rq_endpoint = EpDeath (Some ex_notice) (''sha256=key:'' @ ex_notice), rq_session = None,
     rq_uri = ''/''\<rparr> (ex_at ex_locked_db))) = 204"
proof -
  have "take webhook_limit ex_notice = ex_notice" by (rule take_all) (simp add: ex_notice_length webhook_limit_def)
  then have "accepted_notice (sv_hmac ex_server) (sv_secret ex_server) (Some ex_notice) (''sha256=key:'' @ ex_notice) =
      Some \<lparr>bdm_WillID = ''w'', bdm_DelayDays = 0\<rparr>"
    by (simp add: accepted_notice_def ex_notice_decoded ex_server_def validSignature_def no_hmac_def)
  from notice_outcome [OF ex_at_simps(2) _ this] show ?thesis
    by (simp add: notify_death_spec_def ex_locked_row_def status_row_def)
qed

text \<open>C25. A request to a will route without a session, or with one below the verified
  level, is redirected to the login page and has no effect at all.\<close>

theorem strangers_are_turned_away:
  assumes "behind_verified (rq_endpoint rq)"
    and "\<forall>i. rq_session rq = Some i \<longrightarrow> Id_AssuranceLevel i < LevelVerified"
  shows "serve s rq w = (redirectToLogin (rq_uri rq)
    (case rq_session rq of None \<Rightarrow> ''/auth/realme/login'' | Some _ \<Rightarrow> ''/auth/realme/verified''), w)"
  using assms by (simp add: serve_def RequireVerified_def requireAssuranceLevel_def split: option.split)

theorem strangers_are_turned_away_witness:
  "serve ex_server \<lparr>rq_endpoint = EpLock ''w'', rq_session = Some (person ''ann'' LevelLogin), rq_uri = ''/x''\<rparr> (ex_at ex_draft_db)
     = (redirectToLogin ''/x'' ''/auth/realme/verified'', ex_at ex_draft_db)"
  using strangers_are_turned_away [of "\<lparr>rq_endpoint = EpLock ''w'', rq_session = Some (person ''ann'' LevelLogin), rq_uri = ''/x''\<rparr>"
      ex_server "ex_at ex_draft_db"]
  by (simp add: person_def levels)

text \<open>C26. Will identifiers are UUIDs of version 4: 36 characters, hyphens after 8, 12, 16 and 20
  digits, version digit 4, variant digit 8, 9, a or b.  They keep all the randomness there is room
  for: two agree exactly when the 16 random bytes agree, of byte 6 the low four and of byte 8 the low
  six bits.\<close>

theorem will_id_is_uuid_v4:
  "length (fst (newWillID w)) = 36 \<and> map ((!) (fst (newWillID w))) [8, 13, 18, 23] = ''----'' \<and>
   fst (newWillID w) ! 14 = CHR ''4'' \<and> fst (newWillID w) ! 19 \<in> set ''89ab'' \<and>
   (fst (newWillID w) = fst (newWillID w') \<longleftrightarrow>
      (let b = map (w_rand w) [0..<16]; c = map (w_rand w') [0..<16] in
       take 6 b = take 6 c \<and> take_bit 4 (b ! 6) = take_bit 4 (c ! 6) \<and> b ! 7 = c ! 7 \<and>
       take_bit 6 (b ! 8) = take_bit 6 (c ! 8) \<and> drop 9 b = drop 9 c))"
  unfolding Let_def
  by (intro conjI newWillID_length newWillID_hyphens newWillID_version newWillID_variant newWillID_eq_iff)
    (simp_all add: rand_Read_def)

text \<open>C27. An identity taken from an assertion has a non-empty FLT; it is verified only if
  the first authentication statement names a class of moderate strength, and below that level it
  carries none of the verified attributes.\<close>

theorem session_identity_is_sound:
  assumes "extractIdentity (Some a) = Inr i"
  shows "Id_FLT i \<noteq> '''' \<and>
    (if Identity_IsVerified i
     then \<exists>stmt rest ref. AuthnStatements a = stmt # rest \<and> as_ClassRef stmt = Some ref \<and>
            strings_Contains ref ''ModStrength''
     else Id_FullName i = '''' \<and> DateOfBirth i = zero_time \<and> PlaceOfBirth i = '''' \<and> Gender i = '''' \<and>
            Id_Address i = None)"
  using extract_FLT [OF assms] extract_verified [OF assms] extract_unverified [OF assms] by simp

theorem session_identity_is_sound_witness:
  "case extractIdentity (Some \<lparr>AuthnStatements = [\<lparr>as_AuthnInstant = zero_time, as_SessionIndex = ''s'',
       as_ClassRef = Some ''urn:x:LowStrength''\<rparr>],
     AttributeStatements = [[\<lparr>at_Name = AttrFLT, at_Values = [''F'']\<rparr>, \<lparr>at_Name = AttrFullName, at_Values = [''N'']\<rparr>]]\<rparr>) of
     Inl _ \<Rightarrow> False | Inr i \<Rightarrow> Id_FLT i = ''F'' \<and> Id_FullName i = ''''"
proof -
  let ?a = "\<lparr>AuthnStatements = [\<lparr>as_AuthnInstant = zero_time, as_SessionIndex = ''s'',
       as_ClassRef = Some ''urn:x:LowStrength''\<rparr>],
     AttributeStatements = [[\<lparr>at_Name = AttrFLT, at_Values = [''F'']\<rparr>, \<lparr>at_Name = AttrFullName, at_Values = [''N'']\<rparr>]]\<rparr>"
  have run: "extractIdentity (Some ?a) = Inr \<lparr>Id_FLT = ''F'', Id_AssuranceLevel = LevelLogin, AuthnInstant = zero_time,
      SessionIndex = ''s'', Id_FullName = '''', DateOfBirth = zero_time, PlaceOfBirth = '''', Gender = '''', Id_Address = None\<rparr>"
    by code_simp
  from session_identity_is_sound [OF this] run show ?thesis by (simp add: Identity_IsVerified_def levels)
qed


section \<open>Clauses on assets\<close>

text \<open>A digital-asset clause that is added is read back as it was returned, whatever
  the database does.\<close>

theorem asset_clauses_round_trip:
  assumes "WillService_AddDigitalAssetClause k t c w = ((c', None), w')" and "known_asset (AssetType c)"
  shows "c' \<in> set (assets_of k (w_db w'))"
proof -
  from AddDigitalAssetClause_effect [OF assms(1)] obtain i where
    c': "c' = c\<lparr>DA_ID := i, DA_WillID := k\<rparr>" and ins: "INSERT_asset (asset_row_of c') (w_db w) = Inr (w_db w')"
    by auto
  from inserted_asset_read [OF ins] show ?thesis using assms(2) by (simp add: c')
qed

theorem asset_clauses_round_trip_witness:
  "\<exists>c' w'. WillService_AddDigitalAssetClause ''w'' (claims ''ann'') (zero_asset\<lparr>AssetType := DigitalAssetEmail\<rparr>)
      (ex_at ex_draft_db) = ((c', None), w') \<and> c' \<in> set (assets_of ''w'' (w_db w'))"
proof -
  let ?call = "WillService_AddDigitalAssetClause ''w'' (claims ''ann'') (zero_asset\<lparr>AssetType := DigitalAssetEmail\<rparr>)
      (ex_at ex_draft_db)"
  have "snd (fst ?call) = None" by code_simp
  then obtain c' w' where run: "?call = ((c', None), w')" by (metis prod.collapse)
  from asset_clauses_round_trip [OF run] show ?thesis using run by (auto simp: known_asset_def)
qed

section \<open>What the checks do not cover\<close>

text \<open>C28. When the read of the executors (the fourth statement of a request) fails, every
  verified session is given the unlocked vault: the error is swallowed and an empty list nominates
  everybody.\<close>

theorem failed_executors_read_opens_vault:
  assumes "w_outcomes w = (\<lambda>n. if n = 3 then Refused m else Served)"
    and "find_will k (w_db w) = Some r" and "wr_status r = ''unlocked_at_death''"
    and "rq_endpoint rq = EpExecutor k" and "rq_session rq = Some i" and "LevelVerified \<le> Id_AssuranceLevel i"
  shows "rs_status (fst (serve s rq w)) = 200 \<and>
    (\<exists>will. rs_body (fst (serve s rq w)) = WillBody will \<and> VaultCiphertext will = wr_vault_ciphertext r)"
proof -
  have "serve s rq w = ExecutorHandler_GetWill (Some i) k w"
    using assms(4-6) by (simp add: serve_acting acting_def)
  with failed_executors_read [OF assms(1-3), of i] show ?thesis by simp
qed

theorem failed_executors_read_opens_vault_witness:
  "rs_status (fst (serve ex_server (by_person ''eve'' (EpExecutor ''w''))
     ((ex_at ex_unlocked_db)\<lparr>w_outcomes := (\<lambda>n. if n = 3 then Refused ''timeout'' else Served)\<rparr>))) = 200"
  using failed_executors_read_opens_vault [of "(ex_at ex_unlocked_db)\<lparr>w_outcomes :=
      (\<lambda>n. if n = 3 then Refused ''timeout'' else Served)\<rparr>" "''timeout''" "''w''" _ "by_person ''eve'' (EpExecutor ''w'')"
      "person ''eve'' LevelVerified" ex_server]
  by (simp add: by_person_def person_def status_row_def)

text \<open>The plain read endpoint gives every verified session the will with its vault, in
  any state.\<close>

theorem any_verified_session_reads_the_vault:
  assumes "healthy w" and "find_will k (w_db w) = Some r"
    and "rq_endpoint rq = EpGet k" and "rq_session rq = Some i" and "LevelVerified \<le> Id_AssuranceLevel i"
  shows "\<exists>will. fst (serve s rq w) = respond 200 (WillBody will) \<and> Status will = status_of_text (wr_status r) \<and>
    VaultCiphertext will = wr_vault_ciphertext r"
  by (rule verified_session_reads [OF assms])

theorem any_verified_session_reads_the_vault_witness:
  "\<exists>will. fst (serve ex_server (by_person ''eve'' (EpGet ''w'')) (ex_at ex_locked_db)) = respond 200 (WillBody will) \<and>
     VaultCiphertext will = ''c''"
  using any_verified_session_reads_the_vault [of "ex_at ex_locked_db" "''w''" ex_locked_row
      "by_person ''eve'' (EpGet ''w'')" "person ''eve'' LevelVerified" ex_server]
  by (auto simp: by_person_def person_def ex_locked_row_def status_row_def signed_row_def will_row_of_def ex_will_def)

text \<open>The two witness signatures \<open>Lock\<close> asks for may come from one person,
  who may also send the request to lock.\<close>

theorem one_witness_can_sign_twice:
  "map rs_status (fst (serve_all ex_server
     [by_person ''ann'' (EpSignTestator ''w'' (Some ''h'')),
      by_person ''wit1'' (EpSignWitness ''w'' (Some ''h'')),
      by_person ''wit1'' (EpSignWitness ''w'' (Some ''h'')),
      by_person ''wit1'' (EpLock ''w'')] (ex_at ex_draft_db))) = [204, 204, 204, 204]"
  by code_simp

end
